(* ===== verification/KT_Prelude.thy ===== *)
theory KT_Prelude
  imports Main "HOL-Library.Word"
begin

text \<open>
  Shared vocabulary of the development: the result types of Go functions, 64-bit integer
  wrap-around, and the generic facts on lists that several components use.

  A Go function returning a value and an error is a sum: \<open>Inl\<close> is the error, \<open>Inr\<close> the
  value.  A Go function that may loop forever is an \<open>outcome\<close>: \<open>None\<close> is "does not
  return".  \<open>then_ok\<close> and \<open>then_run\<close> are the early return on \<open>err != nil\<close>.
\<close>

section \<open>Collections of facts\<close>

named_theorems kt_defs \<open>definitions that proofs of a component unfold\<close>
named_theorems kt_frame \<open>which parts of a state an operation leaves alone\<close>
named_theorems kt_keeps \<open>invariant preservation, one fact per operation\<close>

section \<open>Results of Go functions\<close>

type_synonym ('e, 'a) result = "'e + 'a"
type_synonym ('e, 'a) outcome = "('e + 'a) option"

fun then_ok :: "('e, 'a) result \<Rightarrow> ('a \<Rightarrow> ('e, 'b) result) \<Rightarrow> ('e, 'b) result" where
  "then_ok (Inl e) f = Inl e"
| "then_ok (Inr a) f = f a"

fun then_run :: "('e, 'a) outcome \<Rightarrow> ('a \<Rightarrow> ('e, 'b) outcome) \<Rightarrow> ('e, 'b) outcome" where
  "then_run None f = None"
| "then_run (Some (Inl e)) f = Some (Inl e)"
| "then_run (Some (Inr a)) f = f a"

text \<open>Adding context to an error, \<open>fmt.Errorf("...: %w", err)\<close>.\<close>

fun in_context :: "('e \<Rightarrow> 'e) \<Rightarrow> ('e, 'a) outcome \<Rightarrow> ('e, 'a) outcome" where
  "in_context w None = None"
| "in_context w (Some (Inl e)) = Some (Inl (w e))"
| "in_context w (Some (Inr a)) = Some (Inr a)"

fun in_context_ok :: "('e \<Rightarrow> 'e) \<Rightarrow> ('e, 'a) result \<Rightarrow> ('e, 'a) result" where
  "in_context_ok w (Inl e) = Inl (w e)"
| "in_context_ok w (Inr a) = Inr a"

lemma then_ok_Inr [simp]: "then_ok r f = Inr b \<longleftrightarrow> (\<exists>a. r = Inr a \<and> f a = Inr b)"
  by (cases r) auto

lemma then_ok_Inl: "then_ok r f = Inl e \<longleftrightarrow> r = Inl e \<or> (\<exists>a. r = Inr a \<and> f a = Inl e)"
  by (cases r) auto

lemma then_run_ok [simp]:
  "then_run r f = Some (Inr b) \<longleftrightarrow> (\<exists>a. r = Some (Inr a) \<and> f a = Some (Inr b))"
  by (cases "(r, f)" rule: then_run.cases) auto

lemma then_run_err:
  "then_run r f = Some (Inl e) \<longleftrightarrow>
     r = Some (Inl e) \<or> (\<exists>a. r = Some (Inr a) \<and> f a = Some (Inl e))"
  by (cases "(r, f)" rule: then_run.cases) auto

lemma then_run_None:
  "then_run r f = None \<longleftrightarrow> r = None \<or> (\<exists>a. r = Some (Inr a) \<and> f a = None)"
  by (cases "(r, f)" rule: then_run.cases) auto

lemma in_context_ok_iff [simp]: "in_context w r = Some (Inr b) \<longleftrightarrow> r = Some (Inr b)"
  by (cases "(w, r)" rule: in_context.cases) auto

lemma in_context_None_iff [simp]: "in_context w r = None \<longleftrightarrow> r = None"
  by (cases "(w, r)" rule: in_context.cases) auto

lemma in_context_err_iff [simp]:
  "in_context w r = Some (Inl e) \<longleftrightarrow> (\<exists>e'. r = Some (Inl e') \<and> e = w e')"
  by (cases "(w, r)" rule: in_context.cases) auto

lemma in_context_ok_Inr [simp]: "in_context_ok w r = Inr b \<longleftrightarrow> r = Inr b"
  by (cases r) auto

lemma in_context_ok_Inl [simp]:
  "in_context_ok w r = Inl e \<longleftrightarrow> (\<exists>e'. r = Inl e' \<and> e = w e')"
  by (cases r) auto

section \<open>64-bit signed integers\<close>

text \<open>
  Go's \<open>int\<close>, \<open>int64\<close> and \<open>time.Duration\<close> are 64 bits wide on the platforms the
  repository builds for.  They are modelled as \<open>int\<close> with the wrap-around written out.
\<close>

definition max_int64 :: int where "max_int64 = 9223372036854775807"
definition min_int64 :: int where "min_int64 = - 9223372036854775808"

definition wrap64 :: "int \<Rightarrow> int" where
  "wrap64 x = (x + 9223372036854775808) mod 18446744073709551616 - 9223372036854775808"

lemma wrap64_word: "wrap64 x = sint (word_of_int x :: 64 word)"
  by (simp add: wrap64_def sint_sbintrunc' signed_take_bit_eq_take_bit_shift take_bit_eq_mod)

lemma wrap64_range: "min_int64 \<le> wrap64 x \<and> wrap64 x \<le> max_int64"
proof -
  have "0 \<le> (x + 9223372036854775808) mod 18446744073709551616"
    by (rule pos_mod_sign) simp
  moreover have "(x + 9223372036854775808) mod 18446744073709551616 < 18446744073709551616"
    by (rule pos_mod_bound) simp
  ultimately show ?thesis
    unfolding wrap64_def min_int64_def max_int64_def by linarith
qed

lemma wrap64_id [simp]: "min_int64 \<le> x \<Longrightarrow> x \<le> max_int64 \<Longrightarrow> wrap64 x = x"
  by (simp add: wrap64_def min_int64_def max_int64_def)

lemma wrap64_add: "wrap64 (wrap64 x + y) = wrap64 (x + y)"
proof -
  have "wrap64 x + y + 9223372036854775808
        = (x + 9223372036854775808) mod 18446744073709551616 + y"
    by (simp add: wrap64_def)
  then have "wrap64 (wrap64 x + y)
        = ((x + 9223372036854775808) mod 18446744073709551616 + y) mod 18446744073709551616
          - 9223372036854775808"
    by (simp only: wrap64_def [of "wrap64 x + y"])
  also have "\<dots> = (x + 9223372036854775808 + y) mod 18446744073709551616 - 9223372036854775808"
    by (simp add: mod_add_left_eq)
  also have "\<dots> = wrap64 (x + y)"
    by (simp add: wrap64_def algebra_simps)
  finally show ?thesis .
qed

lemma wrap64_add_right: "wrap64 (x + wrap64 y) = wrap64 (x + y)"
  using wrap64_add [of y x] by (simp add: add.commute)

section \<open>Lists\<close>

lemma takeWhile_all: "(\<forall>x \<in> set xs. P x) \<Longrightarrow> takeWhile P (xs @ ys) = xs @ takeWhile P ys"
  by (induction xs) auto

lemma dropWhile_all: "(\<forall>x \<in> set xs. P x) \<Longrightarrow> dropWhile P (xs @ ys) = dropWhile P ys"
  by (induction xs) auto

lemma takeWhile_stop: "ys = [] \<or> \<not> P (hd ys) \<Longrightarrow> takeWhile P ys = []"
  by (cases ys) auto

lemma dropWhile_stop: "ys = [] \<or> \<not> P (hd ys) \<Longrightarrow> dropWhile P ys = ys"
  by (cases ys) auto

lemma set_takeWhile: "x \<in> set (takeWhile P xs) \<Longrightarrow> P x"
  by (induction xs) (auto split: if_splits)

text \<open>A maximal run of characters is determined: what the greedy scanners rely on.\<close>

lemma span_unique:
  assumes "\<forall>x \<in> set xs. P x" and "ys = [] \<or> \<not> P (hd ys)"
  shows "takeWhile P (xs @ ys) = xs" and "dropWhile P (xs @ ys) = ys"
  using assms by (simp_all add: takeWhile_all dropWhile_all takeWhile_stop dropWhile_stop)

lemma find_SomeD: "find P xs = Some x \<Longrightarrow> x \<in> set xs \<and> P x"
  by (induction xs) (auto split: if_splits)

lemma distinct_filter_one:
  "distinct (map f xs) \<Longrightarrow> x \<in> set xs \<Longrightarrow> filter (\<lambda>y. f y = f x) xs = [x]"
  by (induction xs) (auto simp: filter_empty_conv image_iff)

end
