(* ===== verification/Go_Strings.thy ===== *)
theory Go_Strings
  imports KT_Prelude
begin

text \<open>
  What the code uses of Go's \<open>strings\<close>, \<open>strconv\<close> and \<open>fmt\<close> packages.  A Go string is its
  list of bytes, a \<open>char list\<close>; the functions that trim or split on white space treat the
  ASCII white space, so the model is exact on ASCII text.
\<close>

section \<open>Character classes\<close>

definition cval :: "char \<Rightarrow> nat" where "cval c = of_char c"

definition is_digit :: "char \<Rightarrow> bool" where "is_digit c \<longleftrightarrow> 48 \<le> cval c \<and> cval c \<le> 57"
definition is_upper :: "char \<Rightarrow> bool" where "is_upper c \<longleftrightarrow> 65 \<le> cval c \<and> cval c \<le> 90"
definition is_lower :: "char \<Rightarrow> bool" where "is_lower c \<longleftrightarrow> 97 \<le> cval c \<and> cval c \<le> 122"
definition is_alpha :: "char \<Rightarrow> bool" where "is_alpha c \<longleftrightarrow> is_upper c \<or> is_lower c"

text \<open>\<open>unicode.IsSpace\<close> on ASCII, and \<open>\s\<close> of package \<open>regexp\<close> (which lacks \<open>\v\<close>).\<close>

definition is_space :: "char \<Rightarrow> bool" where
  "is_space c \<longleftrightarrow> cval c = 32 \<or> (9 \<le> cval c \<and> cval c \<le> 13)"

definition re_space :: "char \<Rightarrow> bool" where
  "re_space c \<longleftrightarrow> cval c = 32 \<or> cval c = 9 \<or> cval c = 10 \<or> cval c = 12 \<or> cval c = 13"

lemma re_space_is_space: "re_space c \<Longrightarrow> is_space c"
  by (auto simp: re_space_def is_space_def)

definition to_lower_char :: "char \<Rightarrow> char" where
  "to_lower_char c = (if is_upper c then char_of (cval c + 32) else c)"

definition to_lower :: "string \<Rightarrow> string" where
  "to_lower s = map to_lower_char s"

section \<open>Splitting and trimming\<close>

text \<open>\<open>strings.Split\<close> on a one-byte separator.\<close>

fun split_on :: "char \<Rightarrow> string \<Rightarrow> string list" where
  "split_on sep [] = [[]]"
| "split_on sep (c # cs) =
     (if c = sep then [] # split_on sep cs
      else (case split_on sep cs of [] \<Rightarrow> [[c]] | p # ps \<Rightarrow> (c # p) # ps))"

text \<open>\<open>strings.Join\<close>.\<close>

fun join_with :: "char \<Rightarrow> string list \<Rightarrow> string" where
  "join_with sep [] = []"
| "join_with sep [p] = p"
| "join_with sep (p # q # ps) = p @ sep # join_with sep (q # ps)"

text \<open>\<open>strings.Cut\<close>: the text before the first separator and the text after it.\<close>

fun cut_at :: "char \<Rightarrow> string \<Rightarrow> string \<times> string" where
  "cut_at sep [] = ([], [])"
| "cut_at sep (c # cs) =
     (if c = sep then ([], cs) else (let (b, a) = cut_at sep cs in (c # b, a)))"

definition trim_space :: "string \<Rightarrow> string" where
  "trim_space s = rev (dropWhile is_space (rev (dropWhile is_space s)))"

definition has_prefix :: "string \<Rightarrow> string \<Rightarrow> bool" where
  "has_prefix s p \<longleftrightarrow> take (length p) s = p"

text \<open>\<open>strings.Contains\<close>.\<close>

fun contains_sub :: "string \<Rightarrow> string \<Rightarrow> bool" where
  "contains_sub [] p = (p = [])"
| "contains_sub (c # cs) p = (has_prefix (c # cs) p \<or> contains_sub cs p)"

text \<open>\<open>strings.Fields\<close>: the maximal runs of non-space characters.\<close>

function str_fields :: "string \<Rightarrow> string list" where
  "str_fields s = (let r = dropWhile is_space s in
     if r = [] then []
     else takeWhile (\<lambda>c. \<not> is_space c) r # str_fields (dropWhile (\<lambda>c. \<not> is_space c) r))"
  by pat_completeness auto
termination
proof (relation "measure length", goal_cases)
  case 1 show ?case by simp
next
  case (2 s r)
  then obtain c cs where r: "r = c # cs" by (metis list.exhaust)
  have "\<not> is_space c" using hd_dropWhile [of is_space s] 2 r by (metis list.sel(1))
  then have "length (dropWhile (\<lambda>c. \<not> is_space c) r) \<le> length cs"
    by (simp add: r length_dropWhile_le)
  also have "\<dots> < length r" by (simp add: r)
  also have "\<dots> \<le> length s" using 2 by (simp add: length_dropWhile_le)
  finally show ?case by simp
qed

declare str_fields.simps [simp del]

lemma split_on_nonempty [simp]: "split_on sep s \<noteq> []"
  by (cases "(sep, s)" rule: split_on.cases) (auto split: list.splits)

lemma split_on_no_sep: "p \<in> set (split_on sep s) \<Longrightarrow> sep \<notin> set p"
proof (induction sep s arbitrary: p rule: split_on.induct)
  case (2 sep c cs)
  then show ?case
    by (cases "split_on sep cs") (auto split: if_splits)
qed simp

lemma join_cons: "ps \<noteq> [] \<Longrightarrow> join_with sep (p # ps) = p @ sep # join_with sep ps"
  by (cases ps) auto

lemma join_split: "join_with sep (split_on sep s) = s"
proof (induction sep s rule: split_on.induct)
  case (2 sep c cs)
  show ?case
  proof (cases "c = sep")
    case True
    then show ?thesis using 2 by (simp add: join_cons)
  next
    case False
    obtain p ps where ps: "split_on sep cs = p # ps" by (cases "split_on sep cs") auto
    with 2 False have "join_with sep (p # ps) = cs" by simp
    with ps False show ?thesis by (cases ps) auto
  qed
qed simp

lemma split_one: "sep \<notin> set p \<Longrightarrow> split_on sep p = [p]"
  by (induction p) auto

lemma split_app: "sep \<notin> set p \<Longrightarrow> split_on sep (p @ sep # s) = p # split_on sep s"
  by (induction p) auto

lemma split_join:
  "ps \<noteq> [] \<Longrightarrow> \<forall>p \<in> set ps. sep \<notin> set p \<Longrightarrow> split_on sep (join_with sep ps) = ps"
proof (induction sep ps rule: join_with.induct)
  case (3 sep p q ps)
  then show ?case by (simp add: split_app)
qed (simp_all add: split_one)

lemma fields_words:
  "p \<in> set (str_fields s) \<Longrightarrow> p \<noteq> [] \<and> (\<forall>c \<in> set p. \<not> is_space c)"
proof (induction s rule: str_fields.induct)
  case (1 s)
  show ?case
  proof (cases "dropWhile is_space s = []")
    case True
    with 1 show ?thesis by (simp add: str_fields.simps [of s])
  next
    case False
    let ?r = "dropWhile is_space s"
    let ?w = "takeWhile (\<lambda>c. \<not> is_space c) ?r"
    from False have "\<not> is_space (hd ?r)" by (rule hd_dropWhile)
    then have ne: "?w \<noteq> []" using False by (cases ?r) auto
    from "1.prems" False consider "p = ?w"
      | "p \<in> set (str_fields (dropWhile (\<lambda>c. \<not> is_space c) ?r))"
      by (auto simp: str_fields.simps [of s] Let_def simp del: dropWhile_eq_Nil_conv)
    then show ?thesis
    proof cases
      case 1
      with ne show ?thesis by (auto dest: set_takeWhileD)
    next
      case 2
      with False show ?thesis using "1.IH" by blast
    qed
  qed
qed

section \<open>Decimal numbers\<close>

fun dec_acc :: "int \<Rightarrow> string \<Rightarrow> int" where
  "dec_acc a [] = a"
| "dec_acc a (c # cs) = dec_acc (10 * a + int (cval c - 48)) cs"

definition all_digits :: "string \<Rightarrow> bool" where
  "all_digits s \<longleftrightarrow> s \<noteq> [] \<and> list_all is_digit s"

text \<open>
  \<open>strconv.Atoi\<close> (and \<open>strconv.ParseInt(s, 10, 64)\<close>): an optional sign and digits, a
  syntax error or a range error otherwise.
\<close>

definition atoi :: "string \<Rightarrow> int option" where
  "atoi s = (case s of
       [] \<Rightarrow> None
     | c # cs \<Rightarrow>
         (let neg = (c = CHR ''-''); body = (if c = CHR ''-'' \<or> c = CHR ''+'' then cs else s) in
          if \<not> all_digits body then None
          else (let n = dec_acc 0 body; v = (if neg then - n else n) in
                if min_int64 \<le> v \<and> v \<le> max_int64 then Some v else None)))"

lemma atoi_range: "atoi s = Some n \<Longrightarrow> min_int64 \<le> n \<and> n \<le> max_int64"
  by (auto simp: atoi_def Let_def split: list.splits if_splits)

lemma dec_acc_nonneg: "0 \<le> a \<Longrightarrow> 0 \<le> dec_acc a s"
  by (induction a s rule: dec_acc.induct) auto

lemma dec_acc_mono: "0 \<le> a \<Longrightarrow> a \<le> dec_acc a s"
proof (induction a s rule: dec_acc.induct)
  case (2 a c cs)
  then have "10 * a + int (cval c - 48) \<le> dec_acc (10 * a + int (cval c - 48)) cs" by simp
  with 2 show ?case by simp
qed simp

lemma digit_not_sign: "is_digit c \<Longrightarrow> c \<noteq> CHR ''-'' \<and> c \<noteq> CHR ''+''"
  by (auto simp: is_digit_def cval_def)

lemma atoi_digits:
  "all_digits s \<Longrightarrow>
     atoi s = (if dec_acc 0 s \<le> max_int64 then Some (dec_acc 0 s) else None)"
  using dec_acc_nonneg [of 0 s]
  by (cases s) (auto simp: atoi_def all_digits_def min_int64_def dest: digit_not_sign)

text \<open>\<open>strconv.Itoa\<close> and the \<open>%d\<close> verb.\<close>

fun digits_of :: "nat \<Rightarrow> string" where
  "digits_of n = (if n < 10 then [char_of (48 + n)]
                  else digits_of (n div 10) @ [char_of (48 + n mod 10)])"

declare digits_of.simps [simp del]

definition itoa :: "int \<Rightarrow> string" where
  "itoa n = (if n < 0 then CHR ''-'' # digits_of (nat (- n)) else digits_of (nat n))"

lemma cval_digit: "d < 10 \<Longrightarrow> cval (char_of (48 + d)) = 48 + d"
  by (simp add: cval_def)

lemma digits_of_all: "all_digits (digits_of n)"
proof (induction n rule: digits_of.induct)
  case (1 n)
  show ?case
  proof (cases "n < 10")
    case True
    then show ?thesis
      by (subst digits_of.simps) (simp add: all_digits_def is_digit_def cval_digit)
  next
    case False
    with 1 have "all_digits (digits_of (n div 10))" by simp
    with False show ?thesis
      by (subst digits_of.simps) (simp add: all_digits_def is_digit_def cval_digit)
  qed
qed

lemma dec_acc_snoc: "dec_acc a (s @ [c]) = 10 * dec_acc a s + int (cval c - 48)"
  by (induction a s rule: dec_acc.induct) auto

lemma dec_digits_of: "dec_acc 0 (digits_of n) = int n"
proof (induction n rule: digits_of.induct)
  case (1 n)
  show ?case
  proof (cases "n < 10")
    case True
    then show ?thesis by (subst digits_of.simps) (simp add: cval_digit)
  next
    case False
    with 1 have "dec_acc 0 (digits_of (n div 10)) = int (n div 10)" by simp
    with False show ?thesis
      by (subst digits_of.simps) (simp add: dec_acc_snoc cval_digit zdiv_int zmod_int)
  qed
qed

lemma digits_of_Cons: "\<exists>c cs. digits_of n = c # cs \<and> is_digit c"
  using digits_of_all [of n] by (cases "digits_of n") (auto simp: all_digits_def)

lemma atoi_itoa: "min_int64 \<le> n \<Longrightarrow> n \<le> max_int64 \<Longrightarrow> atoi (itoa n) = Some n"
proof (cases "n < 0")
  case True
  assume "min_int64 \<le> n" "n \<le> max_int64"
  with True show ?thesis
    by (simp add: itoa_def atoi_def digits_of_all dec_digits_of Let_def)
next
  case False
  assume "min_int64 \<le> n" "n \<le> max_int64"
  with False show ?thesis
    by (simp add: itoa_def atoi_digits digits_of_all dec_digits_of)
qed

text \<open>The \<open>%02d\<close> verb on a non-negative number.\<close>

definition pad2 :: "int \<Rightarrow> string" where
  "pad2 n = (if 0 \<le> n \<and> n < 10 then CHR ''0'' # itoa n else itoa n)"

end
