(* ===== verification/Cron_Types.thy ===== *)
theory Cron_Types
  imports Go_Strings
begin

text \<open>
  The data of package cron (pkg/cron/types.go): cron items as configured, parsed items, the
  timestamp digest a matcher looks at, the job a schedule creates, and the parse errors of
  pkg/cron/parser.go as a datatype with one constructor per \<open>fmt.Errorf\<close>.
  A JSON payload is its marshalled text; a nil map is \<open>None\<close>.
\<close>

section \<open>Digests and matchers\<close>

record timestamp_digest =
  td_minute :: int
  td_hour :: int
  td_date :: int
  td_month :: int
  td_dow :: int

type_synonym cron_matcher = "timestamp_digest \<Rightarrow> bool"

text \<open>\<open>String\<close>: \<open>"%02d:%02d:%02d:%02d:%02d"\<close>.\<close>

definition digest_string :: "timestamp_digest \<Rightarrow> string" where
  "digest_string td =
     pad2 (td_minute td) @ '':'' @ pad2 (td_hour td) @ '':'' @ pad2 (td_date td) @ '':''
       @ pad2 (td_month td) @ '':'' @ pad2 (td_dow td)"

section \<open>Items\<close>

record cron_item_options =
  backfill_period :: int
  cio_max_attempts :: "int option"
  cio_queue_name :: string
  cio_priority :: "int option"
  cio_job_key :: string
  backfill :: bool

definition no_options :: cron_item_options where
  "no_options = \<lparr>backfill_period = 0, cio_max_attempts = None, cio_queue_name = [],
     cio_priority = None, cio_job_key = [], backfill = False\<rparr>"

text \<open>The dynamic type of \<open>CronItem.Match\<close>: nil, a string, a matcher function, or anything else.\<close>

datatype match_value = MatchNil | MatchString string | MatchFunc cron_matcher | MatchOther

record cron_item =
  ci_task :: string
  ci_match :: match_value
  ci_pattern :: string
  ci_identifier :: string
  ci_options :: cron_item_options
  ci_payload :: "string option"

record cron_job =
  cj_task :: string
  cj_payload :: "string option"
  cj_queue_name :: "string option"
  cj_run_at :: "int option"
  cj_max_attempts :: "int option"
  cj_priority :: "int option"
  cj_job_key :: "string option"
  cj_job_key_mode :: "string option"
  cj_flags :: "string list option"

record parsed_cron_item =
  pci_match :: "cron_matcher option"
  pci_minutes :: "int list"
  pci_hours :: "int list"
  pci_dates :: "int list"
  pci_months :: "int list"
  pci_dows :: "int list"
  pci_task :: string
  pci_identifier :: string
  pci_options :: cron_item_options
  pci_payload :: "string option"
  pci_job :: cron_job

text \<open>
  \<open>IsParsed\<close> compares two values of the empty struct type \<open>isParsedSymbol\<close>.  Go's empty
  struct has one value, so the field is modelled as \<open>unit\<close> and is not a field of the record.
\<close>

definition is_parsed_symbol :: "parsed_cron_item \<Rightarrow> unit" where
  "is_parsed_symbol item = ()"

definition is_parsed :: "parsed_cron_item \<Rightarrow> bool" where
  "is_parsed item \<longleftrightarrow> is_parsed_symbol item = ()"

text \<open>\<open>ToGraphileWorkerFormat\<close>: the job with its run time as RFC 3339 text ("" when nil).\<close>

record graphile_cron_job =
  gj_task :: string
  gj_payload :: "string option"
  gj_queue_name :: "string option"
  gj_run_at :: string
  gj_max_attempts :: "int option"
  gj_priority :: "int option"

definition to_graphile_format :: "(int \<Rightarrow> string) \<Rightarrow> cron_job \<Rightarrow> graphile_cron_job" where
  "to_graphile_format rfc3339 cj =
     \<lparr>gj_task = cj_task cj, gj_payload = cj_payload cj, gj_queue_name = cj_queue_name cj,
      gj_run_at = (case cj_run_at cj of None \<Rightarrow> [] | Some t \<Rightarrow> rfc3339 t),
      gj_max_attempts = cj_max_attempts cj, gj_priority = cj_priority cj\<rparr>"

section \<open>Errors of the parser\<close>

datatype parse_error =
    InvalidPatternFormat string
  | WrongFieldCount string
  | InvalidNumber string string
  | ValueOutOfRange string int int int
  | InvalidRangeStart string string
  | InvalidRangeEnd string string
  | RangeNotIncreasing string
  | InvalidWildcardStep string string
  | UnsupportedSyntax string string
  | InvalidLineFormat
  | InvalidOptionsFormat int
  | OptionRepeated string int
  | InvalidIdFormat int string
  | InvalidFillDuration int parse_error
  | InvalidMaxAttempts int string
  | InvalidQueueName int string
  | InvalidPriority int string
  | UnsupportedOption string int
  | InvalidJsonPayload int
  | InvalidOptionsJson
  | InvalidTimePhrase string
  | InvalidQuantity string
  | UnsupportedTimePeriod string
  | DuplicateIdentifiers "string list"
  | NoMatchOrPattern
  | BadMatchType
  | AtLine int parse_error
  | AtItem int parse_error
  | PatternMatcherFailed parse_error

end
