(* ===== verification/Cron_Range.thy ===== *)
theory Cron_Range
  imports Cron_Types
begin

text \<open>
  The time fields of a crontab (\<open>parseCrontabRange\<close>, pkg/cron/parser.go lines 379 to 468):
  comma-separated numbers, ranges and wildcards.  The two counting loops run over 64-bit
  integers, so they are \<open>partial_function\<close>s: \<open>None\<close> is a loop that does not end.
\<close>

section \<open>The loops\<close>

partial_function (option) range_loop ::
  "int \<Rightarrow> int \<Rightarrow> bool \<Rightarrow> int \<Rightarrow> int \<Rightarrow> int list \<Rightarrow> int list option" where
  "range_loop mn mx wrp i fin acc =
     (if i \<le> fin then
        range_loop mn mx wrp (wrap64 (i + 1)) fin
          (let num = (if wrp \<and> i = mx + 1 then mn else i) in
           if num < mn \<or> num > mx then acc else acc @ [num])
      else Some acc)"

partial_function (option) step_loop :: "int \<Rightarrow> int \<Rightarrow> int \<Rightarrow> int list \<Rightarrow> int list option" where
  "step_loop mx i step acc =
     (if i \<le> mx then step_loop mx (wrap64 (i + step)) step (acc @ [i]) else Some acc)"

declare range_loop.simps [code] step_loop.simps [code]

section \<open>One part of a field\<close>

text \<open>
  \<open>numberRegex\<close>, \<open>rangeRegex\<close> and \<open>wildcardRegex\<close> (lines 22 to 25) as functions giving the
  submatches.
\<close>

definition match_range :: "string \<Rightarrow> (string \<times> string) option" where
  "match_range part =
     (let a = takeWhile is_digit part; rest = dropWhile is_digit part in
      case rest of
        [] \<Rightarrow> None
      | c # b \<Rightarrow> if a \<noteq> [] \<and> c = CHR ''-'' \<and> all_digits b then Some (a, b) else None)"

definition match_wildcard :: "string \<Rightarrow> string option" where
  "match_wildcard part =
     (case part of
        [] \<Rightarrow> None
      | c # rest \<Rightarrow>
          if c \<noteq> CHR ''*'' then None
          else (case rest of
                  [] \<Rightarrow> Some []
                | d # ds \<Rightarrow> if d = CHR ''/'' \<and> all_digits ds then Some ds else None))"

definition parse_part ::
  "string \<Rightarrow> int \<Rightarrow> int \<Rightarrow> bool \<Rightarrow> string \<Rightarrow> int list \<Rightarrow> (parse_error, int list) outcome" where
  "parse_part field mn mx wrp part numbers =
     (if all_digits part then
        (case atoi part of
           None \<Rightarrow> Some (Inl (InvalidNumber field part))
         | Some n \<Rightarrow>
             (let num = (if wrp \<and> n = mx + 1 then mn else n) in
              if num < mn \<or> num > mx then Some (Inl (ValueOutOfRange field num mn mx))
              else Some (Inr (numbers @ [num]))))
      else case match_range part of
        Some (s, e) \<Rightarrow>
          (case atoi s of
             None \<Rightarrow> Some (Inl (InvalidRangeStart field part))
           | Some start \<Rightarrow>
               (case atoi e of
                  None \<Rightarrow> Some (Inl (InvalidRangeEnd field part))
                | Some fin \<Rightarrow>
                    if fin \<le> start then Some (Inl (RangeNotIncreasing field))
                    else map_option Inr (range_loop mn mx wrp start fin numbers)))
      | None \<Rightarrow>
          (case match_wildcard part of
             Some s \<Rightarrow>
               (if s = [] then map_option Inr (step_loop mx mn 1 numbers)
                else case atoi s of
                       None \<Rightarrow> Some (Inl (InvalidWildcardStep field part))
                     | Some step \<Rightarrow>
                         if step < 1 then Some (Inl (InvalidWildcardStep field part))
                         else map_option Inr (step_loop mx mn step numbers))
           | None \<Rightarrow> Some (Inl (UnsupportedSyntax field part))))"

fun parse_parts ::
  "string \<Rightarrow> int \<Rightarrow> int \<Rightarrow> bool \<Rightarrow> string list \<Rightarrow> int list \<Rightarrow> (parse_error, int list) outcome" where
  "parse_parts field mn mx wrp [] numbers = Some (Inr numbers)"
| "parse_parts field mn mx wrp (p # ps) numbers =
     then_run (parse_part field mn mx wrp (trim_space p) numbers)
       (parse_parts field mn mx wrp ps)"

text \<open>The loop that keeps a number only when it differs from the one before it.\<close>

fun drop_repeats :: "int option \<Rightarrow> int list \<Rightarrow> int list" where
  "drop_repeats prev [] = []"
| "drop_repeats prev (n # ns) =
     (if prev = Some n then drop_repeats (Some n) ns else n # drop_repeats (Some n) ns)"

definition parse_crontab_range ::
  "string \<Rightarrow> string \<Rightarrow> int \<Rightarrow> int \<Rightarrow> bool \<Rightarrow> (parse_error, int list) outcome" where
  "parse_crontab_range field range_str mn mx wrp =
     then_run (parse_parts field mn mx wrp (split_on (CHR '','') range_str) [])
       (\<lambda>numbers. Some (Inr (drop_repeats None (sort numbers))))"

section \<open>What the loops compute\<close>

text \<open>The numbers a range contributes: those in bounds, 7 read as 0 where the field wraps.\<close>

definition range_value :: "int \<Rightarrow> int \<Rightarrow> bool \<Rightarrow> int \<Rightarrow> int list" where
  "range_value mn mx wrp i =
     (let num = (if wrp \<and> i = mx + 1 then mn else i) in
      if num < mn \<or> num > mx then [] else [num])"

lemma range_loop_step:
  "i \<le> e \<Longrightarrow> range_loop mn mx wrp i e acc =
     range_loop mn mx wrp (wrap64 (i + 1)) e (acc @ range_value mn mx wrp i)"
  by (subst range_loop.simps) (simp add: range_value_def Let_def)

lemma range_loop_done: "\<not> i \<le> e \<Longrightarrow> range_loop mn mx wrp i e acc = Some acc"
  by (subst range_loop.simps) simp

lemma range_loop_returns:
  assumes "min_int64 \<le> i" "e < max_int64"
  shows "range_loop mn mx wrp i e acc =
           Some (acc @ concat (map (range_value mn mx wrp) [i..e]))"
  using assms
proof (induction "nat (e - i + 1)" arbitrary: i acc)
  case 0
  then show ?case by (simp add: range_loop_done)
next
  case (Suc n)
  then have le: "i \<le> e" by simp
  have "n = nat (e - (i + 1) + 1)" using Suc.hyps(2) by simp
  moreover have "min_int64 \<le> i + 1" "i + 1 \<le> max_int64" using Suc.prems le by simp_all
  ultimately show ?case
    using Suc.hyps(1) [of "i + 1" "acc @ range_value mn mx wrp i"] Suc.prems le
    by (simp add: range_loop_step upto_rec1 [OF le])
qed

text \<open>With the largest 64-bit number as its end a range loop never ends.\<close>

lemma range_loop_diverges: "i \<le> max_int64 \<Longrightarrow> range_loop mn mx wrp i max_int64 acc = None"
proof (rule ccontr)
  assume i: "i \<le> max_int64" and "range_loop mn mx wrp i max_int64 acc \<noteq> None"
  then obtain r where ret: "range_loop mn mx wrp i max_int64 acc = Some r" by auto
  have "e = max_int64 \<longrightarrow> \<not> i \<le> e"
    if "range_loop mn mx wrp i e acc = Some r" for mn mx wrp i e acc r
  proof (rule range_loop.raw_induct
      [where P = "\<lambda>mn mx wrp i e acc r. e = max_int64 \<longrightarrow> \<not> i \<le> e", OF _ that])
    fix f mn mx wrp i e acc r
    assume IH: "\<And>mn mx wrp i e acc r. f mn mx wrp i e acc = Some r \<Longrightarrow> e = max_int64 \<longrightarrow> \<not> i \<le> e"
      and eq: "(if i \<le> e then
        f mn mx wrp (wrap64 (i + 1)) e
          (let num = (if wrp \<and> i = mx + 1 then mn else i) in
           if num < mn \<or> num > mx then acc else acc @ [num])
      else Some acc) = Some r"
    show "e = max_int64 \<longrightarrow> \<not> i \<le> e"
    proof (intro impI notI)
      assume "e = max_int64" "i \<le> e"
      with eq have "\<not> wrap64 (i + 1) \<le> e" by (auto dest: IH)
      with \<open>e = max_int64\<close> wrap64_range [of "i + 1"] show False by simp
    qed
  qed
  with ret i show False by blast
qed

lemma step_loop_step:
  "i \<le> mx \<Longrightarrow> step_loop mx i step acc = step_loop mx (wrap64 (i + step)) step (acc @ [i])"
  by (subst step_loop.simps) simp

lemma step_loop_done: "\<not> i \<le> mx \<Longrightarrow> step_loop mx i step acc = Some acc"
  by (subst step_loop.simps) simp

text \<open>The multiples a wildcard denotes, counted from the lower bound.\<close>

definition stepped :: "int \<Rightarrow> int \<Rightarrow> int \<Rightarrow> int list" where
  "stepped mn mx step = filter (\<lambda>k. (k - mn) mod step = 0) [mn..mx]"

lemma stepped_from:
  assumes "1 \<le> step" "i \<le> mx"
  shows "filter (\<lambda>k. (k - i) mod step = 0) [i..mx]
           = i # filter (\<lambda>k. (k - (i + step)) mod step = 0) [i + step..mx]"
proof -
  have split: "[i..mx] = i # [i + 1..mx]" by (rule upto_rec1 [OF assms(2)])
  have none: "filter (\<lambda>k. (k - i) mod step = 0) [i + 1..min mx (i + step - 1)] = []"
  proof -
    have "(k - i) mod step \<noteq> 0" if "i + 1 \<le> k" "k \<le> i + step - 1" for k
    proof -
      have "(k - i) mod step = k - i" using that by (simp add: mod_pos_pos_trivial)
      then show ?thesis using that by simp
    qed
    then show ?thesis by (auto simp: filter_empty_conv)
  qed
  have cut: "[i + 1..mx] = [i + 1..min mx (i + step - 1)] @ [i + step..mx]"
  proof (cases "i + step \<le> mx")
    case True
    then show ?thesis
      using assms upto_split1 [of "i + 1" "i + step" mx] by (simp add: min_def)
  next
    case False
    then show ?thesis by (simp add: min_def)
  qed
  have same: "(k - i) mod step = (k - (i + step)) mod step" for k
    by (metis (no_types, opaque_lifting) diff_diff_eq minus_mod_self2)
  show ?thesis
    unfolding split using none by (simp add: cut same)
qed

lemma step_loop_returns:
  assumes "1 \<le> step" "0 \<le> i" "i + step \<le> max_int64" "2 * mx \<le> max_int64"
  shows "step_loop mx i step acc =
           Some (acc @ filter (\<lambda>k. (k - i) mod step = 0) [i..mx])"
  using assms
proof (induction "nat (mx + step - i)" arbitrary: i acc rule: less_induct)
  case less
  show ?case
  proof (cases "i \<le> mx")
    case False
    then show ?thesis by (simp add: step_loop_done)
  next
    case True
    have wr: "wrap64 (i + step) = i + step"
      using less.prems by (intro wrap64_id) (auto simp: min_int64_def)
    have "step_loop mx (i + step) step (acc @ [i]) =
        Some ((acc @ [i]) @ filter (\<lambda>k. (k - (i + step)) mod step = 0) [i + step..mx])"
    proof (cases "i + step \<le> mx")
      case True
      then show ?thesis using less.prems by (intro less.hyps) auto
    qed (simp add: step_loop_done)
    then show ?thesis
      using less.prems True wr by (simp add: step_loop_step stepped_from)
  qed
qed

section \<open>What a field means\<close>

text \<open>
  The abstract reading of a part: when it is accepted, and the set of values it stands for.
  A range keeps only the values in bounds; 7 is read as 0 where the field wraps.
\<close>

definition wrapped :: "int \<Rightarrow> int \<Rightarrow> bool \<Rightarrow> int \<Rightarrow> int" where
  "wrapped mn mx wrp n = (if wrp \<and> n = mx + 1 then mn else n)"

datatype part_shape = ANumber int | ARange int int | AStep int | Rejected

definition part_shape_of :: "string \<Rightarrow> part_shape" where
  "part_shape_of part =
     (if all_digits part then (case atoi part of Some n \<Rightarrow> ANumber n | None \<Rightarrow> Rejected)
      else case match_range part of
        Some (s, e) \<Rightarrow>
          (case (atoi s, atoi e) of (Some a, Some b) \<Rightarrow> ARange a b | _ \<Rightarrow> Rejected)
      | None \<Rightarrow>
          (case match_wildcard part of
             Some s \<Rightarrow> (if s = [] then AStep 1
                         else case atoi s of Some k \<Rightarrow> AStep k | None \<Rightarrow> Rejected)
           | None \<Rightarrow> Rejected))"

fun shape_ok :: "int \<Rightarrow> int \<Rightarrow> bool \<Rightarrow> part_shape \<Rightarrow> bool" where
  "shape_ok mn mx wrp (ANumber n) \<longleftrightarrow> mn \<le> wrapped mn mx wrp n \<and> wrapped mn mx wrp n \<le> mx"
| "shape_ok mn mx wrp (ARange a b) \<longleftrightarrow> a < b \<and> b < max_int64"
| "shape_ok mn mx wrp (AStep k) \<longleftrightarrow> 1 \<le> k"
| "shape_ok mn mx wrp Rejected \<longleftrightarrow> False"

fun shape_values :: "int \<Rightarrow> int \<Rightarrow> bool \<Rightarrow> part_shape \<Rightarrow> int set" where
  "shape_values mn mx wrp (ANumber n) = {wrapped mn mx wrp n}"
| "shape_values mn mx wrp (ARange a b) = wrapped mn mx wrp ` {a..b} \<inter> {mn..mx}"
| "shape_values mn mx wrp (AStep k) = {v \<in> {mn..mx}. (v - mn) mod k = 0}"
| "shape_values mn mx wrp Rejected = {}"

text \<open>A step that, added to the lower bound, stays a 64-bit number.\<close>

fun step_fits :: "int \<Rightarrow> part_shape \<Rightarrow> bool" where
  "step_fits mn (AStep k) \<longleftrightarrow> mn + k \<le> max_int64"
| "step_fits mn _ \<longleftrightarrow> True"

lemma set_range_values:
  "set (concat (map (range_value mn mx wrp) [a..b])) = wrapped mn mx wrp ` {a..b} \<inter> {mn..mx}"
  by (auto simp: range_value_def wrapped_def Let_def split: if_splits)

lemma all_digits_dropWhile: "all_digits p \<Longrightarrow> dropWhile is_digit p = []"
  by (auto simp: all_digits_def list_all_iff)

lemma all_digits_not_range: "all_digits p \<Longrightarrow> match_range p = None"
  by (simp add: match_range_def all_digits_dropWhile)

section \<open>The parser against its meaning\<close>

fun shape_list :: "int \<Rightarrow> int \<Rightarrow> bool \<Rightarrow> part_shape \<Rightarrow> int list" where
  "shape_list mn mx wrp (ANumber n) = [wrapped mn mx wrp n]"
| "shape_list mn mx wrp (ARange a b) = concat (map (range_value mn mx wrp) [a..b])"
| "shape_list mn mx wrp (AStep k) = stepped mn mx k"
| "shape_list mn mx wrp Rejected = []"

lemma set_shape_list: "set (shape_list mn mx wrp sh) = shape_values mn mx wrp sh"
  by (cases sh) (simp_all add: set_range_values [simplified] stepped_def)

text \<open>Bounds under which the loops of a field cannot overflow, up to the step.\<close>

definition field_bounds :: "int \<Rightarrow> int \<Rightarrow> bool" where
  "field_bounds mn mx \<longleftrightarrow> 0 \<le> mn \<and> mn \<le> mx \<and> 2 * mx \<le> max_int64"

lemma range_loop_iff:
  assumes "min_int64 \<le> a" "a < b" "b \<le> max_int64"
  shows "range_loop mn mx wrp a b acc = Some ns \<longleftrightarrow>
           b < max_int64 \<and> ns = acc @ concat (map (range_value mn mx wrp) [a..b])"
proof (cases "b = max_int64")
  case True
  then show ?thesis using assms by (simp add: range_loop_diverges)
next
  case False
  then show ?thesis using assms by (auto simp: range_loop_returns)
qed

lemma step_loop_field:
  assumes "field_bounds mn mx" "1 \<le> k" "mn + k \<le> max_int64"
  shows "step_loop mx mn k acc = Some (acc @ stepped mn mx k)"
  using assms by (simp add: field_bounds_def stepped_def step_loop_returns)

text \<open>
  A wildcard's loop ends even when its step overflows: the numbers it passes are those congruent to
  the first one modulo the greatest common divisor of the step and 2^64, which is at most 2^62, and
  so some of them lie above the bound.
\<close>

lemma wrap64_period: "wrap64 (a + 2 ^ 64 * b) = wrap64 a"
proof -
  have "(a + 18446744073709551616 * b + 9223372036854775808) mod 18446744073709551616
      = (a + 9223372036854775808) mod 18446744073709551616"
    using mod_mult_self2 [of "a + 9223372036854775808" 18446744073709551616 b] by (simp add: ac_simps)
  then show ?thesis by (simp add: wrap64_def)
qed

lemma step_loop_within:
  "wrap64 i = i \<Longrightarrow> mx < wrap64 (i + int n * step) \<Longrightarrow> step_loop mx i step acc \<noteq> None"
proof (induction n arbitrary: i acc)
  case 0
  then show ?case by (simp add: step_loop_done)
next
  case (Suc n)
  have "wrap64 (wrap64 (i + step) + int n * step) = wrap64 (i + int (Suc n) * step)"
    unfolding wrap64_add by (simp add: algebra_simps)
  then have "step_loop mx (wrap64 (i + step)) step (acc @ [i]) \<noteq> None"
    using Suc.prems(2) wrap64_add [of "i + step" 0] by (intro Suc.IH) simp_all
  then show ?case by (cases "i \<le> mx") (simp_all add: step_loop_step step_loop_done)
qed

lemma gcd_of_step:
  assumes "1 \<le> step" "step \<le> max_int64"
  shows "1 \<le> gcd step (2 ^ 64)" "gcd step (2 ^ 64) \<le> 2 ^ 62"
proof -
  let ?g = "gcd step (2 ^ 64) :: int"
  show pos: "1 \<le> ?g" using assms(1) gcd_pos_int [of step "2 ^ 64"] by linarith
  obtain q where q: "2 ^ 64 = ?g * q" by (metis dvd_def gcd_dvd2)
  have "?g \<le> step" using assms(1) by (intro zdvd_imp_le) simp_all
  then have "?g \<le> max_int64" using assms(2) by linarith
  then have "0 < q" using q pos zero_less_mult_pos [of ?g q] by simp
  have "q \<noteq> 1" "q \<noteq> 2" using q \<open>?g \<le> max_int64\<close> by (auto simp: max_int64_def)
  moreover have "q \<noteq> 3"
  proof
    assume "q = 3"
    then have "?g * 3 = 18446744073709551616" using q by simp
    moreover have "n * 3 \<noteq> 18446744073709551616" for n :: int by presburger
    ultimately show False by blast
  qed
  ultimately have "4 \<le> q" using \<open>0 < q\<close> by linarith
  then have "?g * 4 \<le> ?g * q" using pos by (intro mult_left_mono) auto
  also have "\<dots> = 2 ^ 64" using q by metis
  finally show "?g \<le> 2 ^ 62" by simp
qed

lemma step_passes:
  assumes "1 \<le> step" "step \<le> max_int64" "0 \<le> mx" "2 * mx \<le> max_int64"
  shows "\<exists>n. mx < wrap64 (i + int n * step)"
proof -
  let ?g = "gcd step (2 ^ 64) :: int"
  note g = gcd_of_step [OF assms(1,2)]
  define m where "m = (i - mx - 1) mod ?g"
  define x where "x = mx + 1 + m"
  have "0 \<le> m" "m < ?g" unfolding m_def using g(1) by (auto intro: pos_mod_sign pos_mod_bound)
  then have "0 \<le> m" "m < 2 ^ 62" using g(2) by linarith+
  then have "mx < x" "x \<le> mx + 2 ^ 62" by (simp_all add: x_def)
  moreover from this have "wrap64 x = x"
    using assms(3,4) by (intro wrap64_id) (simp_all add: max_int64_def min_int64_def)
  ultimately have x: "mx < x" "wrap64 x = x" by simp_all
  have "i - x = (i - mx - 1) - (i - mx - 1) mod ?g" by (simp add: x_def m_def)
  then have "?g dvd i - x" by (metis dvd_minus_mod)
  then have "?g dvd x - i" by (simp add: dvd_diff_commute)
  then obtain r where r: "x - i = ?g * r" by (metis dvd_def)
  obtain u v where uv: "u * step + v * 2 ^ 64 = ?g" using bezout_int [of step "2 ^ 64"] by blast
  define n where "n = nat (u * r mod 2 ^ 64)"
  have n: "int n = u * r - 2 ^ 64 * (u * r div 2 ^ 64)"
    by (simp add: n_def minus_mult_div_eq_mod)
  have "x = i + (u * step + v * 2 ^ 64) * r" using r uv by simp
  also have "\<dots> = i + int n * step + 2 ^ 64 * (step * (u * r div 2 ^ 64) + v * r)"
    unfolding n by (simp add: algebra_simps)
  finally have "wrap64 (i + int n * step) = x" using x(2) wrap64_period by metis
  then show ?thesis using x(1) by blast
qed

lemma step_loop_ends:
  assumes "field_bounds mn mx" "1 \<le> step" "step \<le> max_int64"
  shows "step_loop mx mn step acc \<noteq> None"
proof -
  have "wrap64 mn = mn"
    using assms(1) by (intro wrap64_id) (auto simp: field_bounds_def min_int64_def)
  moreover obtain n where "mx < wrap64 (mn + int n * step)"
    using step_passes [of step mx mn] assms by (auto simp: field_bounds_def)
  ultimately show ?thesis by (rule step_loop_within)
qed

lemma step_one_fits: "field_bounds mn mx \<Longrightarrow> mn + 1 \<le> max_int64"
  by (simp add: field_bounds_def max_int64_def)

lemma parse_part_iff:
  assumes fb: "field_bounds mn mx" and st: "step_fits mn (part_shape_of p)"
  shows "parse_part f mn mx wrp p acc = Some (Inr ns) \<longleftrightarrow>
           shape_ok mn mx wrp (part_shape_of p) \<and>
           ns = acc @ shape_list mn mx wrp (part_shape_of p)"
proof (cases "all_digits p")
  case True
  then show ?thesis
    by (auto simp: parse_part_def part_shape_of_def Let_def wrapped_def split: option.splits)
next
  case False
  show ?thesis
  proof (cases "match_range p")
    case (Some se)
    obtain s e where se: "se = (s, e)" by (cases se)
    show ?thesis
    proof (cases "\<exists>a b. atoi s = Some a \<and> atoi e = Some b \<and> a < b")
      case True
      then obtain a b where ab: "atoi s = Some a" "atoi e = Some b" "a < b" by blast
      then show ?thesis
        using False Some atoi_range [OF ab(1)] atoi_range [OF ab(2)]
        by (auto simp: se parse_part_def part_shape_of_def range_loop_iff)
    next
      case no: False
      then show ?thesis
        using False Some by (auto simp: se parse_part_def part_shape_of_def split: option.splits)
    qed
  next
    case None
    then show ?thesis
      using False st step_loop_field [OF fb] step_one_fits [OF fb]
      by (auto simp: parse_part_def part_shape_of_def split: option.splits if_splits)
  qed
qed

lemma parse_parts_iff:
  assumes fb: "field_bounds mn mx"
    and "\<forall>p \<in> set ps. step_fits mn (part_shape_of (trim_space p))"
  shows "parse_parts f mn mx wrp ps acc = Some (Inr ns) \<longleftrightarrow>
           (\<forall>p \<in> set ps. shape_ok mn mx wrp (part_shape_of (trim_space p))) \<and>
           ns = acc @ concat (map (\<lambda>p. shape_list mn mx wrp (part_shape_of (trim_space p))) ps)"
  using assms(2)
proof (induction ps arbitrary: acc)
  case (Cons p ps)
  then show ?case using parse_part_iff [OF fb] by auto
qed auto

lemma drop_repeats_sorted:
  "sorted (x # xs) \<Longrightarrow>
     sorted_wrt (<) (drop_repeats (Some x) xs) \<and> set (drop_repeats (Some x) xs) = set xs - {x}"
proof (induction xs arbitrary: x)
  case (Cons y ys)
  then have IH: "sorted_wrt (<) (drop_repeats (Some y) ys)"
      "set (drop_repeats (Some y) ys) = set ys - {y}" by auto
  from Cons.prems have "x \<le> y" "\<forall>z \<in> set ys. y \<le> z" by auto
  then show ?case using IH by (cases "x = y") force+
qed simp

lemma drop_repeats_sort: "drop_repeats None (sort xs) = sorted_list_of_set (set xs)"
proof (cases "sort xs")
  case Nil
  then show ?thesis by (metis drop_repeats.simps(1) list.set(1) set_sort sorted_list_of_set_empty)
next
  case (Cons y ys)
  have so: "sorted (y # ys)" by (metis Cons sorted_sort)
  have st: "set xs = insert y (set ys)" by (metis Cons list.simps(15) set_sort)
  have "sorted_wrt (<) (drop_repeats None (sort xs))"
    using drop_repeats_sorted [OF so] so by (fastforce simp: Cons)
  moreover have "set (drop_repeats None (sort xs)) = set xs"
    using drop_repeats_sorted [OF so] by (auto simp: Cons st)
  ultimately show ?thesis
    by (metis sorted_list_of_set.idem_if_sorted_distinct strict_sorted_iff)
qed

lemma parse_part_returns:
  assumes fb: "field_bounds mn mx"
    and "\<forall>a. part_shape_of p \<noteq> ARange a max_int64"
  shows "parse_part f mn mx wrp p acc \<noteq> None"
proof (cases "all_digits p")
  case True
  then show ?thesis by (simp add: parse_part_def Let_def split: option.splits)
next
  case False
  show ?thesis
  proof (cases "match_range p")
    case (Some se)
    obtain s e where se: "se = (s, e)" by (cases se)
    show ?thesis
    proof (cases "\<exists>a b. atoi s = Some a \<and> atoi e = Some b \<and> a < b")
      case True
      then obtain a b where ab: "atoi s = Some a" "atoi e = Some b" "a < b" by blast
      then have "b \<noteq> max_int64" using assms(2) False Some by (auto simp: se part_shape_of_def)
      then show ?thesis
        using False Some ab atoi_range [OF ab(1)] atoi_range [OF ab(2)]
        by (simp add: se parse_part_def range_loop_returns)
    next
      case no: False
      then show ?thesis using False Some by (auto simp: se parse_part_def split: option.splits)
    qed
  next
    case None
    then show ?thesis
      using False step_loop_ends [OF fb] atoi_range step_one_fits [OF fb]
      by (auto simp: parse_part_def max_int64_def split: option.splits if_splits)
  qed
qed

lemma parse_parts_returns:
  assumes fb: "field_bounds mn mx"
    and "\<forall>p \<in> set ps. \<forall>a. part_shape_of (trim_space p) \<noteq> ARange a max_int64"
  shows "parse_parts f mn mx wrp ps acc \<noteq> None"
  using assms(2)
proof (induction ps arbitrary: acc)
  case (Cons p ps)
  then have "parse_part f mn mx wrp (trim_space p) acc \<noteq> None"
    using parse_part_returns [OF fb] by simp
  then show ?case using Cons by (auto simp: then_run_None)
qed simp

section \<open>Properties\<close>

definition parts_of :: "string \<Rightarrow> string set" where
  "parts_of s = trim_space ` set (split_on (CHR '','') s)"

lemma crontab_range_iff:
  assumes "field_bounds mn mx"
    and "\<forall>p \<in> parts_of s. step_fits mn (part_shape_of p)"
  shows "parse_crontab_range f s mn mx wrp = Some (Inr ns) \<longleftrightarrow>
           (\<forall>p \<in> parts_of s. shape_ok mn mx wrp (part_shape_of p)) \<and>
           ns = sorted_list_of_set (\<Union>p \<in> parts_of s. shape_values mn mx wrp (part_shape_of p))"
proof -
  have "set (concat (map (\<lambda>p. shape_list mn mx wrp (part_shape_of (trim_space p)))
            (split_on (CHR '','') s)))
          = (\<Union>p \<in> parts_of s. shape_values mn mx wrp (part_shape_of p))"
    by (auto simp: parts_of_def set_shape_list)
  then show ?thesis
    using assms parse_parts_iff [of mn mx "split_on (CHR '','') s" f wrp "[]"]
    by (auto simp: parse_crontab_range_def parts_of_def drop_repeats_sort)
qed

text \<open>
  C12: a crontab field is accepted exactly when each of its comma-separated parts is, and the
  result is the strictly increasing list of the values the parts denote: numbers and wildcard
  multiples in bounds, range members cut to the bounds, with 7 read as 0 where the field wraps.
\<close>

theorem crontab_field_meaning:
  assumes "field_bounds mn mx"
    and "\<forall>p \<in> parts_of s. step_fits mn (part_shape_of p)"
  shows "parse_crontab_range f s mn mx wrp = Some (Inr ns) \<longleftrightarrow>
           (\<forall>p \<in> parts_of s. shape_ok mn mx wrp (part_shape_of p)) \<and>
           ns = sorted_list_of_set (\<Union>p \<in> parts_of s. shape_values mn mx wrp (part_shape_of p))"
  using assms by (rule crontab_range_iff)

text \<open>The day-of-week field "1-3,7" is Sunday to Wednesday.\<close>

lemma crontab_field_meaning_witness:
  "parse_crontab_range ''dow'' ''1-3,7'' 0 6 True = Some (Inr [0, 1, 2, 3])"
proof -
  have parts: "parts_of ''1-3,7'' = {''1-3'', ''7''}" by code_simp
  have shapes: "part_shape_of ''1-3'' = ARange 1 3" "part_shape_of ''7'' = ANumber 7" by code_simp+
  have r: "{1..3::int} = {1, 2, 3}" by auto
  have "field_bounds 0 6" by (simp add: field_bounds_def max_int64_def)
  then show ?thesis
    by (simp add: crontab_field_meaning parts shapes wrapped_def r max_int64_def)
qed

text \<open>
  C36: the parser of a field returns, with a value or an error, for every input of which no part
  is a range that ends at the largest 64-bit number, whatever the steps of its wildcards: a step
  that overflows ends, too.
\<close>

theorem crontab_field_returns:
  assumes "field_bounds mn mx" "\<forall>p \<in> parts_of s. \<forall>a. part_shape_of p \<noteq> ARange a max_int64"
  shows "\<exists>r. parse_crontab_range f s mn mx wrp = Some r"
  using assms parse_parts_returns [of mn mx "split_on (CHR '','') s" f wrp "[]"]
  by (auto simp: parse_crontab_range_def parts_of_def then_run_None simp flip: not_None_eq)

lemma crontab_field_returns_witness:
  "\<exists>r. parse_crontab_range ''hour'' ''5-3,x,*/9223372036854775807'' 0 23 False = Some r"
proof -
  have "parts_of ''5-3,x,*/9223372036854775807'' = {''5-3'', ''x'', ''*/9223372036854775807''}" by code_simp
  moreover have "part_shape_of ''5-3'' = ARange 5 3" "part_shape_of ''x'' = Rejected"
    "part_shape_of ''*/9223372036854775807'' = AStep 9223372036854775807" by code_simp+
  moreover have "field_bounds 0 23" by (simp add: field_bounds_def max_int64_def)
  ultimately show ?thesis by (intro crontab_field_returns) (auto simp: max_int64_def)
qed

text \<open>
  A range that ends at 9223372036854775807, in any field, makes the parser loop forever:
  the counter wraps to the smallest 64-bit number before it can pass the end.
\<close>

theorem crontab_range_to_max_diverges:
  "parse_crontab_range f ''0-9223372036854775807'' mn mx wrp = None"
proof -
  have "split_on (CHR '','') ''0-9223372036854775807'' = [''0-9223372036854775807'']"
    "trim_space ''0-9223372036854775807'' = ''0-9223372036854775807''"
    "\<not> all_digits ''0-9223372036854775807''"
    "match_range ''0-9223372036854775807'' = Some (''0'', ''9223372036854775807'')"
    "atoi ''0'' = Some 0" "atoi ''9223372036854775807'' = Some max_int64"
    by code_simp+
  moreover have "range_loop mn mx wrp 0 max_int64 [] = None"
    by (rule range_loop_diverges) (simp add: max_int64_def)
  moreover have "\<not> max_int64 \<le> 0" by (simp add: max_int64_def)
  ultimately show ?thesis by (simp add: parse_crontab_range_def parse_part_def)
qed

text \<open>
  The step of a wildcard is added without an overflow check: in the date field a step of
  9223372036854775807 yields two numbers below the bounds of the field.
\<close>

theorem crontab_step_overflow:
  "parse_crontab_range ''date'' ''*/9223372036854775807'' 1 31 False
     = Some (Inr [- 9223372036854775808, - 1, 1])"
proof -
  have parts: "split_on (CHR '','') ''*/9223372036854775807'' = [''*/9223372036854775807'']"
    "trim_space ''*/9223372036854775807'' = ''*/9223372036854775807''"
    "\<not> all_digits ''*/9223372036854775807''"
    "match_range ''*/9223372036854775807'' = None"
    "match_wildcard ''*/9223372036854775807'' = Some ''9223372036854775807''"
    "atoi ''9223372036854775807'' = Some max_int64"
    by code_simp+
  have "step_loop 31 1 max_int64 [] = Some [1, - 9223372036854775808, - 1]"
    by (simp add: step_loop_step step_loop_done max_int64_def wrap64_def)
  then show ?thesis
    using parts by (simp add: parse_crontab_range_def parse_part_def max_int64_def)
qed

end
