(* ===== verification/Cron_Lines.thy ===== *)
theory Cron_Lines
  imports Go_Strings
begin

text \<open>
  The shape of crontab lines (pkg/cron/parser.go lines 15 to 28): the regular expressions
  \<open>crontabLineRegex\<close>, \<open>crontabTimeRegex\<close> and \<open>timePhraseRegex\<close> as scanners.  Package
  \<open>regexp\<close> backtracks; here each expression has neighbouring character classes that are
  disjoint, so a scanner that takes maximal runs decides it.  The last section proves that for
  the line expression: the scanner returns some submatches exactly when the text has the form
  the expression describes.
\<close>

section \<open>Scanners\<close>

text \<open>\<open>[0-9*/,-]\<close>, \<open>[_a-zA-Z]\<close> and \<open>[_a-zA-Z0-9:_-]\<close>.\<close>

definition time_char :: "char \<Rightarrow> bool" where
  "time_char c \<longleftrightarrow> is_digit c \<or> c \<in> {CHR ''*'', CHR ''/'', CHR '','', CHR ''-''}"

definition task_start :: "char \<Rightarrow> bool" where
  "task_start c \<longleftrightarrow> is_alpha c \<or> c = CHR ''_''"

definition task_char :: "char \<Rightarrow> bool" where
  "task_char c \<longleftrightarrow> is_alpha c \<or> is_digit c \<or> c \<in> {CHR ''_'', CHR '':'', CHR ''-''}"

text \<open>\<open>n\<close> repetitions of \<open>([0-9*/,-]+)\s+\<close>, and what is left of the text.\<close>

fun scan_spaced :: "nat \<Rightarrow> string \<Rightarrow> (string list \<times> string) option" where
  "scan_spaced 0 s = Some ([], s)"
| "scan_spaced (Suc n) s =
     (let f = takeWhile time_char s; r = dropWhile time_char s in
      if f = [] \<or> r = [] \<or> \<not> re_space (hd r) then None
      else map_option (\<lambda>(fs, rest). (f # fs, rest)) (scan_spaced n (dropWhile re_space r)))"

definition match_time :: "string \<Rightarrow> string list option" where
  "match_time s =
     (case scan_spaced 4 s of
        None \<Rightarrow> None
      | Some (fs, rest) \<Rightarrow>
          if rest \<noteq> [] \<and> list_all time_char rest then Some (fs @ [rest]) else None)"

text \<open>\<open>\{.*\}\<close>, where the dot is any character but a newline.\<close>

definition braced :: "string \<Rightarrow> bool" where
  "braced s \<longleftrightarrow> 2 \<le> length s \<and> hd s = CHR ''{'' \<and> last s = CHR ''}'' \<and> CHR 0x0A \<notin> set s"

definition match_payload :: "string \<Rightarrow> string option" where
  "match_payload s =
     (if s = [] then Some []
      else let r = dropWhile re_space s in
           if re_space (hd s) \<and> braced r then Some r else None)"

definition match_tail :: "string \<Rightarrow> (string \<times> string) option" where
  "match_tail s =
     (let r = dropWhile re_space s in
      if s \<noteq> [] \<and> re_space (hd s) \<and> r \<noteq> [] \<and> hd r = CHR ''?'' then
        (let opts = takeWhile (\<lambda>c. \<not> re_space c) (tl r) in
         if opts = [] then None
         else map_option (Pair opts) (match_payload (dropWhile (\<lambda>c. \<not> re_space c) (tl r))))
      else map_option (Pair []) (match_payload s))"

definition match_line :: "string \<Rightarrow> (string list \<times> string \<times> string \<times> string) option" where
  "match_line s =
     (case scan_spaced 5 s of
        None \<Rightarrow> None
      | Some (fs, rest) \<Rightarrow>
          if rest = [] \<or> \<not> task_start (hd rest) then None
          else map_option (\<lambda>(opts, payload). (fs, takeWhile task_char rest, opts, payload))
                 (match_tail (dropWhile task_char rest)))"

text \<open>\<open>^([0-9]+)([smhdw])\<close> and the text after the match.\<close>

definition match_time_phrase :: "string \<Rightarrow> (string \<times> char \<times> string) option" where
  "match_time_phrase s =
     (let q = takeWhile is_digit s in
      case dropWhile is_digit s of
        [] \<Rightarrow> None
      | c # rest \<Rightarrow> if q \<noteq> [] \<and> c \<in> set ''smhdw'' then Some (q, c, rest) else None)"

text \<open>\<open>^[_a-zA-Z][-_a-zA-Z0-9]*$\<close> and \<open>^[-a-zA-Z0-9_:]+$\<close> of the option values.\<close>

definition match_id :: "string \<Rightarrow> bool" where
  "match_id s \<longleftrightarrow> s \<noteq> [] \<and> task_start (hd s) \<and>
     list_all (\<lambda>c. is_alpha c \<or> is_digit c \<or> c = CHR ''_'' \<or> c = CHR ''-'') (tl s)"

definition match_queue_name :: "string \<Rightarrow> bool" where
  "match_queue_name s \<longleftrightarrow> s \<noteq> [] \<and> list_all task_char s"

section \<open>The classes are disjoint\<close>

lemmas char_class_defs = is_digit_def is_alpha_def is_upper_def is_lower_def cval_def

lemma time_char_not_space: "time_char c \<Longrightarrow> \<not> is_space c"
  by (auto simp: time_char_def is_space_def char_class_defs)

lemma time_char_not_re_space: "time_char c \<Longrightarrow> \<not> re_space c"
  using time_char_not_space re_space_is_space by blast

lemma task_start_char: "task_start c \<Longrightarrow> task_char c"
  by (auto simp: task_start_def task_char_def)

lemma task_char_not_space: "task_char c \<Longrightarrow> \<not> re_space c"
  by (auto simp: task_char_def re_space_def char_class_defs)

lemma task_start_not_space: "task_start c \<Longrightarrow> \<not> re_space c"
  using task_start_char task_char_not_space by blast

section \<open>The form of a line\<close>

text \<open>\<open>\s+\<close>.\<close>

definition spaces :: "string \<Rightarrow> bool" where
  "spaces w \<longleftrightarrow> w \<noteq> [] \<and> list_all re_space w"

definition time_field :: "string \<Rightarrow> bool" where
  "time_field f \<longleftrightarrow> f \<noteq> [] \<and> list_all time_char f"

fun spaced :: "string list \<Rightarrow> string list \<Rightarrow> string" where
  "spaced (f # fs) (w # ws) = f @ w @ spaced fs ws"
| "spaced _ _ = []"

definition task_name :: "string \<Rightarrow> bool" where
  "task_name t \<longleftrightarrow> t \<noteq> [] \<and> task_start (hd t) \<and> list_all task_char t"

definition option_text :: "string \<Rightarrow> bool" where
  "option_text t \<longleftrightarrow> list_all (\<lambda>c. \<not> re_space c) t"

text \<open>
  \<open>tail_form\<close> is \<open>(?:\s+\?([^\s]+))?(?:\s+(\{.*\}))?$\<close>; a submatch that did not take part
  is the empty text, as \<open>FindStringSubmatch\<close> returns it.
\<close>

definition payload_form :: "string \<Rightarrow> string \<Rightarrow> bool" where
  "payload_form payload s \<longleftrightarrow>
     payload = [] \<and> s = [] \<or> (\<exists>w. spaces w \<and> braced payload \<and> s = w @ payload)"

definition tail_form :: "string \<Rightarrow> string \<Rightarrow> string \<Rightarrow> bool" where
  "tail_form opts payload s \<longleftrightarrow>
     opts = [] \<and> payload_form payload s \<or>
     (\<exists>w p. spaces w \<and> opts \<noteq> [] \<and> option_text opts \<and> payload_form payload p \<and>
        s = w @ CHR ''?'' # opts @ p)"

definition line_form :: "string list \<Rightarrow> string \<Rightarrow> string \<Rightarrow> string \<Rightarrow> string \<Rightarrow> bool" where
  "line_form fs task opts payload s \<longleftrightarrow>
     (\<exists>ws tail. length fs = 5 \<and> length ws = 5 \<and> list_all time_field fs \<and> list_all spaces ws \<and>
        task_name task \<and> tail_form opts payload tail \<and> s = spaced fs ws @ task @ tail)"

section \<open>The scanner decides the form\<close>

lemma hd_append_ne: "w \<noteq> [] \<Longrightarrow> hd (w @ s) = hd w"
  by (cases w) auto

lemma spaces_hd: "spaces w \<Longrightarrow> re_space (hd (w @ s))"
  by (cases w) (auto simp: spaces_def)

lemma spaces_drop:
  "spaces w \<Longrightarrow> r = [] \<or> \<not> re_space (hd r) \<Longrightarrow> dropWhile re_space (w @ r) = r"
  by (intro span_unique(2)) (auto simp: spaces_def list_all_iff)

lemma space_run:
  "s \<noteq> [] \<Longrightarrow> re_space (hd s) \<Longrightarrow> \<exists>w. spaces w \<and> s = w @ dropWhile re_space s"
  by (rule exI [of _ "takeWhile re_space s"])
     (cases s; auto simp: spaces_def list_all_iff dest: set_takeWhileD)

lemma drop_hd: "dropWhile P s = [] \<or> \<not> P (hd (dropWhile P s))"
  using hd_dropWhile [of P s] by blast

lemma braced_hd: "braced p \<Longrightarrow> p \<noteq> [] \<and> hd p = CHR ''{'' \<and> \<not> re_space (hd p)"
  by (auto simp: braced_def re_space_def cval_def)

lemma match_payload_iff: "match_payload s = Some p \<longleftrightarrow> payload_form p s"
proof
  assume m: "match_payload s = Some p"
  show "payload_form p s"
  proof (cases "s = []")
    case True
    with m show ?thesis by (simp add: match_payload_def payload_form_def)
  next
    case False
    with m have "re_space (hd s)" "braced p" "p = dropWhile re_space s"
      by (auto simp: match_payload_def Let_def split: if_splits)
    with space_run [OF False] show ?thesis by (auto simp: payload_form_def)
  qed
next
  assume "payload_form p s"
  then consider "p = []" "s = []" | w where "spaces w" "braced p" "s = w @ p"
    by (auto simp: payload_form_def)
  then show "match_payload s = Some p"
  proof cases
    case 2
    then have "dropWhile re_space s = p" using spaces_drop braced_hd by blast
    with 2 spaces_hd [of w p] show ?thesis by (auto simp: match_payload_def spaces_def)
  qed (simp add: match_payload_def)
qed

lemma payload_form_hd: "payload_form p s \<Longrightarrow> s = [] \<or> re_space (hd s)"
  using spaces_hd by (auto simp: payload_form_def)

lemma payload_form_not_option:
  "payload_form p s \<Longrightarrow> dropWhile re_space s = [] \<or> hd (dropWhile re_space s) \<noteq> CHR ''?''"
  by (auto simp: payload_form_def spaces_drop dest!: braced_hd)

lemma match_tail_iff: "match_tail s = Some (opts, p) \<longleftrightarrow> tail_form opts p s"
proof
  let ?r = "dropWhile re_space s"
  assume m: "match_tail s = Some (opts, p)"
  show "tail_form opts p s"
  proof (cases "s \<noteq> [] \<and> re_space (hd s) \<and> ?r \<noteq> [] \<and> hd ?r = CHR ''?''")
    case True
    let ?o = "takeWhile (\<lambda>c. \<not> re_space c) (tl ?r)"
    let ?p = "dropWhile (\<lambda>c. \<not> re_space c) (tl ?r)"
    from m True have "?o \<noteq> []" "opts = ?o" "match_payload ?p = Some p"
      by (auto simp: match_tail_def Let_def split: if_splits)
    moreover obtain w where "spaces w" "s = w @ ?r" using space_run True by blast
    moreover have "?r = CHR ''?'' # ?o @ ?p" using True by (cases ?r) auto
    moreover have "option_text ?o" by (auto simp: option_text_def list_all_iff dest: set_takeWhileD)
    ultimately show ?thesis unfolding tail_form_def match_payload_iff by metis
  next
    case False
    with m have "opts = []" "match_payload s = Some p"
      by (auto simp: match_tail_def Let_def split: if_splits)
    then show ?thesis by (simp add: tail_form_def match_payload_iff)
  qed
next
  assume "tail_form opts p s"
  then consider "opts = []" "payload_form p s"
    | w t where "spaces w" "opts \<noteq> []" "option_text opts" "payload_form p t"
        "s = w @ CHR ''?'' # opts @ t"
    by (auto simp: tail_form_def)
  then show "match_tail s = Some (opts, p)"
  proof cases
    case 1
    then show ?thesis
      using payload_form_not_option [OF 1(2)] by (auto simp: match_tail_def match_payload_iff Let_def)
  next
    case 2
    have q: "\<not> re_space (CHR ''?'')" by (simp add: re_space_def cval_def)
    then have r: "dropWhile re_space s = CHR ''?'' # opts @ t" using 2 spaces_drop by simp
    have run: "takeWhile (\<lambda>c. \<not> re_space c) (opts @ t) = opts"
      "dropWhile (\<lambda>c. \<not> re_space c) (opts @ t) = t"
      using 2 payload_form_hd [OF 2(4)]
      by (intro span_unique; auto simp: option_text_def list_all_iff)+
    then show ?thesis
      using 2 r spaces_hd [of w] match_payload_iff [of t p]
      by (auto simp: match_tail_def spaces_def)
  qed
qed

lemma time_field_span:
  "time_field f \<Longrightarrow> r = [] \<or> \<not> time_char (hd r) \<Longrightarrow>
     takeWhile time_char (f @ r) = f \<and> dropWhile time_char (f @ r) = r"
  using span_unique [of f time_char r] by (auto simp: time_field_def list_all_iff)

lemma time_field_hd: "time_field f \<Longrightarrow> f \<noteq> [] \<and> \<not> re_space (hd (f @ r))"
  by (cases f) (auto simp: time_field_def time_char_not_re_space)

lemma scan_spaced_sound:
  "scan_spaced n s = Some (fs, rest) \<Longrightarrow>
     \<exists>ws. length fs = n \<and> length ws = n \<and> list_all time_field fs \<and> list_all spaces ws \<and>
          s = spaced fs ws @ rest"
proof (induction n s arbitrary: fs rest rule: scan_spaced.induct)
  case (2 n s)
  let ?f = "takeWhile time_char s" and ?r = "dropWhile time_char s"
  from "2.prems" obtain gs where g: "?f \<noteq> []" "?r \<noteq> []" "re_space (hd ?r)" "fs = ?f # gs"
      "scan_spaced n (dropWhile re_space ?r) = Some (gs, rest)"
    by (auto simp: Let_def split: if_splits)
  with "2.IH" [OF refl refl _ g(5)] obtain ws where ws:
      "length gs = n" "length ws = n" "list_all time_field gs" "list_all spaces ws"
      "dropWhile re_space ?r = spaced gs ws @ rest" by auto
  obtain w where w: "spaces w" "?r = w @ dropWhile re_space ?r"
    using space_run [OF g(2,3)] by blast
  have "time_field ?f" using g(1) by (auto simp: time_field_def list_all_iff dest: set_takeWhileD)
  moreover have "s = ?f @ w @ spaced gs ws @ rest"
    using w(2) ws(5) takeWhile_dropWhile_id [of time_char s] by simp
  ultimately show ?case using g(4) ws w(1) by (intro exI [of _ "w # ws"]) auto
qed auto

lemma scan_spaced_complete:
  assumes "length fs = n" "length ws = n" "list_all time_field fs" "list_all spaces ws"
    and "rest = [] \<or> \<not> re_space (hd rest)"
  shows "scan_spaced n (spaced fs ws @ rest) = Some (fs, rest)"
  using assms(1-4)
proof (induction n arbitrary: fs ws)
  case (Suc n)
  obtain f gs w vs where fw: "fs = f # gs" "ws = w # vs"
    using Suc.prems by (metis length_Suc_conv)
  let ?more = "spaced gs vs @ rest"
  have w: "w \<noteq> []" "re_space (hd (w @ ?more))" "spaces w"
    using Suc.prems fw spaces_hd [of w ?more] by (auto simp: spaces_def)
  then have "\<not> time_char (hd (w @ ?more))" using time_char_not_re_space by blast
  then have span: "takeWhile time_char (f @ w @ ?more) = f"
      "dropWhile time_char (f @ w @ ?more) = w @ ?more"
    using Suc.prems fw time_field_span [of f "w @ ?more"] by auto
  have "?more = [] \<or> \<not> re_space (hd ?more)"
  proof (cases n)
    case 0
    then show ?thesis using Suc.prems fw assms(5) by simp
  next
    case (Suc k)
    then obtain g ks v us where "gs = g # ks" "vs = v # us"
      using Suc.prems fw by (metis length_Suc_conv list.size(4) add_right_cancel One_nat_def)
    then show ?thesis using Suc.prems fw time_field_hd [of g "v @ spaced ks us @ rest"] by auto
  qed
  then have "dropWhile re_space (w @ ?more) = ?more" using w(3) spaces_drop by blast
  moreover have "scan_spaced n ?more = Some (gs, rest)" using Suc.IH Suc.prems fw by simp
  moreover have "f \<noteq> []" using Suc.prems fw by (simp add: time_field_def)
  ultimately show ?case using w span by (simp add: fw Let_def)
qed simp

lemma tail_form_hd: "tail_form opts p s \<Longrightarrow> s = [] \<or> re_space (hd s)"
  using payload_form_hd spaces_hd by (fastforce simp: tail_form_def)

lemma task_char_tail: "tail_form opts p s \<Longrightarrow> s = [] \<or> \<not> task_char (hd s)"
  using tail_form_hd task_char_not_space by blast

lemma match_line_form:
  "match_line s = Some (fs, task, opts, payload) \<longleftrightarrow> line_form fs task opts payload s"
proof
  assume m: "match_line s = Some (fs, task, opts, payload)"
  then obtain rest where rest: "scan_spaced 5 s = Some (fs, rest)" "rest \<noteq> []"
      "task_start (hd rest)" "task = takeWhile task_char rest"
      "match_tail (dropWhile task_char rest) = Some (opts, payload)"
    by (auto simp: match_line_def split: option.splits if_splits)
  from scan_spaced_sound [OF rest(1)] obtain ws where ws:
      "length fs = 5" "length ws = 5" "list_all time_field fs" "list_all spaces ws"
      "s = spaced fs ws @ rest" by blast
  have "task_name task"
    using rest(2-4) task_start_char
    by (cases rest) (auto simp: task_name_def list_all_iff dest: set_takeWhileD)
  moreover have "rest = task @ dropWhile task_char rest" by (simp add: rest(4))
  ultimately show "line_form fs task opts payload s"
    using ws rest(5) unfolding line_form_def match_tail_iff by metis
next
  assume "line_form fs task opts payload s"
  then obtain ws tail where l: "length fs = 5" "length ws = 5" "list_all time_field fs"
      "list_all spaces ws" "task_name task" "tail_form opts payload tail"
      "s = spaced fs ws @ task @ tail"
    by (auto simp: line_form_def)
  have hd: "task @ tail \<noteq> []" "task_start (hd (task @ tail))"
    using l(5) by (auto simp: task_name_def)
  then have "scan_spaced 5 s = Some (fs, task @ tail)"
    using l scan_spaced_complete [of fs 5 ws "task @ tail"] task_start_not_space by auto
  moreover have "takeWhile task_char (task @ tail) = task"
      "dropWhile task_char (task @ tail) = tail"
    using l(5) task_char_tail [OF l(6)] by (intro span_unique; auto simp: task_name_def list_all_iff)+
  moreover have "match_tail tail = Some (opts, payload)" using l(6) match_tail_iff by blast
  ultimately show "match_line s = Some (fs, task, opts, payload)"
    using hd by (auto simp: match_line_def)
qed

text \<open>A pattern accepted by \<open>crontabTimeRegex\<close> has five fields, which \<open>strings.Fields\<close> finds.\<close>

lemma fields_cons:
  assumes "w \<noteq> []" "\<forall>c \<in> set w. \<not> is_space c" "r = [] \<or> is_space (hd r)"
    and "\<forall>c \<in> set v. is_space c"
  shows "str_fields (v @ w @ r) = w # str_fields r"
proof -
  obtain c cs where w: "w = c # cs" using assms(1) by (cases w) auto
  have d: "dropWhile is_space (v @ w @ r) = w @ r"
    using assms(2,4) by (simp add: dropWhile_all w)
  have t: "takeWhile (\<lambda>c. \<not> is_space c) (w @ r) = w"
      "dropWhile (\<lambda>c. \<not> is_space c) (w @ r) = r"
    using assms(2,3) by (intro span_unique; auto)+
  show ?thesis by (subst str_fields.simps) (simp add: d t Let_def assms(1))
qed

lemma fields_blank: "\<forall>c \<in> set v. is_space c \<Longrightarrow> str_fields v = []"
  by (subst str_fields.simps) (simp add: Let_def)

lemma time_field_word: "time_field f \<Longrightarrow> f \<noteq> [] \<and> (\<forall>c \<in> set f. \<not> is_space c)"
  by (auto simp: time_field_def list_all_iff time_char_not_space)

lemma spaces_blank: "spaces w \<Longrightarrow> w \<noteq> [] \<and> (\<forall>c \<in> set w. is_space c)"
  by (auto simp: spaces_def list_all_iff re_space_is_space)

lemma fields_spaced:
  assumes "time_field g"
  shows "length fs = length ws \<Longrightarrow> list_all time_field fs \<Longrightarrow> list_all spaces ws \<Longrightarrow>
     \<forall>c \<in> set v. is_space c \<Longrightarrow> str_fields (v @ spaced fs ws @ g) = fs @ [g]"
proof (induction fs ws arbitrary: v rule: list_induct2')
  case 1
  then show ?case
    using fields_cons [of g "[]" v] time_field_word [OF assms] fields_blank [of "[]"] by simp
next
  case (4 f fs w ws)
  let ?more = "spaced fs ws @ g"
  have w: "w \<noteq> []" "\<forall>c \<in> set w. is_space c" using 4 spaces_blank by auto
  then have "is_space (hd (w @ ?more))" by (cases w) auto
  then have "str_fields (v @ f @ w @ ?more) = f # str_fields (w @ ?more)"
    using 4 time_field_word [of f] by (intro fields_cons) auto
  moreover have "str_fields (w @ ?more) = fs @ [g]" using 4 w by simp
  ultimately show ?case by simp
qed auto

lemma match_time_fields:
  assumes "match_time s = Some fs"
  shows "str_fields s = fs \<and> length fs = 5"
proof -
  from assms obtain gs g where g: "scan_spaced 4 s = Some (gs, g)" "time_field g" "fs = gs @ [g]"
    by (auto simp: match_time_def time_field_def split: option.splits if_splits)
  from scan_spaced_sound [OF g(1)] obtain ws where
      "length gs = 4" "length ws = 4" "list_all time_field gs" "list_all spaces ws"
      "s = spaced gs ws @ g" by blast
  then show ?thesis using fields_spaced [OF g(2), of gs ws "[]"] g(3) by simp
qed

end
