(* ===== verification/Cron_Parser.thy ===== *)
theory Cron_Parser
  imports Cron_Range Cron_Lines
begin

text \<open>
  The crontab parser (pkg/cron/parser.go): options, time phrases, payloads, whole lines,
  configured items and whole crontabs.

  Two things the parser uses are arguments here.  \<open>json\<close> decodes the text of a JSON object
  (\<open>json.Unmarshal\<close> into a map), giving the canonical text of the object or \<open>None\<close> for an
  error.  \<open>ord\<close> is the order in which Go ranges over the map of option values, which the
  language leaves open: it reorders the list of keys, line by line.
\<close>

section \<open>url.ParseQuery\<close>

definition hex_val :: "char \<Rightarrow> nat option" where
  "hex_val c =
     (if is_digit c then Some (cval c - 48)
      else if 97 \<le> cval c \<and> cval c \<le> 102 then Some (cval c - 87)
      else if 65 \<le> cval c \<and> cval c \<le> 70 then Some (cval c - 55)
      else None)"

fun query_unescape :: "string \<Rightarrow> string option" where
  "query_unescape [] = Some []"
| "query_unescape (c # cs) =
     (if c = CHR ''%'' then
        (case cs of
           a # b # rest \<Rightarrow>
             (case (hex_val a, hex_val b) of
                (Some x, Some y) \<Rightarrow> map_option (Cons (char_of (16 * x + y))) (query_unescape rest)
              | _ \<Rightarrow> None)
         | _ \<Rightarrow> None)
      else map_option (Cons (if c = CHR ''+'' then CHR '' '' else c)) (query_unescape cs))"

fun query_pairs :: "string list \<Rightarrow> (string \<times> string) list option" where
  "query_pairs [] = Some []"
| "query_pairs (seg # segs) =
     (if CHR '';'' \<in> set seg then None
      else if seg = [] then query_pairs segs
      else case cut_at (CHR ''='') seg of (k, v) \<Rightarrow>
        (case (query_unescape k, query_unescape v) of
           (Some k', Some v') \<Rightarrow> map_option (Cons (k', v')) (query_pairs segs)
         | _ \<Rightarrow> None))"

text \<open>\<open>m[key] = append(m[key], value)\<close>, the map as a list with distinct keys.\<close>

fun add_value :: "string \<Rightarrow> string \<Rightarrow> (string \<times> string list) list \<Rightarrow> (string \<times> string list) list" where
  "add_value k v [] = [(k, [v])]"
| "add_value k v ((k', vs) # m) = (if k' = k then (k', vs @ [v]) # m else (k', vs) # add_value k v m)"

definition parse_query :: "string \<Rightarrow> (string \<times> string list) list option" where
  "parse_query s =
     map_option (\<lambda>kvs. fold (\<lambda>(k, v). add_value k v) kvs []) (query_pairs (split_on (CHR ''&'') s))"

section \<open>Time phrases\<close>

definition period_duration :: "char \<Rightarrow> int option" where
  "period_duration c =
     (if c = CHR ''s'' then Some 1000000000
      else if c = CHR ''m'' then Some 60000000000
      else if c = CHR ''h'' then Some 3600000000000
      else if c = CHR ''d'' then Some 86400000000000
      else if c = CHR ''w'' then Some 604800000000000
      else None)"

lemma match_time_phrase_shorter:
  "match_time_phrase s = Some (q, c, rest) \<Longrightarrow> length rest < length s"
proof -
  assume "match_time_phrase s = Some (q, c, rest)"
  then have "dropWhile is_digit s = c # rest"
    by (auto simp: match_time_phrase_def Let_def split: list.splits if_splits)
  then show ?thesis using length_dropWhile_le [of is_digit s] by simp
qed

function time_phrase_loop :: "string \<Rightarrow> string \<Rightarrow> int \<Rightarrow> (parse_error, int) result" where
  "time_phrase_loop phrase remaining acc =
     (if remaining = [] then Inr acc
      else case match_time_phrase remaining of
        None \<Rightarrow> Inl (InvalidTimePhrase phrase)
      | Some (q, c, rest) \<Rightarrow>
          (case atoi q of
             None \<Rightarrow> Inl (InvalidQuantity q)
           | Some quantity \<Rightarrow>
               (case period_duration c of
                  None \<Rightarrow> Inl (UnsupportedTimePeriod [c])
                | Some duration \<Rightarrow>
                    time_phrase_loop phrase rest (wrap64 (acc + wrap64 (quantity * duration))))))"
  by pat_completeness auto
termination
  by (relation "measure (\<lambda>(_, r, _). length r)") (auto dest: match_time_phrase_shorter)

declare time_phrase_loop.simps [simp del]

definition parse_time_phrase :: "string \<Rightarrow> (parse_error, int) result" where
  "parse_time_phrase phrase = time_phrase_loop phrase phrase 0"

section \<open>Options and payloads\<close>

text \<open>The body of the loop over the option map: the options and the identifier so far.\<close>

definition apply_option ::
  "int \<Rightarrow> string \<times> string list \<Rightarrow> cron_item_options \<times> string
     \<Rightarrow> (parse_error, cron_item_options \<times> string) result" where
  "apply_option line_num kv st =
     (let key = fst kv; vals = snd kv; options = fst st; identifier = snd st; value = hd vals in
      if length vals \<noteq> 1 then Inl (OptionRepeated key line_num)
      else if key = ''id'' then
        (if match_id value then Inr (options, value) else Inl (InvalidIdFormat line_num value))
      else if key = ''fill'' then
        then_ok (in_context_ok (InvalidFillDuration line_num) (parse_time_phrase value))
          (\<lambda>d. Inr (options\<lparr>backfill_period := d, backfill := True\<rparr>, identifier))
      else if key = ''max'' then
        (case atoi value of
           None \<Rightarrow> Inl (InvalidMaxAttempts line_num value)
         | Some mx \<Rightarrow>
             if mx < 1 then Inl (InvalidMaxAttempts line_num value)
             else Inr (options\<lparr>cio_max_attempts := Some mx\<rparr>, identifier))
      else if key = ''queue'' then
        (if match_queue_name value then Inr (options\<lparr>cio_queue_name := value\<rparr>, identifier)
         else Inl (InvalidQueueName line_num value))
      else if key = ''priority'' then
        (case atoi value of
           None \<Rightarrow> Inl (InvalidPriority line_num value)
         | Some p \<Rightarrow> Inr (options\<lparr>cio_priority := Some p\<rparr>, identifier))
      else if key = ''jobKey'' then Inr (options\<lparr>cio_job_key := value\<rparr>, identifier)
      else Inl (UnsupportedOption key line_num))"

fun apply_options ::
  "int \<Rightarrow> (string \<times> string list) list \<Rightarrow> cron_item_options \<times> string
     \<Rightarrow> (parse_error, cron_item_options \<times> string) result" where
  "apply_options line_num [] st = Inr st"
| "apply_options line_num (kv # kvs) st =
     then_ok (apply_option line_num kv st) (apply_options line_num kvs)"

type_synonym map_order = "int \<Rightarrow> (string \<times> string list) list \<Rightarrow> (string \<times> string list) list"

definition parse_crontab_options ::
  "map_order \<Rightarrow> int \<Rightarrow> string \<Rightarrow> (parse_error, cron_item_options \<times> string) result" where
  "parse_crontab_options ord line_num s =
     (if s = [] then Inr (no_options, [])
      else case parse_query s of
        None \<Rightarrow> Inl (InvalidOptionsFormat line_num)
      | Some values \<Rightarrow> apply_options line_num (ord line_num values) (no_options, []))"

type_synonym json_object = "string \<Rightarrow> string option"

definition parse_crontab_payload ::
  "json_object \<Rightarrow> int \<Rightarrow> string \<Rightarrow> (parse_error, string option) result" where
  "parse_crontab_payload json line_num s =
     (if s = [] then Inr None
      else case json s of
        None \<Rightarrow> Inl (InvalidJsonPayload line_num)
      | Some payload \<Rightarrow> Inr (Some payload))"

section \<open>Matchers\<close>

definition contains :: "int list \<Rightarrow> int \<Rightarrow> bool" where
  "contains xs v \<longleftrightarrow> list_ex (\<lambda>item. item = v) xs"

definition create_array_matcher ::
  "int list \<Rightarrow> int list \<Rightarrow> int list \<Rightarrow> int list \<Rightarrow> int list \<Rightarrow> cron_matcher" where
  "create_array_matcher minutes hours dates months dows digest =
     (if \<not> contains minutes (td_minute digest) then False
      else if \<not> contains hours (td_hour digest) then False
      else if \<not> contains months (td_month digest) then False
      else
        (let date_excl = length dates \<noteq> 31; dow_excl = length dows \<noteq> 7 in
         if date_excl \<and> dow_excl then
           contains dates (td_date digest) \<or> contains dows (td_dow digest)
         else if date_excl then contains dates (td_date digest)
         else if dow_excl then contains dows (td_dow digest)
         else True))"

section \<open>Lines and items\<close>

definition parse_time_fields ::
  "string list \<Rightarrow> (parse_error, int list \<times> int list \<times> int list \<times> int list \<times> int list) outcome" where
  "parse_time_fields fs =
     then_run (parse_crontab_range ''minute'' (fs ! 0) 0 59 False) (\<lambda>minutes.
     then_run (parse_crontab_range ''hour'' (fs ! 1) 0 23 False) (\<lambda>hours.
     then_run (parse_crontab_range ''date'' (fs ! 2) 1 31 False) (\<lambda>dates.
     then_run (parse_crontab_range ''month'' (fs ! 3) 1 12 False) (\<lambda>months.
     then_run (parse_crontab_range ''dow'' (fs ! 4) 0 6 True) (\<lambda>dows.
       Some (Inr (minutes, hours, dates, months, dows)))))))"

definition make_job :: "string \<Rightarrow> string option \<Rightarrow> cron_item_options \<Rightarrow> cron_job" where
  "make_job task payload options =
     \<lparr>cj_task = task, cj_payload = payload,
      cj_queue_name = (if cio_queue_name options \<noteq> [] then Some (cio_queue_name options) else None),
      cj_run_at = None, cj_max_attempts = cio_max_attempts options,
      cj_priority = cio_priority options,
      cj_job_key = (if cio_job_key options \<noteq> [] then Some (cio_job_key options) else None),
      cj_job_key_mode = None, cj_flags = None\<rparr>"

definition parse_crontab_line ::
  "json_object \<Rightarrow> map_order \<Rightarrow> string \<Rightarrow> int \<Rightarrow> (parse_error, parsed_cron_item) outcome" where
  "parse_crontab_line json ord line line_num =
     (case match_line line of
        None \<Rightarrow> Some (Inl InvalidLineFormat)
      | Some (fs, task, options_str, payload_str) \<Rightarrow>
          then_run (parse_time_fields fs) (\<lambda>(minutes, hours, dates, months, dows).
          then_run (Some (parse_crontab_options ord line_num options_str)) (\<lambda>(options, ident).
          let identifier = (if ident = [] then task else ident) in
          then_run (Some (parse_crontab_payload json line_num payload_str)) (\<lambda>payload.
            Some (Inr \<lparr>pci_match = Some (create_array_matcher minutes hours dates months dows),
              pci_minutes = minutes, pci_hours = hours, pci_dates = dates, pci_months = months,
              pci_dows = dows, pci_task = task, pci_identifier = identifier,
              pci_options = options, pci_payload = payload,
              pci_job = make_job task payload options\<rparr>)))))"

definition pattern_fields :: "(string \<times> int \<times> int \<times> bool) list" where
  "pattern_fields =
     [(''minute field'', 0, 59, False), (''hour field'', 0, 23, False),
      (''date field'', 1, 31, False), (''month field'', 1, 12, False),
      (''dow field'', 0, 6, True)]"

fun validate_fields ::
  "(string \<times> int \<times> int \<times> bool) list \<Rightarrow> string list \<Rightarrow> (parse_error, unit) outcome" where
  "validate_fields ((f, mn, mx, wrp) # rs) (p # ps) =
     then_run (parse_crontab_range f p mn mx wrp) (\<lambda>_. validate_fields rs ps)"
| "validate_fields _ _ = Some (Inr ())"

definition validate_pattern :: "string \<Rightarrow> (parse_error, unit) outcome" where
  "validate_pattern pattern =
     (if match_time pattern = None then Some (Inl (InvalidPatternFormat pattern))
      else let parts = str_fields pattern in
           if length parts \<noteq> 5 then Some (Inl (WrongFieldCount pattern))
           else validate_fields pattern_fields parts)"

definition parse_pattern ::
  "string \<Rightarrow> (parse_error, int list \<times> int list \<times> int list \<times> int list \<times> int list) outcome" where
  "parse_pattern m = then_run (validate_pattern m) (\<lambda>_. parse_time_fields (str_fields m))"

definition parse_cron_item :: "cron_item \<Rightarrow> int \<Rightarrow> (parse_error, parsed_cron_item) outcome" where
  "parse_cron_item item index =
     (if ci_match item = MatchNil \<and> ci_pattern item = [] then Some (Inl NoMatchOrPattern)
      else
        let m = (if ci_match item = MatchNil \<and> ci_pattern item \<noteq> []
                 then MatchString (ci_pattern item) else ci_match item) in
        then_run
          (case m of
             MatchString s \<Rightarrow>
               then_run (parse_pattern s) (\<lambda>(minutes, hours, dates, months, dows).
                 Some (Inr (create_array_matcher minutes hours dates months dows,
                   minutes, hours, dates, months, dows)))
           | MatchFunc f \<Rightarrow> Some (Inr (f, [], [], [], [], []))
           | _ \<Rightarrow> Some (Inl BadMatchType))
          (\<lambda>(matcher, minutes, hours, dates, months, dows).
            let identifier = (if ci_identifier item = [] then ci_task item else ci_identifier item) in
            Some (Inr \<lparr>pci_match = Some matcher,
              pci_minutes = minutes, pci_hours = hours, pci_dates = dates, pci_months = months,
              pci_dows = dows, pci_task = ci_task item, pci_identifier = identifier,
              pci_options = ci_options item, pci_payload = ci_payload item,
              pci_job = make_job (ci_task item) (ci_payload item) (ci_options item)\<rparr>)))"

section \<open>Whole crontabs\<close>

fun duplicates :: "string list \<Rightarrow> string list \<Rightarrow> string list" where
  "duplicates seen [] = []"
| "duplicates seen (x # xs) =
     (if x \<in> set seen then x # duplicates (x # seen) xs else duplicates (x # seen) xs)"

definition validate_unique_identifiers ::
  "parsed_cron_item list \<Rightarrow> (parse_error, unit) result" where
  "validate_unique_identifiers items =
     (let dups = duplicates [] (map pci_identifier items) in
      if dups \<noteq> [] then Inl (DuplicateIdentifiers dups) else Inr ())"

definition skip_line :: "string \<Rightarrow> bool" where
  "skip_line line \<longleftrightarrow> line = [] \<or> has_prefix line ''#''"

fun parse_lines ::
  "json_object \<Rightarrow> map_order \<Rightarrow> int \<Rightarrow> string list \<Rightarrow> (parse_error, parsed_cron_item list) outcome" where
  "parse_lines json ord n [] = Some (Inr [])"
| "parse_lines json ord n (l # ls) =
     (let line = trim_space l in
      if skip_line line then parse_lines json ord (n + 1) ls
      else then_run (in_context (AtLine (n + 1)) (parse_crontab_line json ord line (n + 1)))
             (\<lambda>item. then_run (parse_lines json ord (n + 1) ls) (\<lambda>items. Some (Inr (item # items)))))"

definition parse_crontab ::
  "json_object \<Rightarrow> map_order \<Rightarrow> string \<Rightarrow> (parse_error, parsed_cron_item list) outcome" where
  "parse_crontab json ord crontab =
     then_run (parse_lines json ord 0 (split_on (CHR 0x0A) crontab)) (\<lambda>items.
       then_run (Some (validate_unique_identifiers items)) (\<lambda>_. Some (Inr items)))"

fun parse_items :: "int \<Rightarrow> cron_item list \<Rightarrow> (parse_error, parsed_cron_item list) outcome" where
  "parse_items i [] = Some (Inr [])"
| "parse_items i (item # items) =
     then_run (in_context (AtItem i) (parse_cron_item item i)) (\<lambda>p.
       then_run (parse_items (i + 1) items) (\<lambda>ps. Some (Inr (p # ps))))"

definition parse_cron_items :: "cron_item list \<Rightarrow> (parse_error, parsed_cron_item list) outcome" where
  "parse_cron_items items =
     then_run (parse_items 0 items) (\<lambda>parsed.
       then_run (Some (validate_unique_identifiers parsed)) (\<lambda>_. Some (Inr parsed)))"

definition parse_cron_item_public :: "cron_item \<Rightarrow> (parse_error, parsed_cron_item) outcome" where
  "parse_cron_item_public item = parse_cron_item item 0"

text \<open>\<open>ParseOptions\<close>; the decoder of the options object is an argument.\<close>

definition parse_options ::
  "(string \<Rightarrow> cron_item_options option) \<Rightarrow> string \<Rightarrow> (parse_error, cron_item_options) result" where
  "parse_options decode s =
     (if s = [] \<or> s = ''{}'' then Inr no_options
      else case decode s of None \<Rightarrow> Inl InvalidOptionsJson | Some options \<Rightarrow> Inr options)"

end
