(* ===== verification/Cron_Parser_Facts.thy ===== *)
theory Cron_Parser_Facts
  imports Cron_Parser "HOL-Library.Multiset"
begin

text \<open>
  What the crontab parser guarantees: the value of a time phrase, that the result does not
  depend on the order in which Go visits the option map, what a parsed line matches, that a
  pattern and the line with that pattern parse alike, and what a whole crontab parses to.
\<close>

section \<open>Time phrases\<close>

definition phrase_text :: "(nat \<times> char) list \<Rightarrow> string" where
  "phrase_text ps = concat (map (\<lambda>(q, c). digits_of q @ [c]) ps)"

definition phrase_value :: "(nat \<times> char) list \<Rightarrow> int" where
  "phrase_value ps = sum_list (map (\<lambda>(q, c). int q * the (period_duration c)) ps)"

definition phrase_ok :: "(nat \<times> char) list \<Rightarrow> bool" where
  "phrase_ok ps \<longleftrightarrow> (\<forall>(q, c) \<in> set ps. int q \<le> max_int64 \<and> c \<in> set ''smhdw'')"

lemma phrase_text_Cons: "phrase_text ((q, c) # ps) = digits_of q @ c # phrase_text ps"
  by (simp add: phrase_text_def)

lemma period_not_digit: "c \<in> set ''smhdw'' \<Longrightarrow> \<not> is_digit c"
  by (auto simp: is_digit_def cval_def)

lemma period_known: "c \<in> set ''smhdw'' \<Longrightarrow> \<exists>d. period_duration c = Some d"
  by (auto simp: period_duration_def)

lemma match_time_phrase_text:
  assumes "c \<in> set ''smhdw''"
  shows "match_time_phrase (digits_of q @ c # rest) = Some (digits_of q, c, rest)"
proof -
  have "takeWhile is_digit (digits_of q @ c # rest) = digits_of q"
      "dropWhile is_digit (digits_of q @ c # rest) = c # rest"
    using digits_of_all [of q] period_not_digit [OF assms]
    by (intro span_unique; auto simp: all_digits_def list_all_iff)+
  then show ?thesis
    using assms digits_of_all [of q] by (simp add: match_time_phrase_def all_digits_def)
qed

lemma time_phrase_loop_value:
  "phrase_ok ps \<Longrightarrow> time_phrase_loop phrase (phrase_text ps) (wrap64 a) = Inr (wrap64 (a + phrase_value ps))"
proof (induction ps arbitrary: a)
  case Nil
  then show ?case by (subst time_phrase_loop.simps) (simp add: phrase_text_def phrase_value_def)
next
  case (Cons qc ps)
  obtain q c where qc: "qc = (q, c)" by (cases qc)
  with Cons.prems have c: "c \<in> set ''smhdw''" "int q \<le> max_int64" "phrase_ok ps"
    by (auto simp: phrase_ok_def)
  obtain d where d: "period_duration c = Some d" using period_known c(1) by blast
  have "atoi (digits_of q) = Some (int q)"
    using c(2) by (simp add: atoi_digits digits_of_all dec_digits_of)
  moreover have "wrap64 (wrap64 a + wrap64 (int q * d)) = wrap64 (a + int q * d)"
    by (simp add: wrap64_add wrap64_add_right)
  ultimately have "time_phrase_loop phrase (phrase_text (qc # ps)) (wrap64 a)
      = time_phrase_loop phrase (phrase_text ps) (wrap64 (a + int q * d))"
    by (subst time_phrase_loop.simps)
       (simp add: qc phrase_text_Cons match_time_phrase_text [OF c(1)] d)
  then show ?case using Cons.IH [OF c(3)] by (simp add: phrase_value_def qc d algebra_simps)
qed

text \<open>
  C33: a time phrase of any quantities and periods is accepted and denotes the sum of its parts
  in nanoseconds reduced to 64 bits: the additions and multiplications wrap without an error.
\<close>

theorem time_phrase_meaning:
  "phrase_ok ps \<Longrightarrow> parse_time_phrase (phrase_text ps) = Inr (wrap64 (phrase_value ps))"
  using time_phrase_loop_value [of ps "phrase_text ps" 0]
  by (simp add: parse_time_phrase_def min_int64_def max_int64_def)

text \<open>A phrase of 30501 weeks, 584 years, is read as three days.\<close>

lemma time_phrase_meaning_witness:
  "parse_time_phrase ''30501w'' = Inr 260726290448384"
proof -
  have "phrase_text [(30501, CHR ''w'')] = ''30501w''"
    by (simp add: phrase_text_def digits_of.simps char_of_def bit_Suc_0_iff)
  moreover have "phrase_ok [(30501, CHR ''w'')]" by (simp add: phrase_ok_def max_int64_def)
  moreover have "wrap64 (phrase_value [(30501, CHR ''w'')]) = 260726290448384"
    by (simp add: phrase_value_def period_duration_def wrap64_def)
  ultimately show ?thesis using time_phrase_meaning [of "[(30501, CHR ''w'')]"] by simp
qed

section \<open>Options\<close>

text \<open>What an accepted option does, as a check and an update that do not depend on each other.\<close>

definition option_ok :: "string \<times> string list \<Rightarrow> bool" where
  "option_ok kv \<longleftrightarrow> length (snd kv) = 1 \<and>
     (let k = fst kv; v = hd (snd kv) in
      k = ''id'' \<and> match_id v
      \<or> k = ''fill'' \<and> (\<exists>d. parse_time_phrase v = Inr d)
      \<or> k = ''max'' \<and> (\<exists>n. atoi v = Some n \<and> 1 \<le> n)
      \<or> k = ''queue'' \<and> match_queue_name v
      \<or> k = ''priority'' \<and> (\<exists>n. atoi v = Some n)
      \<or> k = ''jobKey'')"

definition option_set :: "string \<times> string list \<Rightarrow> cron_item_options \<times> string \<Rightarrow> cron_item_options \<times> string" where
  "option_set kv st =
     (let k = fst kv; v = hd (snd kv); o' = fst st; i = snd st in
      if k = ''id'' then (o', v)
      else if k = ''fill'' then
        (o'\<lparr>backfill_period := (case parse_time_phrase v of Inr d \<Rightarrow> d | Inl _ \<Rightarrow> 0), backfill := True\<rparr>, i)
      else if k = ''max'' then (o'\<lparr>cio_max_attempts := atoi v\<rparr>, i)
      else if k = ''queue'' then (o'\<lparr>cio_queue_name := v\<rparr>, i)
      else if k = ''priority'' then (o'\<lparr>cio_priority := atoi v\<rparr>, i)
      else if k = ''jobKey'' then (o'\<lparr>cio_job_key := v\<rparr>, i) else st)"

lemma apply_option_iff:
  "apply_option n kv st = Inr st' \<longleftrightarrow> option_ok kv \<and> st' = option_set kv st"
  by (auto simp: apply_option_def option_ok_def option_set_def Let_def split: option.splits if_splits)

lemma apply_options_iff:
  "apply_options n kvs st = Inr st' \<longleftrightarrow> list_all option_ok kvs \<and> st' = fold option_set kvs st"
  by (induction kvs arbitrary: st) (auto simp: apply_option_iff)

lemma option_set_commute:
  "fst kv \<noteq> fst kv' \<Longrightarrow> option_set kv (option_set kv' st) = option_set kv' (option_set kv st)"
  by (cases "fst kv = ''id''"; cases "fst kv' = ''id''") (auto simp: option_set_def Let_def)

lemma keys_add_value: "fst ` set (add_value k v m) = insert k (fst ` set m)"
  by (induction k v m rule: add_value.induct) auto

lemma distinct_add_value: "distinct (map fst m) \<Longrightarrow> distinct (map fst (add_value k v m))"
  by (induction k v m rule: add_value.induct) (auto simp: keys_add_value)

lemma parse_query_distinct: "parse_query s = Some m \<Longrightarrow> distinct (map fst m)"
proof -
  have "distinct (map fst (fold (\<lambda>(k, v). add_value k v) kvs m))" if "distinct (map fst m)" for kvs m
    using that by (induction kvs arbitrary: m) (auto simp: distinct_add_value)
  then show "parse_query s = Some m \<Longrightarrow> distinct (map fst m)" by (auto simp: parse_query_def)
qed

lemma apply_options_perm:
  assumes "distinct (map fst m)" "mset xs = mset m"
  shows "apply_options n xs st = Inr st' \<longleftrightarrow> apply_options n m st = Inr st'"
proof -
  have "fold option_set m = fold option_set xs"
  proof (rule fold_multiset_equiv)
    fix x y assume "x \<in> set m" "y \<in> set m"
    with assms(1) have "x = y \<or> fst x \<noteq> fst y" by (metis distinct_map inj_on_eq_iff)
    then show "option_set x \<circ> option_set y = option_set y \<circ> option_set x"
      by (auto intro!: ext option_set_commute)
  qed (simp add: assms(2))
  moreover have "set xs = set m" using assms(2) by (metis set_mset_mset)
  ultimately show ?thesis by (auto simp: apply_options_iff list_all_iff)
qed

text \<open>
  Go visits the option map in an unspecified order; whether a line's options are accepted,
  and the options and identifier that result, are the same for every order.
\<close>

theorem options_order_independent:
  assumes "\<And>n xs. mset (ord n xs) = mset xs" "\<And>n xs. mset (ord' n xs) = mset xs"
  shows "parse_crontab_options ord n s = Inr r \<longleftrightarrow> parse_crontab_options ord' n s = Inr r"
proof (cases "parse_query s")
  case (Some m)
  then have "distinct (map fst m)" by (rule parse_query_distinct)
  with Some show ?thesis
    using apply_options_perm [of m "ord n m"] apply_options_perm [of m "ord' n m"] assms
    by (simp add: parse_crontab_options_def)
qed (simp add: parse_crontab_options_def)

lemma options_in_list_order:
  "parse_crontab_options (\<lambda>n xs. xs) 1 ''fill=1h&id=x&max=3''
     = Inr (no_options\<lparr>backfill_period := 3600000000000, backfill := True,
              cio_max_attempts := Some 3\<rparr>, ''x'')"
  by code_simp

lemma options_order_independent_witness:
  "parse_crontab_options (\<lambda>n xs. rev xs) 1 ''fill=1h&id=x&max=3''
     = Inr (no_options\<lparr>backfill_period := 3600000000000, backfill := True,
              cio_max_attempts := Some 3\<rparr>, ''x'')"
proof -
  have "parse_crontab_options (\<lambda>n xs. xs) 1 ''fill=1h&id=x&max=3''
     = Inr (no_options\<lparr>backfill_period := 3600000000000, backfill := True,
              cio_max_attempts := Some 3\<rparr>, ''x'')" by code_simp
  then show ?thesis
    by (subst options_order_independent [where ord = "\<lambda>n xs. rev xs" and ord' = "\<lambda>n xs. xs"]) simp_all
qed

section \<open>The five fields\<close>

definition field_set :: "int \<Rightarrow> int \<Rightarrow> bool \<Rightarrow> string \<Rightarrow> int set" where
  "field_set mn mx wrp s = (\<Union>p \<in> parts_of s. shape_values mn mx wrp (part_shape_of p))"

definition field_ok :: "int \<Rightarrow> int \<Rightarrow> bool \<Rightarrow> string \<Rightarrow> bool" where
  "field_ok mn mx wrp s \<longleftrightarrow> (\<forall>p \<in> parts_of s. shape_ok mn mx wrp (part_shape_of p))"

definition no_huge_step :: "string \<Rightarrow> bool" where
  "no_huge_step s \<longleftrightarrow> (\<forall>p \<in> parts_of s. part_shape_of p \<noteq> AStep max_int64)"

lemma part_shape_range: "part_shape_of p = AStep k \<Longrightarrow> k \<le> max_int64"
proof -
  assume "part_shape_of p = AStep k"
  then have "k = 1 \<or> (\<exists>s. atoi s = Some k)"
    by (auto simp: part_shape_of_def split: option.splits if_splits)
  then show ?thesis by (auto dest: atoi_range simp: max_int64_def)
qed

lemma step_fits_zero: "step_fits 0 (part_shape_of p)"
  by (cases "part_shape_of p") (auto dest: part_shape_range)

lemma step_fits_one: "part_shape_of p \<noteq> AStep max_int64 \<Longrightarrow> step_fits 1 (part_shape_of p)"
  by (cases "part_shape_of p") (auto dest!: part_shape_range)

lemma field_from_zero:
  assumes "field_bounds 0 mx"
  shows "parse_crontab_range f s 0 mx wrp = Some (Inr ns) \<longleftrightarrow>
           field_ok 0 mx wrp s \<and> ns = sorted_list_of_set (field_set 0 mx wrp s)"
  unfolding field_ok_def field_set_def
  by (rule crontab_range_iff [OF assms]) (simp add: step_fits_zero)

lemma field_from_one:
  assumes "field_bounds 1 mx" "no_huge_step s"
  shows "parse_crontab_range f s 1 mx wrp = Some (Inr ns) \<longleftrightarrow>
           field_ok 1 mx wrp s \<and> ns = sorted_list_of_set (field_set 1 mx wrp s)"
  unfolding field_ok_def field_set_def
  using assms(2) by (intro crontab_range_iff [OF assms(1)]) (auto simp: step_fits_one no_huge_step_def)

lemma shape_values_bounded:
  "shape_ok mn mx wrp sh \<Longrightarrow> shape_values mn mx wrp sh \<subseteq> {mn..mx}"
  by (cases sh) auto

lemma field_set_bounded: "field_ok mn mx wrp s \<Longrightarrow> field_set mn mx wrp s \<subseteq> {mn..mx}"
  unfolding field_ok_def field_set_def using shape_values_bounded by blast

lemma field_set_finite: "field_ok mn mx wrp s \<Longrightarrow> finite (field_set mn mx wrp s)"
  by (rule finite_subset [OF field_set_bounded]) auto

lemma contains_field:
  "field_ok mn mx wrp s \<Longrightarrow>
     contains (sorted_list_of_set (field_set mn mx wrp s)) v \<longleftrightarrow> v \<in> field_set mn mx wrp s"
  using field_set_finite by (auto simp: contains_def list_ex_iff)

lemma full_field:
  assumes "field_ok mn mx wrp s" "mn \<le> mx"
  shows "length (sorted_list_of_set (field_set mn mx wrp s)) = nat (mx - mn + 1) \<longleftrightarrow>
           field_set mn mx wrp s = {mn..mx}"
proof -
  have sub: "field_set mn mx wrp s \<subseteq> {mn..mx}" by (rule field_set_bounded [OF assms(1)])
  have "card (field_set mn mx wrp s) = card {mn..mx} \<longleftrightarrow> field_set mn mx wrp s = {mn..mx}"
    using card_subset_eq [OF _ sub] by auto
  then show ?thesis by (simp add: ac_simps)
qed

text \<open>What cron means by five fields, on the sets of values the fields denote.\<close>

definition cron_meaning ::
  "int set \<Rightarrow> int set \<Rightarrow> int set \<Rightarrow> int set \<Rightarrow> int set \<Rightarrow> timestamp_digest \<Rightarrow> bool" where
  "cron_meaning M H D Mo W td \<longleftrightarrow>
     td_minute td \<in> M \<and> td_hour td \<in> H \<and> td_month td \<in> Mo \<and>
     (if D = {1..31} then W = {0..6} \<or> td_dow td \<in> W
      else if W = {0..6} then td_date td \<in> D
      else td_date td \<in> D \<or> td_dow td \<in> W)"

lemma parse_time_fields_iff:
  assumes "no_huge_step (fs ! 2)" "no_huge_step (fs ! 3)"
  shows "parse_time_fields fs = Some (Inr (mi, h, d, mo, w)) \<longleftrightarrow>
     field_ok 0 59 False (fs ! 0) \<and> field_ok 0 23 False (fs ! 1) \<and> field_ok 1 31 False (fs ! 2) \<and>
     field_ok 1 12 False (fs ! 3) \<and> field_ok 0 6 True (fs ! 4) \<and>
     mi = sorted_list_of_set (field_set 0 59 False (fs ! 0)) \<and>
     h = sorted_list_of_set (field_set 0 23 False (fs ! 1)) \<and>
     d = sorted_list_of_set (field_set 1 31 False (fs ! 2)) \<and>
     mo = sorted_list_of_set (field_set 1 12 False (fs ! 3)) \<and>
     w = sorted_list_of_set (field_set 0 6 True (fs ! 4))"
proof -
  have b: "field_bounds 0 59" "field_bounds 0 23" "field_bounds 1 31" "field_bounds 1 12"
      "field_bounds 0 6"
    by (simp_all add: field_bounds_def max_int64_def)
  show ?thesis
    by (auto simp: parse_time_fields_def field_from_zero [OF b(1)] field_from_zero [OF b(2)]
          field_from_one [OF b(3) assms(1)] field_from_one [OF b(4) assms(2)] field_from_zero [OF b(5)])
qed

lemma array_matcher_meaning:
  assumes "field_ok 0 59 False a" "field_ok 0 23 False b" "field_ok 1 31 False c"
    "field_ok 1 12 False d" "field_ok 0 6 True e"
  shows "create_array_matcher (sorted_list_of_set (field_set 0 59 False a))
       (sorted_list_of_set (field_set 0 23 False b)) (sorted_list_of_set (field_set 1 31 False c))
       (sorted_list_of_set (field_set 1 12 False d)) (sorted_list_of_set (field_set 0 6 True e)) td
     = cron_meaning (field_set 0 59 False a) (field_set 0 23 False b) (field_set 1 31 False c)
         (field_set 1 12 False d) (field_set 0 6 True e) td"
proof -
  have "length (sorted_list_of_set (field_set 1 31 False c)) = 31 \<longleftrightarrow> field_set 1 31 False c = {1..31}"
    using full_field [OF assms(3)] by simp
  moreover have "length (sorted_list_of_set (field_set 0 6 True e)) = 7 \<longleftrightarrow> field_set 0 6 True e = {0..6}"
    using full_field [OF assms(5)] by simp
  ultimately show ?thesis
    using assms by (simp add: create_array_matcher_def cron_meaning_def contains_field Let_def)
qed

lemma line_matcher:
  assumes "match_line line = Some ([mi, h, d, mo, w], task, opts, payload)"
    and "no_huge_step d" "no_huge_step mo"
    and "parse_crontab_line json ord line n = Some (Inr item)"
  shows "\<exists>f. pci_match item = Some f \<and>
    (\<forall>td. f td \<longleftrightarrow> cron_meaning (field_set 0 59 False mi) (field_set 0 23 False h)
                   (field_set 1 31 False d) (field_set 1 12 False mo) (field_set 0 6 True w) td)"
  using assms parse_time_fields_iff [of "[mi, h, d, mo, w]"]
  by (auto simp: parse_crontab_line_def Let_def array_matcher_meaning)

text \<open>
  C13: the matcher of a parsed crontab line accepts exactly the digests cron assigns to the sets
  its five fields denote, the rule for the day fields included: when both are restricted,
  either may match.
\<close>

theorem parsed_line_matches:
  assumes "match_line line = Some ([mi, h, d, mo, w], task, opts, payload)"
    and "no_huge_step d" "no_huge_step mo"
    and "parse_crontab_line json ord line n = Some (Inr item)"
  shows "\<exists>f. pci_match item = Some f \<and>
    (\<forall>td. f td \<longleftrightarrow> cron_meaning (field_set 0 59 False mi) (field_set 0 23 False h)
                   (field_set 1 31 False d) (field_set 1 12 False mo) (field_set 0 6 True w) td)"
  by (rule line_matcher [OF assms])

lemma parsed_line_matches_witness:
  "\<exists>item f. parse_crontab_line (\<lambda>_. None) (\<lambda>_ xs. xs) ''0 4 1-3 * 1 backup'' 1 = Some (Inr item) \<and>
     pci_match item = Some f \<and>
     (\<forall>td. f td \<longleftrightarrow> cron_meaning (field_set 0 59 False ''0'') (field_set 0 23 False ''4'')
            (field_set 1 31 False ''1-3'') (field_set 1 12 False ''*'') (field_set 0 6 True ''1'') td)"
proof -
  have m: "match_line ''0 4 1-3 * 1 backup'' = Some ([''0'', ''4'', ''1-3'', ''*'', ''1''], ''backup'', [], [])"
    by code_simp
  have "parse_time_fields [''0'', ''4'', ''1-3'', ''*'', ''1'']
      = Some (Inr ([0], [4], [1, 2, 3], [1, 2, 3, 4, 5, 6, 7, 8, 9, 10, 11, 12], [1]))"
    by code_simp
  then obtain item where
    i: "parse_crontab_line (\<lambda>_. None) (\<lambda>_ xs. xs) ''0 4 1-3 * 1 backup'' 1 = Some (Inr item)"
    by (simp add: parse_crontab_line_def m parse_crontab_options_def parse_crontab_payload_def Let_def)
  have "parts_of ''1-3'' = {''1-3''}" "parts_of ''*'' = {''*''}"
    "part_shape_of ''1-3'' = ARange 1 3" "part_shape_of ''*'' = AStep 1" by code_simp+
  then have "no_huge_step ''1-3''" "no_huge_step ''*''"
    by (simp_all add: no_huge_step_def max_int64_def)
  from parsed_line_matches [OF m this i] i show ?thesis by blast
qed

section \<open>Patterns and lines\<close>

lemma parse_part_field:
  "parse_part f mn mx wrp p acc = Some (Inr ns) \<longleftrightarrow> parse_part f' mn mx wrp p acc = Some (Inr ns)"
  by (simp add: parse_part_def Let_def split: option.splits)

lemma parse_parts_field:
  "parse_parts f mn mx wrp ps acc = Some (Inr ns) \<longleftrightarrow> parse_parts f' mn mx wrp ps acc = Some (Inr ns)"
proof (induction ps arbitrary: acc)
  case (Cons p ps)
  then show ?case using parse_part_field [of f mn mx wrp "trim_space p" acc _ f'] by simp
qed simp

lemma parse_range_field:
  "parse_crontab_range f s mn mx wrp = Some (Inr ns) \<longleftrightarrow>
   parse_crontab_range f' s mn mx wrp = Some (Inr ns)"
  unfolding parse_crontab_range_def then_run_ok
  by (simp add: parse_parts_field [of f mn mx wrp _ _ _ f'])

lemma five_fields:
  assumes "length fs = 5"
  obtains a b c d e where "fs = [a, b, c, d, e]"
  using assms by (auto simp: numeral_eq_Suc length_Suc_conv)

text \<open>The first pass over the fields accepts what the second pass will accept.\<close>

lemma validate_fields_ok:
  assumes "parse_time_fields fs = Some (Inr q)" "length fs = 5"
  shows "validate_fields pattern_fields fs = Some (Inr ())"
proof -
  obtain a b c d e where fs: "fs = [a, b, c, d, e]" using five_fields [OF assms(2)] .
  from assms(1) obtain mi h da mo w where
    "parse_crontab_range ''minute field'' a 0 59 False = Some (Inr mi)"
    "parse_crontab_range ''hour field'' b 0 23 False = Some (Inr h)"
    "parse_crontab_range ''date field'' c 1 31 False = Some (Inr da)"
    "parse_crontab_range ''month field'' d 1 12 False = Some (Inr mo)"
    "parse_crontab_range ''dow field'' e 0 6 True = Some (Inr w)"
    by (auto simp: parse_time_fields_def fs parse_range_field [of "''minute field''" _ _ _ _ _ "''minute''"]
        parse_range_field [of "''hour field''" _ _ _ _ _ "''hour''"]
        parse_range_field [of "''date field''" _ _ _ _ _ "''date''"]
        parse_range_field [of "''month field''" _ _ _ _ _ "''month''"]
        parse_range_field [of "''dow field''" _ _ _ _ _ "''dow''"])
  then show ?thesis by (simp add: fs pattern_fields_def)
qed

lemma parse_pattern_iff:
  "parse_pattern m = Some (Inr q) \<longleftrightarrow>
     (\<exists>fs. match_time m = Some fs \<and> parse_time_fields fs = Some (Inr q))"
proof
  assume p: "parse_pattern m = Some (Inr q)"
  then obtain fs where fs: "match_time m = Some fs" "parse_time_fields (str_fields m) = Some (Inr q)"
    by (auto simp: parse_pattern_def validate_pattern_def split: if_splits)
  with match_time_fields [OF fs(1)]
  show "\<exists>fs. match_time m = Some fs \<and> parse_time_fields fs = Some (Inr q)" by auto
next
  assume "\<exists>fs. match_time m = Some fs \<and> parse_time_fields fs = Some (Inr q)"
  then obtain fs where fs: "match_time m = Some fs" "parse_time_fields fs = Some (Inr q)" by blast
  with match_time_fields [OF fs(1)] validate_fields_ok [OF fs(2)]
  show "parse_pattern m = Some (Inr q)" by (simp add: parse_pattern_def validate_pattern_def)
qed

lemma spaced_snoc:
  "length fs = length ws \<Longrightarrow> spaced (fs @ [f]) (ws @ [w]) = spaced fs ws @ f @ w"
  by (induction fs ws rule: list_induct2) auto

lemma match_line_of_pattern:
  assumes "match_time pattern = Some fs" "task_name task"
  shows "match_line (pattern @ CHR '' '' # task) = Some (fs, task, [], [])"
proof -
  from assms(1) obtain gs g where g: "scan_spaced 4 pattern = Some (gs, g)" "time_field g"
      "fs = gs @ [g]"
    by (auto simp: match_time_def time_field_def split: option.splits if_splits)
  from scan_spaced_sound [OF g(1)] obtain ws where ws:
      "length gs = 4" "length ws = 4" "list_all time_field gs" "list_all spaces ws"
      "pattern = spaced gs ws @ g" by blast
  have "spaces '' ''" by (simp add: spaces_def re_space_def cval_def)
  moreover have "pattern @ CHR '' '' # task = spaced fs (ws @ ['' '']) @ task"
    using ws g(3) by (simp add: spaced_snoc)
  moreover have "tail_form [] [] []" by (simp add: tail_form_def payload_form_def)
  ultimately have "line_form fs task [] [] (pattern @ CHR '' '' # task)"
    unfolding line_form_def using ws g assms(2)
    by (intro exI [of _ "ws @ ['' '']"] exI [of _ "[]"]) auto
  then show ?thesis by (simp add: match_line_form)
qed

definition plain_item :: "string \<Rightarrow> string \<Rightarrow> cron_item" where
  "plain_item pattern task =
     \<lparr>ci_task = task, ci_match = MatchNil, ci_pattern = pattern, ci_identifier = [],
      ci_options = no_options, ci_payload = None\<rparr>"

lemma match_time_nonempty: "match_time pattern = Some fs \<Longrightarrow> pattern \<noteq> []"
  by (auto simp: match_time_def numeral_eq_Suc split: option.splits)

text \<open>
  C32: a configured item with a pattern and the crontab line made of that pattern and the task
  parse to the same item (identifier, fields, matcher and job), although the item's pattern goes
  through another expression, is split by \<open>strings.Fields\<close> and is parsed twice.
\<close>

theorem item_parses_as_line:
  assumes "match_time pattern = Some fs" "task_name task"
  shows "parse_cron_item (plain_item pattern task) i = Some (Inr item) \<longleftrightarrow>
         parse_crontab_line json ord (pattern @ CHR '' '' # task) n = Some (Inr item)"
proof -
  have "pattern \<noteq> []" using assms(1) by (rule match_time_nonempty)
  then show ?thesis
    using assms(1)
    by (auto simp: parse_cron_item_def plain_item_def parse_crontab_line_def parse_pattern_iff
          match_line_of_pattern [OF assms] parse_crontab_options_def parse_crontab_payload_def Let_def)
qed

lemma item_parses_as_line_witness:
  "parse_cron_item (plain_item ''*/9 0 1 1 0'' ''t'') 0 =
   parse_crontab_line (\<lambda>_. None) (\<lambda>_ xs. xs) ''*/9 0 1 1 0 t'' 1"
proof -
  have m: "match_time ''*/9 0 1 1 0'' = Some [''*/9'', ''0'', ''1'', ''1'', ''0'']" by code_simp
  moreover have "task_name ''t''" by code_simp
  ultimately have "parse_cron_item (plain_item ''*/9 0 1 1 0'' ''t'') 0 = Some (Inr item) \<longleftrightarrow>
     parse_crontab_line (\<lambda>_. None) (\<lambda>_ xs. xs) (''*/9 0 1 1 0'' @ CHR '' '' # ''t'') 1 = Some (Inr item)"
    for item by (rule item_parses_as_line)
  moreover have "parse_time_fields [''*/9'', ''0'', ''1'', ''1'', ''0'']
      = Some (Inr ([0, 9, 18, 27, 36, 45, 54], [0], [1], [1], [0]))" by code_simp
  then have "\<exists>item. parse_cron_item (plain_item ''*/9 0 1 1 0'' ''t'') 0 = Some (Inr item)"
    using m by (simp add: parse_cron_item_def plain_item_def parse_pattern_iff Let_def
      split: option.splits)
  ultimately show ?thesis by auto
qed

section \<open>Whole crontabs\<close>

text \<open>The lines that count, trimmed and with their numbers.\<close>

definition entry_lines :: "int \<Rightarrow> string list \<Rightarrow> (int \<times> string) list" where
  "entry_lines n ls =
     filter (\<lambda>(i, l). \<not> skip_line l) (zip [n + 1..n + int (length ls)] (map trim_space ls))"

lemma entry_lines_Cons:
  "entry_lines n (l # ls) =
     (if skip_line (trim_space l) then entry_lines (n + 1) ls
      else (n + 1, trim_space l) # entry_lines (n + 1) ls)"
  by (simp add: entry_lines_def upto_rec1 algebra_simps)

lemma parse_lines_iff:
  "parse_lines json ord n ls = Some (Inr items) \<longleftrightarrow>
     list_all2 (\<lambda>(i, line) item. parse_crontab_line json ord line i = Some (Inr item))
       (entry_lines n ls) items"
proof (induction ls arbitrary: n items)
  case Nil
  then show ?case by (auto simp: entry_lines_def)
next
  case (Cons l ls)
  then show ?case
    by (cases items) (auto simp: entry_lines_Cons Let_def)
qed

lemma set_duplicates: "set (duplicates seen xs) \<subseteq> set xs"
  by (induction seen xs rule: duplicates.induct) auto

lemma duplicates_none: "duplicates seen xs = [] \<longleftrightarrow> distinct xs \<and> set xs \<inter> set seen = {}"
  by (induction seen xs rule: duplicates.induct) auto

lemma parse_crontab_iff:
  "parse_crontab json ord crontab = Some (Inr items) \<longleftrightarrow>
     list_all2 (\<lambda>(i, line) item. parse_crontab_line json ord line i = Some (Inr item))
       (entry_lines 0 (split_on (CHR 0x0A) crontab)) items
     \<and> distinct (map pci_identifier items)"
  by (auto simp: parse_crontab_def parse_lines_iff validate_unique_identifiers_def duplicates_none
           Let_def split: if_splits)

text \<open>
  C31: a crontab parses to some items exactly when its lines, blank lines and comments left out,
  parse to those items one by one and in order, and the identifiers are pairwise different.
\<close>

theorem crontab_parses_by_lines:
  "parse_crontab json ord crontab = Some (Inr items) \<longleftrightarrow>
     list_all2 (\<lambda>(i, line) item. parse_crontab_line json ord line i = Some (Inr item))
       (entry_lines 0 (split_on (CHR 0x0A) crontab)) items
     \<and> distinct (map pci_identifier items)"
  by (rule parse_crontab_iff)

end
