(* ===== verification/Cron_Matcher.thy ===== *)
theory Cron_Matcher
  imports Cron_Parser_Facts
begin

text \<open>
  Matching a time against a cron item (pkg/cron/matcher.go) and the matcher builder
  (pkg/cron/matcher_builder.go).

  A \<open>time.Time\<close> is its number of nanoseconds since 1 January 1970 UTC.  Its location is the
  offset from UTC, in nanoseconds, at each instant, an argument of the definitions that read the
  clock face.  The calendar of package \<open>time\<close> is written out.
\<close>

section \<open>The calendar\<close>

definition ns_minute :: int where "ns_minute = 60000000000"
definition ns_hour :: int where "ns_hour = 3600000000000"
definition ns_day :: int where "ns_day = 86400000000000"

type_synonym location = "int \<Rightarrow> int"

definition utc :: location where "utc t = 0"

definition leap_year :: "int \<Rightarrow> bool" where
  "leap_year y \<longleftrightarrow> y mod 4 = 0 \<and> (y mod 100 \<noteq> 0 \<or> y mod 400 = 0)"

definition month_lengths :: "int \<Rightarrow> int list" where
  "month_lengths y =
     [31, (if leap_year y then 29 else 28), 31, 30, 31, 30, 31, 31, 30, 31, 30, 31]"

text \<open>Month and day from the day of the year, counting the months off.\<close>

fun walk_months :: "int \<Rightarrow> int \<Rightarrow> int list \<Rightarrow> int \<times> int" where
  "walk_months m d [] = (m, d + 1)"
| "walk_months m d [l] = (m, d + 1)"
| "walk_months m d (l # l' # ls) = (if d < l then (m, d + 1) else walk_months (m + 1) (d - l) (l' # ls))"

text \<open>
  Year and day of the year from the days since 1 January of year 1, by 400-, 100-, 4- and
  1-year cycles.  1 January 1970 is day 719162.
\<close>

definition year_day :: "int \<Rightarrow> int \<times> int" where
  "year_day days =
     (let n400 = days div 146097; d400 = days mod 146097;
          n100 = min 3 (d400 div 36524); d100 = d400 - 36524 * n100;
          n4 = d100 div 1461; d4 = d100 mod 1461;
          n1 = min 3 (d4 div 365); d1 = d4 - 365 * n1
      in (400 * n400 + 100 * n100 + 4 * n4 + n1 + 1, d1))"

definition local_days :: "location \<Rightarrow> int \<Rightarrow> int" where
  "local_days loc t = (t + loc t) div ns_day"

definition civil :: "location \<Rightarrow> int \<Rightarrow> int \<times> int \<times> int" where
  "civil loc t =
     (let (y, yd) = year_day (local_days loc t + 719162); (m, d) = walk_months 1 yd (month_lengths y)
      in (y, m, d))"

definition time_minute :: "location \<Rightarrow> int \<Rightarrow> int" where
  "time_minute loc t = (t + loc t) mod ns_hour div ns_minute"

definition time_hour :: "location \<Rightarrow> int \<Rightarrow> int" where
  "time_hour loc t = (t + loc t) mod ns_day div ns_hour"

definition time_weekday :: "location \<Rightarrow> int \<Rightarrow> int" where
  "time_weekday loc t = (local_days loc t + 4) mod 7"

text \<open>\<open>Truncate(time.Minute)\<close>: the epoch is a whole number of minutes after year 1.\<close>

definition truncate_minute :: "int \<Rightarrow> int" where
  "truncate_minute t = t - t mod ns_minute"

text \<open>\<open>time.Date\<close> in UTC for a month in range; a day past the end of the month runs over.\<close>

definition days_before_year :: "int \<Rightarrow> int" where
  "days_before_year y = 365 * (y - 1) + (y - 1) div 4 - (y - 1) div 100 + (y - 1) div 400"

definition utc_date :: "int \<Rightarrow> int \<Rightarrow> int \<Rightarrow> int \<Rightarrow> int \<Rightarrow> int" where
  "utc_date y m d h mi =
     (days_before_year y + sum_list (take (nat (m - 1)) (month_lengths y)) + d - 1 - 719162) * ns_day
       + h * ns_hour + mi * ns_minute"

section \<open>The matcher\<close>

definition digest_timestamp :: "location \<Rightarrow> int \<Rightarrow> timestamp_digest" where
  "digest_timestamp loc t =
     (case civil loc t of (y, m, d) \<Rightarrow>
        \<lparr>td_minute = time_minute loc t, td_hour = time_hour loc t, td_date = d, td_month = m,
         td_dow = time_weekday loc t\<rparr>)"

definition matches_legacy :: "location \<Rightarrow> parsed_cron_item \<Rightarrow> int \<Rightarrow> bool" where
  "matches_legacy loc item t =
     (let digest = digest_timestamp loc t in
      if \<not> contains (pci_minutes item) (td_minute digest) \<or>
         \<not> contains (pci_hours item) (td_hour digest) \<or>
         \<not> contains (pci_months item) (td_month digest)
      then False
      else
        (let date_excl = length (pci_dates item) \<noteq> 31; dow_excl = length (pci_dows item) \<noteq> 7 in
         if date_excl \<and> dow_excl then
           contains (pci_dates item) (td_date digest) \<or> contains (pci_dows item) (td_dow digest)
         else if date_excl then contains (pci_dates item) (td_date digest)
         else if dow_excl then contains (pci_dows item) (td_dow digest)
         else True))"

definition matches :: "location \<Rightarrow> parsed_cron_item \<Rightarrow> int \<Rightarrow> bool" where
  "matches loc item t =
     (if \<not> is_parsed item then False
      else case pci_match item of
        Some f \<Rightarrow> f (digest_timestamp loc t)
      | None \<Rightarrow> matches_legacy loc item t)"

function schedule_loop :: "location \<Rightarrow> parsed_cron_item \<Rightarrow> int \<Rightarrow> int \<Rightarrow> int list" where
  "schedule_loop loc item current fin =
     (if current < fin then
        (if matches loc item current then [current] else [])
          @ schedule_loop loc item (current + ns_minute) fin
      else [])"
  by pat_completeness auto
termination
  by (relation "measure (\<lambda>(_, _, c, f). nat (f - c))") (auto simp: ns_minute_def)

declare schedule_loop.simps [simp del]

definition schedule_times_in_range :: "location \<Rightarrow> parsed_cron_item \<Rightarrow> int \<Rightarrow> int \<Rightarrow> int list" where
  "schedule_times_in_range loc item start fin = schedule_loop loc item (truncate_minute start) fin"

section \<open>The builder\<close>

definition create_pattern_matcher :: "string \<Rightarrow> (parse_error, cron_matcher option) outcome" where
  "create_pattern_matcher pattern =
     (case parse_cron_item_public
         \<lparr>ci_task = ''temp'', ci_match = MatchString pattern, ci_pattern = [], ci_identifier = [],
          ci_options = no_options, ci_payload = None\<rparr> of
        None \<Rightarrow> None
      | Some (Inl e) \<Rightarrow> Some (Inl (PatternMatcherFailed e))
      | Some (Inr item) \<Rightarrow> Some (Inr (pci_match item)))"

definition create_custom_matcher :: "(timestamp_digest \<Rightarrow> bool) \<Rightarrow> cron_matcher" where
  "create_custom_matcher f = f"

definition create_every_minute_matcher :: cron_matcher where
  "create_every_minute_matcher digest = True"

definition create_hourly_matcher :: "int \<Rightarrow> cron_matcher" where
  "create_hourly_matcher minute =
     (if minute < 0 \<or> minute > 59 then (\<lambda>digest. False) else (\<lambda>digest. td_minute digest = minute))"

definition create_daily_matcher :: "int \<Rightarrow> int \<Rightarrow> cron_matcher" where
  "create_daily_matcher hour minute =
     (if hour < 0 \<or> hour > 23 \<or> minute < 0 \<or> minute > 59 then (\<lambda>digest. False)
      else (\<lambda>digest. td_hour digest = hour \<and> td_minute digest = minute))"

definition create_weekly_matcher :: "int \<Rightarrow> int \<Rightarrow> int \<Rightarrow> cron_matcher" where
  "create_weekly_matcher weekday hour minute =
     (if hour < 0 \<or> hour > 23 \<or> minute < 0 \<or> minute > 59 then (\<lambda>digest. False)
      else (\<lambda>digest. td_dow digest = weekday \<and> td_hour digest = hour \<and> td_minute digest = minute))"

definition create_monthly_matcher :: "int \<Rightarrow> int \<Rightarrow> int \<Rightarrow> cron_matcher" where
  "create_monthly_matcher day hour minute =
     (if day < 1 \<or> day > 31 \<or> hour < 0 \<or> hour > 23 \<or> minute < 0 \<or> minute > 59
      then (\<lambda>digest. False)
      else (\<lambda>digest. td_date digest = day \<and> td_hour digest = hour \<and> td_minute digest = minute))"

definition create_business_hours_matcher :: "int \<Rightarrow> cron_matcher" where
  "create_business_hours_matcher minute =
     (if minute < 0 \<or> minute > 59 then (\<lambda>digest. False)
      else (\<lambda>digest.
        let is_weekday = td_dow digest \<ge> 1 \<and> td_dow digest \<le> 5;
            is_business_hour = td_hour digest \<ge> 9 \<and> td_hour digest \<le> 17;
            is_correct_minute = td_minute digest = minute
        in is_weekday \<and> is_business_hour \<and> is_correct_minute))"

text \<open>\<open>now\<close> is the reading of \<open>time.Now()\<close>; only its year, in the local zone, is used.\<close>

definition create_conditional_matcher ::
  "location \<Rightarrow> int \<Rightarrow> (int \<Rightarrow> timestamp_digest \<Rightarrow> bool) \<Rightarrow> cron_matcher" where
  "create_conditional_matcher loc now condition digest =
     (let t = utc_date (fst (civil loc now)) (td_month digest) (td_date digest) (td_hour digest)
                (td_minute digest)
      in condition t digest)"

section \<open>Digests are within the bounds of the fields\<close>

definition digest_ok :: "timestamp_digest \<Rightarrow> bool" where
  "digest_ok td \<longleftrightarrow> td_minute td \<in> {0..59} \<and> td_hour td \<in> {0..23} \<and> td_date td \<in> {1..31} \<and>
     td_month td \<in> {1..12} \<and> td_dow td \<in> {0..6}"

text \<open>A cycle cut back to at most three whole periods: what the 100-year and 1-year cycles do.\<close>

lemma cut_cycle:
  fixes d p q :: int
  assumes "0 \<le> d" "d < 4 * p + 1" "0 < p" "q = d - p * min 3 (d div p)"
  shows "0 \<le> q" "q \<le> p" "q = p \<Longrightarrow> min 3 (d div p) = 3" "0 \<le> min 3 (d div p)"
proof -
  have dm: "d = p * (d div p) + d mod p" by simp
  have r: "0 \<le> d mod p" "d mod p < p" using assms(3) by simp_all
  have nn: "0 \<le> d div p" using assms(1,3) by (simp add: pos_imp_zdiv_nonneg_iff)
  show "0 \<le> min 3 (d div p)" using nn by simp
  have "0 \<le> q \<and> q \<le> p \<and> (q = p \<longrightarrow> min 3 (d div p) = 3)"
  proof (cases "d div p < 3")
    case True
    then have "q = d mod p" using assms(4) by (simp add: minus_mult_div_eq_mod)
    then show ?thesis using r by simp
  next
    case False
    then have "p * 3 \<le> p * (d div p)" using assms(3) by (intro mult_left_mono) simp_all
    then have "p * 3 \<le> d" using dm r by linarith
    moreover have "q = d - p * 3" using False assms(4) by (simp add: min_def)
    ultimately show ?thesis using assms(2) False by auto
  qed
  then show "0 \<le> q" "q \<le> p" "q = p \<Longrightarrow> min 3 (d div p) = 3" by auto
qed

lemma year_day_bounds:
  assumes "year_day days = (y, yd)"
  shows "0 \<le> yd \<and> yd \<le> 365"
proof -
  define d4 where
    "d4 = (days mod 146097 - 36524 * min 3 (days mod 146097 div 36524)) mod 1461"
  have "0 \<le> d4" "d4 < 4 * 365 + 1" unfolding d4_def by simp_all
  moreover have "yd = d4 - 365 * min 3 (d4 div 365)"
    using assms unfolding year_day_def Let_def d4_def by simp
  ultimately show ?thesis using cut_cycle [of d4 365 yd] by simp
qed

lemma walk_months_bounds:
  assumes "0 \<le> yd" "yd \<le> 365" "walk_months 1 yd (month_lengths y) = (m, d)"
    and "yd = 365 \<longrightarrow> leap_year y"
  shows "1 \<le> m \<and> m \<le> 12 \<and> 1 \<le> d \<and> d \<le> 31"
  using assms by (auto simp: month_lengths_def split: if_splits)

text \<open>Day 366 exists only in a leap year: the cycles of the calendar and the leap rule agree.\<close>

lemma year_day_leap:
  assumes "year_day days = (y, 365)"
  shows "leap_year y"
proof -
  define d400 where "d400 = days mod 146097"
  define n100 where "n100 = min 3 (d400 div 36524)"
  define d100 where "d100 = d400 - 36524 * n100"
  define n4 where "n4 = d100 div 1461"
  define d4 where "d4 = d100 mod 1461"
  define n1 where "n1 = min 3 (d4 div 365)"
  have eq: "365 = d4 - 365 * n1"
      "y = 400 * (days div 146097) + 100 * n100 + 4 * n4 + n1 + 1"
    using assms unfolding year_day_def Let_def d400_def n100_def d100_def n4_def d4_def n1_def by auto
  have "0 \<le> d400" "d400 < 4 * 36524 + 1" unfolding d400_def by simp_all
  note n = cut_cycle [OF this _ d100_def [unfolded n100_def], folded n100_def, simplified]
  have "0 \<le> d4" "d4 < 4 * 365 + 1" unfolding d4_def by simp_all
  note one = cut_cycle [OF this _ eq(1) [unfolded n1_def], folded n1_def, simplified]
  have c: "d100 = 1461 * n4 + d4" unfolding n4_def d4_def by simp
  have "d4 = 1460" using eq(1) one by simp
  then have "n4 \<le> 24" "0 \<le> n4" "n4 = 24 \<longrightarrow> n100 = 3" using n c by auto
  then consider "n4 \<le> 23" "0 \<le> n4" | "n4 = 24" "n100 = 3" by linarith
  then show ?thesis
  proof cases
    case 1
    have y: "y = 100 * (4 * (days div 146097) + n100) + 4 * (n4 + 1)" using eq(2) one by simp
    have "y mod 100 = (4 * (n4 + 1)) mod 100" unfolding y by (rule mod_mult_self4)
    also have "\<dots> = 4 * (n4 + 1)" using 1 by simp
    finally have "y mod 100 \<noteq> 0" using 1 by simp
    moreover have "y = 4 * (100 * (days div 146097) + 25 * n100 + n4 + 1)" using y by simp
    then have "y mod 4 = 0" by simp
    ultimately show ?thesis by (simp add: leap_year_def)
  next
    case 2
    then have "y = 400 * (days div 146097 + 1)" using eq(2) one by simp
    moreover have "(400 * (days div 146097 + 1)) mod 4 = (4 * (100 * (days div 146097 + 1))) mod 4"
      by (simp only: mult.assoc [symmetric]) simp
    ultimately show ?thesis by (simp add: leap_year_def)
  qed
qed

lemma mod_div_range:
  fixes x a b :: int
  assumes "0 < a" "0 < b"
  shows "0 \<le> x mod (a * b) div b \<and> x mod (a * b) div b < a"
proof
  have r: "0 \<le> x mod (a * b)" "x mod (a * b) < a * b" using assms by simp_all
  then show "0 \<le> x mod (a * b) div b" using assms(2) by (simp add: div_int_pos_iff)
  have "x mod (a * b) div b * b \<le> x mod (a * b)"
    using assms(2) div_mult_mod_eq [of "x mod (a * b)" b] pos_mod_sign [of b "x mod (a * b)"] by linarith
  with r(2) have "x mod (a * b) div b * b < a * b" by linarith
  then show "x mod (a * b) div b < a" using assms(2) by simp
qed

lemma digest_timestamp_ok: "digest_ok (digest_timestamp loc t)"
proof -
  obtain y yd where y: "year_day (local_days loc t + 719162) = (y, yd)" by (metis surj_pair)
  obtain m d where md: "walk_months 1 yd (month_lengths y) = (m, d)" by (metis surj_pair)
  have "1 \<le> m \<and> m \<le> 12 \<and> 1 \<le> d \<and> d \<le> 31"
    using walk_months_bounds [OF _ _ md] year_day_bounds [OF y] year_day_leap y by blast
  moreover have "0 \<le> time_minute loc t" "time_minute loc t \<le> 59"
    using mod_div_range [of 60 ns_minute "t + loc t"]
    by (simp_all add: time_minute_def ns_hour_def ns_minute_def)
  moreover have "0 \<le> time_hour loc t" "time_hour loc t \<le> 23"
    using mod_div_range [of 24 ns_hour "t + loc t"]
    by (simp_all add: time_hour_def ns_hour_def ns_day_def)
  moreover have "0 \<le> time_weekday loc t" "time_weekday loc t \<le> 6"
    using pos_mod_bound [of 7 "local_days loc t + 4"] by (simp_all add: time_weekday_def)
  ultimately show ?thesis
    by (simp add: digest_ok_def digest_timestamp_def civil_def y md)
qed

section \<open>The schedule of a range\<close>

text \<open>The minute grid from the start, rounded down, to the end.\<close>

definition minute_grid :: "int \<Rightarrow> int \<Rightarrow> int set" where
  "minute_grid start fin = {t. t mod ns_minute = 0 \<and> truncate_minute start \<le> t \<and> t < fin}"

lemma truncate_minute_mod: "truncate_minute t mod ns_minute = 0"
  by (simp add: truncate_minute_def minus_mod_eq_mult_div)

lemma grid_gap:
  fixes c t m :: int
  assumes "c mod m = 0" "t mod m = 0" "0 < m" "c \<le> t"
  shows "t = c \<or> c + m \<le> t"
proof -
  obtain a b where ab: "c = m * a" "t = m * b" using assms(1,2) by (metis dvdE mod_0_imp_dvd)
  then have "a \<le> b" using assms(3,4) by simp
  then have "a = b \<or> a + 1 \<le> b" by linarith
  then show ?thesis
  proof
    assume "a + 1 \<le> b"
    then have "m * (a + 1) \<le> m * b" using assms(3) by (intro mult_left_mono) simp_all
    then show ?thesis by (simp add: ab algebra_simps)
  qed (simp add: ab)
qed

lemma schedule_loop_spec:
  assumes "current mod ns_minute = 0"
  shows "sorted_wrt (<) (schedule_loop loc item current fin) \<and>
         set (schedule_loop loc item current fin) =
           {t. t mod ns_minute = 0 \<and> current \<le> t \<and> t < fin \<and> matches loc item t}"
  using assms
proof (induction loc item current fin rule: schedule_loop.induct)
  case (1 loc item current fin)
  show ?case
  proof (cases "current < fin")
    case False
    then show ?thesis by (subst (1 2) schedule_loop.simps) auto
  next
    case True
    have m: "(current + ns_minute) mod ns_minute = 0" using "1.prems" by simp
    have gap: "t = current \<or> current + ns_minute \<le> t"
      if "t mod ns_minute = 0" "current \<le> t" for t
      by (rule grid_gap [OF "1.prems" that(1) _ that(2)]) (simp add: ns_minute_def)
    have pos: "current < current + ns_minute" by (simp add: ns_minute_def)
    let ?rest = "schedule_loop loc item (current + ns_minute) fin"
    have IH: "sorted_wrt (<) ?rest" "set ?rest =
        {t. t mod ns_minute = 0 \<and> current + ns_minute \<le> t \<and> t < fin \<and> matches loc item t}"
      using "1.IH" [OF True m] by auto
    have eq: "schedule_loop loc item current fin =
        (if matches loc item current then [current] else []) @ ?rest"
      using True by (subst schedule_loop.simps) simp
    have after: "current < t" if "t \<in> set ?rest" for t using that IH(2) pos by simp
    have "sorted_wrt (<) (schedule_loop loc item current fin)"
      using IH(1) after by (auto simp: eq)
    moreover have "t \<in> set (schedule_loop loc item current fin) \<longleftrightarrow>
        t mod ns_minute = 0 \<and> current \<le> t \<and> t < fin \<and> matches loc item t" for t
    proof
      assume "t \<in> set (schedule_loop loc item current fin)"
      then consider "t = current" "matches loc item current" | "t \<in> set ?rest"
        by (auto simp: eq split: if_splits)
      then show "t mod ns_minute = 0 \<and> current \<le> t \<and> t < fin \<and> matches loc item t"
      proof cases
        case 1
        then show ?thesis using "1.prems" True by blast
      next
        case 2
        then have "t mod ns_minute = 0 \<and> current + ns_minute \<le> t \<and> t < fin \<and> matches loc item t"
          unfolding IH(2) by blast
        then show ?thesis using pos by linarith
      qed
    next
      assume t: "t mod ns_minute = 0 \<and> current \<le> t \<and> t < fin \<and> matches loc item t"
      then have "t mod ns_minute = 0" "current \<le> t" by blast+
      then have "t = current \<or> current + ns_minute \<le> t" by (rule gap)
      then show "t \<in> set (schedule_loop loc item current fin)"
      proof
        assume "t = current"
        then show ?thesis using t by (simp add: eq)
      next
        assume "current + ns_minute \<le> t"
        then have "t \<in> set ?rest" unfolding IH(2) using t by blast
        then show ?thesis by (simp add: eq)
      qed
    qed
    ultimately show ?thesis by (simp only: set_eq_iff mem_Collect_eq simp_thms)
  qed
qed

text \<open>
  C14: the schedule of a range is the increasing list of the minutes of the grid, from the
  minute that contains the start to the last one before the end, at which the item matches.
\<close>

theorem schedule_times_spec:
  "schedule_times_in_range loc item start fin =
     sorted_list_of_set {t \<in> minute_grid start fin. matches loc item t}"
proof -
  let ?l = "schedule_times_in_range loc item start fin"
  have "sorted_wrt (<) ?l" "set ?l = {t \<in> minute_grid start fin. matches loc item t}"
    using schedule_loop_spec [OF truncate_minute_mod, of loc item start fin]
    by (auto simp: schedule_times_in_range_def minute_grid_def)
  then show ?thesis by (metis sorted_list_of_set.idem_if_sorted_distinct strict_sorted_iff)
qed

section \<open>The builder against patterns\<close>

lemma no_comma_in_digits: "all_digits s \<Longrightarrow> CHR '','' \<notin> set s"
  by (auto simp: all_digits_def list_all_iff is_digit_def cval_def)

lemma trim_no_space: "\<forall>c \<in> set s. \<not> is_space c \<Longrightarrow> trim_space s = s"
  by (cases "s = []") (auto simp: trim_space_def dropWhile_stop hd_rev)

lemma digit_not_space: "is_digit c \<Longrightarrow> \<not> is_space c"
  by (auto simp: is_digit_def is_space_def)

lemma parts_of_number: "0 \<le> n \<Longrightarrow> parts_of (itoa n) = {itoa n}"
  using digits_of_all [of "nat n"] no_comma_in_digits
  by (auto simp: parts_of_def itoa_def split_one trim_no_space all_digits_def list_all_iff digit_not_space)

lemma shape_of_number: "0 \<le> n \<Longrightarrow> n \<le> max_int64 \<Longrightarrow> part_shape_of (itoa n) = ANumber n"
  using digits_of_all [of "nat n"]
  by (simp add: part_shape_of_def itoa_def atoi_digits dec_digits_of)

lemma number_field:
  assumes "0 \<le> mn" "mn \<le> n" "n \<le> mx" "mx \<le> 59"
  shows "field_set mn mx wrp (itoa n) = {n} \<and> field_ok mn mx wrp (itoa n) \<and> no_huge_step (itoa n)"
proof -
  have "part_shape_of (itoa n) = ANumber n" "parts_of (itoa n) = {itoa n}"
    using assms by (simp_all add: shape_of_number parts_of_number max_int64_def)
  then show ?thesis
    using assms by (auto simp: field_set_def field_ok_def no_huge_step_def wrapped_def)
qed

lemma star_field:
  "field_set mn mx wrp ''*'' = {mn..mx} \<and> field_ok mn mx wrp ''*'' \<and> no_huge_step ''*''"
proof -
  have "parts_of ''*'' = {''*''}" "part_shape_of ''*'' = AStep 1" by code_simp+
  then show ?thesis by (simp add: field_set_def field_ok_def no_huge_step_def max_int64_def set_eq_iff)
qed

definition join_fields :: "string list \<Rightarrow> string" where
  "join_fields fs = spaced (butlast fs) (replicate (length fs - 1) '' '') @ last fs"

lemma time_field_itoa: "0 \<le> n \<Longrightarrow> time_field (itoa n)"
  using digits_of_all [of "nat n"]
  by (auto simp: itoa_def time_field_def all_digits_def list_all_iff time_char_def)

lemma match_time_join:
  assumes "list_all time_field fs" "length fs = 5"
  shows "match_time (join_fields fs) = Some fs"
proof -
  obtain a b c d e where fs: "fs = [a, b, c, d, e]" using five_fields [OF assms(2)] .
  let ?ws = "['' '', '' '', '' '', '' '']"
  have e: "e \<noteq> []" "list_all time_char e" using assms(1) by (simp_all add: fs time_field_def)
  then have "\<not> re_space (hd e)" by (cases e) (auto simp: time_char_not_re_space)
  moreover have "spaces '' ''" by (simp add: spaces_def re_space_def cval_def)
  ultimately have "scan_spaced 4 (spaced [a, b, c, d] ?ws @ e) = Some ([a, b, c, d], e)"
    using assms(1) by (intro scan_spaced_complete) (simp_all add: fs list_all_iff)
  moreover have "join_fields fs = spaced [a, b, c, d] ?ws @ e" by (simp add: fs join_fields_def)
  ultimately show ?thesis using e by (simp only: match_time_def) (simp add: fs)
qed

text \<open>The matcher a pattern makes, on the digests of real times.\<close>

lemma pattern_matcher_meaning:
  assumes "list_all time_field [a, b, c, d, e]"
    and "field_ok 0 59 False a" "field_ok 0 23 False b" "field_ok 1 31 False c"
    and "field_ok 1 12 False d" "field_ok 0 6 True e" "no_huge_step c" "no_huge_step d"
  shows "\<exists>f. create_pattern_matcher (join_fields [a, b, c, d, e]) = Some (Inr (Some f)) \<and>
     (\<forall>td. f td \<longleftrightarrow> cron_meaning (field_set 0 59 False a) (field_set 0 23 False b)
        (field_set 1 31 False c) (field_set 1 12 False d) (field_set 0 6 True e) td)"
proof -
  have "match_time (join_fields [a, b, c, d, e]) = Some [a, b, c, d, e]"
    using match_time_join assms(1) by simp
  moreover obtain q where q: "parse_time_fields [a, b, c, d, e] = Some (Inr q)"
      "q = (sorted_list_of_set (field_set 0 59 False a), sorted_list_of_set (field_set 0 23 False b),
        sorted_list_of_set (field_set 1 31 False c), sorted_list_of_set (field_set 1 12 False d),
        sorted_list_of_set (field_set 0 6 True e))"
    using assms by (simp add: parse_time_fields_iff)
  ultimately have "parse_pattern (join_fields [a, b, c, d, e]) = Some (Inr q)"
    by (simp add: parse_pattern_iff)
  then show ?thesis
    using assms
    by (simp add: create_pattern_matcher_def parse_cron_item_public_def parse_cron_item_def q(2)
          array_matcher_meaning Let_def)
qed

definition hourly_pattern :: "int \<Rightarrow> string" where
  "hourly_pattern m = join_fields [itoa m, ''*'', ''*'', ''*'', ''*'']"
definition daily_pattern :: "int \<Rightarrow> int \<Rightarrow> string" where
  "daily_pattern h m = join_fields [itoa m, itoa h, ''*'', ''*'', ''*'']"
definition weekly_pattern :: "int \<Rightarrow> int \<Rightarrow> int \<Rightarrow> string" where
  "weekly_pattern w h m = join_fields [itoa m, itoa h, ''*'', ''*'', itoa w]"
definition monthly_pattern :: "int \<Rightarrow> int \<Rightarrow> int \<Rightarrow> string" where
  "monthly_pattern d h m = join_fields [itoa m, itoa h, itoa d, ''*'', ''*'']"

definition same_matcher :: "string \<Rightarrow> cron_matcher \<Rightarrow> bool" where
  "same_matcher pattern g \<longleftrightarrow>
     (\<exists>f. create_pattern_matcher pattern = Some (Inr (Some f)) \<and> (\<forall>loc t. f (digest_timestamp loc t) = g (digest_timestamp loc t)))"

lemma same_matcherI:
  assumes "list_all time_field [a, b, c, d, e]"
    and "field_ok 0 59 False a" "field_ok 0 23 False b" "field_ok 1 31 False c"
    and "field_ok 1 12 False d" "field_ok 0 6 True e" "no_huge_step c" "no_huge_step d"
    and "\<And>td. digest_ok td \<Longrightarrow>
      cron_meaning (field_set 0 59 False a) (field_set 0 23 False b) (field_set 1 31 False c)
        (field_set 1 12 False d) (field_set 0 6 True e) td = g td"
  shows "same_matcher (join_fields [a, b, c, d, e]) g"
  using pattern_matcher_meaning [OF assms(1-8)] assms(9) digest_timestamp_ok
  unfolding same_matcher_def by metis

lemma star_time_field: "time_field ''*''"
  by (simp add: time_field_def time_char_def)

text \<open>
  C34: for arguments in range the hourly, daily, weekly and monthly matchers of the builder
  accept, at every time in every zone, what the corresponding cron patterns accept.
\<close>

theorem builder_matchers_are_patterns:
  assumes "minute \<in> {0..59}" "hour \<in> {0..23}" "weekday \<in> {0..6}" "day \<in> {1..31}"
  shows "same_matcher (hourly_pattern minute) (create_hourly_matcher minute)
    \<and> same_matcher (daily_pattern hour minute) (create_daily_matcher hour minute)
    \<and> same_matcher (weekly_pattern weekday hour minute) (create_weekly_matcher weekday hour minute)
    \<and> same_matcher (monthly_pattern day hour minute) (create_monthly_matcher day hour minute)"
proof -
  note star = star_field [THEN conjunct1] star_field [THEN conjunct2, THEN conjunct1]
    star_field [THEN conjunct2, THEN conjunct2] star_time_field
  have ok: "digest_ok (digest_timestamp loc t)" for loc t by (rule digest_timestamp_ok)
  have tf: "time_field (itoa minute)" "time_field (itoa hour)" "time_field (itoa weekday)"
      "time_field (itoa day)" using assms by (simp_all add: time_field_itoa)
  have num: "field_set 0 59 False (itoa minute) = {minute}" "field_ok 0 59 False (itoa minute)"
      "field_set 0 23 False (itoa hour) = {hour}" "field_ok 0 23 False (itoa hour)"
      "field_set 0 6 True (itoa weekday) = {weekday}" "field_ok 0 6 True (itoa weekday)"
      "field_set 1 31 False (itoa day) = {day}" "field_ok 1 31 False (itoa day)"
    using assms by (simp_all add: number_field)
  have day: "no_huge_step (itoa day)" using number_field [of 1 day 31 False] assms(4) by simp
  have ne: "{day} \<noteq> {1..31}" "{weekday} \<noteq> {0..6}"
  proof -
    have "1 \<in> {1..31::int}" "2 \<in> {1..31::int}" "0 \<in> {0..6::int}" "1 \<in> {0..6::int}" by simp_all
    then show "{day} \<noteq> {1..31}" "{weekday} \<noteq> {0..6}" by (metis one_neq_zero numeral_One singletonD
        numeral_eq_iff semiring_norm(85))+
  qed
  show ?thesis
    unfolding hourly_pattern_def daily_pattern_def weekly_pattern_def monthly_pattern_def
    using assms star num day ne tf
    by (intro conjI same_matcherI)
       (auto simp: cron_meaning_def digest_ok_def create_hourly_matcher_def create_daily_matcher_def
          create_weekly_matcher_def create_monthly_matcher_def)
qed

lemma builder_matchers_are_patterns_witness:
  "same_matcher (monthly_pattern 15 4 30) (create_monthly_matcher 15 4 30)"
  using builder_matchers_are_patterns [of 30 4 0 15] by simp

end
