(* ===== verification/Job_Store.thy ===== *)
theory Job_Store
  imports Go_Strings
begin

text \<open>
  The job store: the tables, triggers and functions that the migrations leave behind
  (internal/migrate/sql) and the statements the workers run on them (pkg/worker/worker.go and
  pkg/worker/sql).  A table is the list of its rows in insertion order, \<open>job_queues\<close> and
  \<open>known_crontabs\<close> are maps from their primary keys.  A statement is a function from the
  store to the store and what it returns; \<open>now\<close> is the database's \<open>now()\<close>, in
  microseconds.

  Row locks of concurrent transactions, which \<open>for update skip locked\<close> skips, are an
  argument: the ids and queue names that other transactions hold.
\<close>

section \<open>Tables\<close>

record job_row =
  j_id :: int
  j_queue :: "string option"
  j_task :: string
  j_payload :: string
  j_priority :: int
  j_run_at :: int
  j_attempts :: int
  j_max_attempts :: int
  j_last_error :: "string option"
  j_created_at :: int
  j_updated_at :: int
  j_key :: "string option"
  j_revision :: int
  j_flags :: "string list option"
  j_locked_at :: "int option"
  j_locked_by :: "string option"

record queue_row =
  q_count :: int
  q_locked_at :: "int option"
  q_locked_by :: "string option"

record crontab_row =
  kc_known_since :: int
  kc_last_execution :: "int option"

record store =
  st_jobs :: "job_row list"
  st_queues :: "string \<rightharpoonup> queue_row"
  st_crontabs :: "string \<rightharpoonup> crontab_row"
  st_next_id :: int
  st_notified :: nat

definition empty_store :: store where
  "empty_store = \<lparr>st_jobs = [], st_queues = Map.empty, st_crontabs = Map.empty,
     st_next_id = 1, st_notified = 0\<rparr>"

definition hours4 :: int where "hours4 = 14400000000"

section \<open>The order in which jobs are taken\<close>

text \<open>\<open>order by priority asc, run_at asc, id asc\<close>, as a linear order of its own.\<close>

datatype job_rank = Rank int int int

definition rank_of :: "job_row \<Rightarrow> job_rank" where
  "rank_of j = Rank (j_priority j) (j_run_at j) (j_id j)"

instantiation job_rank :: linorder
begin

fun less_eq_job_rank :: "job_rank \<Rightarrow> job_rank \<Rightarrow> bool" where
  "Rank p r i \<le> Rank p' r' i' \<longleftrightarrow> p < p' \<or> p = p' \<and> (r < r' \<or> r = r' \<and> i \<le> i')"

definition less_job_rank :: "job_rank \<Rightarrow> job_rank \<Rightarrow> bool" where
  "less_job_rank a b \<longleftrightarrow> a \<le> b \<and> \<not> b \<le> a"

instance
proof
  fix a b c :: job_rank
  show "a < b \<longleftrightarrow> a \<le> b \<and> \<not> b \<le> a" by (rule less_job_rank_def)
  show "a \<le> a" by (cases a) simp
  show "a \<le> b \<Longrightarrow> b \<le> c \<Longrightarrow> a \<le> c" by (cases a; cases b; cases c) auto
  show "a \<le> b \<Longrightarrow> b \<le> a \<Longrightarrow> a = b" by (cases a; cases b) auto
  show "a \<le> b \<or> b \<le> a" by (cases a; cases b) auto
qed

end

section \<open>Triggers\<close>

text \<open>\<open>tg__update_timestamp\<close>: before every update of a job.\<close>

definition touch :: "int \<Rightarrow> job_row \<Rightarrow> job_row \<Rightarrow> job_row" where
  "touch now old new = new\<lparr>j_updated_at := max now (j_updated_at old + 1000)\<rparr>"

text \<open>\<open>jobs__increase_job_queue_count\<close> and \<open>jobs__decrease_job_queue_count\<close>.\<close>

definition increase_count :: "string option \<Rightarrow> store \<Rightarrow> store" where
  "increase_count q st =
     (case q of None \<Rightarrow> st
      | Some n \<Rightarrow>
          (case st_queues st n of
             None \<Rightarrow> st\<lparr>st_queues := (st_queues st)(n \<mapsto> \<lparr>q_count = 1, q_locked_at = None, q_locked_by = None\<rparr>)\<rparr>
           | Some r \<Rightarrow> st\<lparr>st_queues := (st_queues st)(n \<mapsto> r\<lparr>q_count := q_count r + 1\<rparr>)\<rparr>))"

definition decrease_count :: "string option \<Rightarrow> store \<Rightarrow> store" where
  "decrease_count q st =
     (case q of None \<Rightarrow> st
      | Some n \<Rightarrow>
          (case st_queues st n of
             None \<Rightarrow> st
           | Some r \<Rightarrow>
               if q_count r - 1 \<le> 0 then st\<lparr>st_queues := (st_queues st)(n := None)\<rparr>
               else st\<lparr>st_queues := (st_queues st)(n \<mapsto> r\<lparr>q_count := q_count r - 1\<rparr>)\<rparr>))"

text \<open>The two triggers after an update of \<open>queue_name\<close>, which fire when it changes.\<close>

definition move_count :: "string option \<Rightarrow> string option \<Rightarrow> store \<Rightarrow> store" where
  "move_count old new st =
     (if new = old then st else increase_count new (decrease_count old st))"

section \<open>Statements\<close>

text \<open>\<open>update jobs set ... where P\<close>, with the timestamp trigger.\<close>

definition update_jobs :: "int \<Rightarrow> (job_row \<Rightarrow> bool) \<Rightarrow> (job_row \<Rightarrow> job_row) \<Rightarrow> store \<Rightarrow> store" where
  "update_jobs now P f st =
     st\<lparr>st_jobs := map (\<lambda>j. if P j then touch now j (f j) else j) (st_jobs st)\<rparr>"

text \<open>\<open>delete from jobs where P\<close>, with the trigger per deleted row.\<close>

definition delete_jobs :: "(job_row \<Rightarrow> bool) \<Rightarrow> store \<Rightarrow> store" where
  "delete_jobs P st =
     fold (\<lambda>j. decrease_count (j_queue j)) (filter P (st_jobs st))
       (st\<lparr>st_jobs := filter (\<lambda>j. \<not> P j) (st_jobs st)\<rparr>)"

text \<open>\<open>insert into jobs\<close> of one row: the id comes from the sequence.\<close>

definition insert_job :: "job_row \<Rightarrow> store \<Rightarrow> store \<times> job_row" where
  "insert_job row st =
     (let j = row\<lparr>j_id := st_next_id st\<rparr> in
      (increase_count (j_queue j)
         (st\<lparr>st_jobs := st_jobs st @ [j], st_next_id := st_next_id st + 1\<rparr>), j))"

definition notify :: "store \<Rightarrow> store" where
  "notify st = st\<lparr>st_notified := st_notified st + 1\<rparr>"

text \<open>The sequence is advanced also by an insert that ends in its \<open>on conflict\<close> clause.\<close>

definition burn_id :: "store \<Rightarrow> store" where
  "burn_id st = st\<lparr>st_next_id := st_next_id st + 1\<rparr>"

section \<open>add\_job\<close>

record job_spec =
  s_identifier :: string
  s_payload :: "string option"
  s_queue :: "string option"
  s_run_at :: "int option"
  s_max_attempts :: "int option"
  s_key :: "string option"
  s_priority :: "int option"
  s_flags :: "string list option"
  s_key_mode :: "string option"

definition plain_spec :: "string \<Rightarrow> string option \<Rightarrow> job_spec" where
  "plain_spec identifier payload =
     \<lparr>s_identifier = identifier, s_payload = payload, s_queue = None, s_run_at = None,
      s_max_attempts = None, s_key = None, s_priority = None, s_flags = None,
      s_key_mode = Some ''replace''\<rparr>"

text \<open>The exceptions of \<open>add_job\<close> by their codes, and the check constraint on the key.\<close>

datatype add_error = GWBID | GWBQN | GWBJK | GWBMA | GWBKM | CheckViolation

definition coalesce :: "'a option \<Rightarrow> 'a \<Rightarrow> 'a" where
  "coalesce x d = (case x of None \<Rightarrow> d | Some v \<Rightarrow> v)"

text \<open>\<open>jsonb_object_agg(flag, true)\<close> over the flags, which is null over no rows.\<close>

definition flags_object :: "string list option \<Rightarrow> string list option" where
  "flags_object fl = (case fl of None \<Rightarrow> None | Some fs \<Rightarrow> if fs = [] then None else Some (remdups fs))"

definition row_of_spec :: "int \<Rightarrow> job_spec \<Rightarrow> job_row" where
  "row_of_spec now s =
     \<lparr>j_id = 0, j_queue = s_queue s, j_task = s_identifier s,
      j_payload = coalesce (s_payload s) ''{}'', j_priority = coalesce (s_priority s) 0,
      j_run_at = coalesce (s_run_at s) now, j_attempts = 0,
      j_max_attempts = coalesce (s_max_attempts s) 25, j_last_error = None,
      j_created_at = now, j_updated_at = now, j_key = s_key s, j_revision = 0,
      j_flags = flags_object (s_flags s), j_locked_at = None, j_locked_by = None\<rparr>"

text \<open>The \<open>do update\<close> of the replacing upsert.\<close>

definition replace_row :: "job_spec \<Rightarrow> job_row \<Rightarrow> job_row \<Rightarrow> job_row" where
  "replace_row s excluded j =
     j\<lparr>j_task := j_task excluded, j_payload := j_payload excluded, j_queue := j_queue excluded,
       j_max_attempts := j_max_attempts excluded,
       j_run_at := (if s_key_mode s = Some ''preserve_run_at'' \<and> j_attempts j = 0 then j_run_at j
                    else j_run_at excluded),
       j_priority := j_priority excluded, j_revision := j_revision j + 1,
       j_flags := j_flags excluded, j_attempts := 0, j_last_error := None\<rparr>"

definition find_key :: "string \<Rightarrow> store \<Rightarrow> job_row option" where
  "find_key k st = find (\<lambda>j. j_key j = Some k) (st_jobs st)"

text \<open>
  PostgreSQL's \<open>length\<close> of a text in UTF-8, whose bytes a string has: it counts the characters, that
  is, every byte that does not continue one.
\<close>

definition continues_char :: "char \<Rightarrow> bool" where
  "continues_char c \<longleftrightarrow> 128 \<le> (of_char c :: nat) \<and> (of_char c :: nat) < 192"

definition pg_length :: "string \<Rightarrow> nat" where
  "pg_length s = length (filter (\<lambda>c. \<not> continues_char c) s)"

lemma pg_length_le: "pg_length s \<le> length s"
  by (simp add: pg_length_def)

lemma pg_length_short [simp]: "length s \<le> n \<Longrightarrow> \<not> n < pg_length s"
  using pg_length_le [of s] by simp

definition check_spec :: "job_spec \<Rightarrow> add_error option" where
  "check_spec s =
     (if pg_length (s_identifier s) > 128 then Some GWBID
      else if (case s_queue s of None \<Rightarrow> False | Some q \<Rightarrow> pg_length q > 128) then Some GWBQN
      else if (case s_key s of None \<Rightarrow> False | Some k \<Rightarrow> pg_length k > 512) then Some GWBJK
      else if (case s_max_attempts s of None \<Rightarrow> False | Some m \<Rightarrow> m < 1) then Some GWBMA
      else None)"

definition add_job :: "int \<Rightarrow> job_spec \<Rightarrow> store \<Rightarrow> (add_error, store \<times> job_row) result" where
  "add_job now s st =
     (let excluded = row_of_spec now s in
      case check_spec s of Some e \<Rightarrow> Inl e | None \<Rightarrow>
      (case s_key s of
         None \<Rightarrow> Inr (insert_job excluded (notify st))
       | Some k \<Rightarrow>
           if s_key_mode s \<in> {None, Some ''replace'', Some ''preserve_run_at''} then
             (if k = [] then Inl CheckViolation
              else case find_key k st of
                None \<Rightarrow> Inr (insert_job excluded (notify st))
              | Some old \<Rightarrow>
                  if j_locked_at old = None then
                    (let new = replace_row s excluded old in
                     Inr (move_count (j_queue old) (j_queue new)
                            (update_jobs now (\<lambda>j. j_key j = Some k) (replace_row s excluded)
                               (burn_id (notify st))),
                          touch now old new))
                  else
                    Inr (insert_job excluded
                           (update_jobs now (\<lambda>j. j_key j = Some k)
                              (\<lambda>j. j\<lparr>j_key := None, j_attempts := j_max_attempts j\<rparr>)
                              (burn_id (notify st)))))
           else if s_key_mode s = Some ''unsafe_dedupe'' then
             (if k = [] then Inl CheckViolation
              else case find_key k st of
                None \<Rightarrow> Inr (insert_job excluded (notify st))
              | Some old \<Rightarrow>
                  Inr (update_jobs now (\<lambda>j. j_key j = Some k)
                         (\<lambda>j. j\<lparr>j_revision := j_revision j + 1\<rparr>) (burn_id (notify st)),
                       touch now old (old\<lparr>j_revision := j_revision old + 1\<rparr>)))
           else Inl GWBKM))"

section \<open>remove\_job\<close>

definition remove_job :: "int \<Rightarrow> string option \<Rightarrow> store \<Rightarrow> store \<times> job_row option" where
  "remove_job now key st =
     (case key of None \<Rightarrow> (st, None)
      | Some k \<Rightarrow>
          (case find_key k st of
             None \<Rightarrow> (st, None)
           | Some old \<Rightarrow>
               if j_locked_at old = None then
                 (delete_jobs (\<lambda>j. j_key j = Some k \<and> j_locked_at j = None) st, Some old)
               else
                 (let f = (\<lambda>j. j\<lparr>j_attempts := j_max_attempts j, j_key := None\<rparr>) in
                  (update_jobs now (\<lambda>j. j_key j = Some k) f st, Some (touch now old (f old))))))"

section \<open>Taking a job\<close>

record held_rows =
  held_jobs :: "int list"
  held_queues :: "string list"

definition none_held :: held_rows where
  "none_held = \<lparr>held_jobs = [], held_queues = []\<rparr>"

definition queue_free :: "held_rows \<Rightarrow> store \<Rightarrow> string option \<Rightarrow> bool" where
  "queue_free held st q =
     (case q of None \<Rightarrow> True
      | Some n \<Rightarrow>
          (case st_queues st n of
             None \<Rightarrow> False
           | Some r \<Rightarrow> q_locked_at r = None \<and> n \<notin> set (held_queues held)))"

definition runnable ::
  "held_rows \<Rightarrow> int \<Rightarrow> string list option \<Rightarrow> string list option \<Rightarrow> store \<Rightarrow> job_row \<Rightarrow> bool" where
  "runnable held now tasks forbidden st j \<longleftrightarrow>
     j_locked_at j = None \<and> queue_free held st (j_queue j) \<and> j_run_at j \<le> now \<and>
     j_attempts j < j_max_attempts j \<and>
     (case tasks of None \<Rightarrow> True | Some ts \<Rightarrow> j_task j \<in> set ts) \<and>
     (case forbidden of None \<Rightarrow> True
      | Some fs \<Rightarrow> \<not> (case j_flags j of None \<Rightarrow> False | Some gs \<Rightarrow> list_ex (\<lambda>f. f \<in> set gs) fs)) \<and>
     j_id j \<notin> set (held_jobs held)"

definition lock_queue :: "string \<Rightarrow> int \<Rightarrow> string option \<Rightarrow> store \<Rightarrow> store" where
  "lock_queue worker_id now q st =
     (case q of None \<Rightarrow> st
      | Some n \<Rightarrow>
          (case st_queues st n of
             None \<Rightarrow> st
           | Some r \<Rightarrow>
               st\<lparr>st_queues := (st_queues st)(n \<mapsto>
                    r\<lparr>q_locked_by := Some worker_id, q_locked_at := Some now\<rparr>)\<rparr>))"

text \<open>
  The statement of \<open>Worker.GetJob\<close>.  \<open>now\<close> is the time the statement compares with, the
  node's clock or the database's; \<open>pg_now\<close> is the database's, which the trigger uses.
\<close>

definition claim :: "string \<Rightarrow> int \<Rightarrow> job_row \<Rightarrow> job_row" where
  "claim worker_id now j =
     j\<lparr>j_attempts := j_attempts j + 1, j_locked_by := Some worker_id, j_locked_at := Some now\<rparr>"

definition get_job ::
  "held_rows \<Rightarrow> int \<Rightarrow> int \<Rightarrow> string \<Rightarrow> string list option \<Rightarrow> string list option \<Rightarrow> store
     \<Rightarrow> store \<times> job_row option" where
  "get_job held pg_now now worker_id tasks forbidden st =
     (case filter (runnable held now tasks forbidden st) (st_jobs st) of
        [] \<Rightarrow> (st, None)
      | c # cs \<Rightarrow>
          let j = arg_min_list rank_of (c # cs) in
          (update_jobs pg_now (\<lambda>j'. j_id j' = j_id j) (claim worker_id now)
             (lock_queue worker_id now (j_queue j) st),
           Some (touch pg_now j (claim worker_id now j))))"

section \<open>Finishing a job\<close>

definition unlock_queue :: "string \<Rightarrow> string option \<Rightarrow> store \<Rightarrow> store" where
  "unlock_queue worker_id q st =
     (case q of None \<Rightarrow> st
      | Some n \<Rightarrow>
          (case st_queues st n of
             None \<Rightarrow> st
           | Some r \<Rightarrow>
               if q_locked_by r = Some worker_id then
                 st\<lparr>st_queues := (st_queues st)(n \<mapsto> r\<lparr>q_locked_by := None, q_locked_at := None\<rparr>)\<rparr>
               else st))"

definition find_job :: "int \<Rightarrow> store \<Rightarrow> job_row option" where
  "find_job i st = find (\<lambda>j. j_id j = i) (st_jobs st)"

text \<open>\<open>Worker.CompleteJob\<close>; the count trigger of the deletion fires after the statement.\<close>

definition complete_job :: "string \<Rightarrow> int \<Rightarrow> store \<Rightarrow> store" where
  "complete_job worker_id i st =
     (case find_job i st of
        None \<Rightarrow> st
      | Some j \<Rightarrow> delete_jobs (\<lambda>j'. j_id j' = i) (unlock_queue worker_id (j_queue j) st))"

text \<open>
  \<open>Worker.FailJob\<close>.  \<open>backoff n\<close> is the interval PostgreSQL computes for
  \<open>exp(n)::text || ' seconds'\<close>, in microseconds.
\<close>

definition fail_row :: "(int \<Rightarrow> int) \<Rightarrow> int \<Rightarrow> string \<Rightarrow> job_row \<Rightarrow> job_row" where
  "fail_row backoff now message j =
     j\<lparr>j_last_error := Some message,
       j_run_at := max now (j_run_at j) + backoff (min (j_attempts j) 10),
       j_locked_by := None, j_locked_at := None\<rparr>"

definition fail_job :: "(int \<Rightarrow> int) \<Rightarrow> int \<Rightarrow> string \<Rightarrow> int \<Rightarrow> string \<Rightarrow> store \<Rightarrow> store" where
  "fail_job backoff now worker_id i message st =
     (case find_job i st of
        None \<Rightarrow> st
      | Some j \<Rightarrow>
          if j_locked_by j = Some worker_id then
            unlock_queue worker_id (j_queue j)
              (update_jobs now (\<lambda>j'. j_id j' = i \<and> j_locked_by j' = Some worker_id)
                 (fail_row backoff now message) st)
          else st)"

section \<open>Stale locks\<close>

definition stale :: "int \<Rightarrow> int option \<Rightarrow> bool" where
  "stale now t = (case t of None \<Rightarrow> False | Some a \<Rightarrow> a < now - hours4)"

definition reset_locked_at :: "int \<Rightarrow> int \<Rightarrow> store \<Rightarrow> store" where
  "reset_locked_at pg_now now st =
     (let st' = update_jobs pg_now (\<lambda>j. stale now (j_locked_at j))
                  (\<lambda>j. j\<lparr>j_locked_at := None, j_locked_by := None\<rparr>) st
      in st'\<lparr>st_queues := (\<lambda>n. map_option (\<lambda>r.
            if stale now (q_locked_at r) then r\<lparr>q_locked_at := None, q_locked_by := None\<rparr> else r)
            (st_queues st' n))\<rparr>)"

section \<open>Administration (000004.sql)\<close>

definition admin_free :: "int \<Rightarrow> int list \<Rightarrow> job_row \<Rightarrow> bool" where
  "admin_free now ids j \<longleftrightarrow>
     j_id j \<in> set ids \<and> (j_locked_by j = None \<or> stale now (j_locked_at j))"

definition complete_jobs :: "int \<Rightarrow> int list \<Rightarrow> store \<Rightarrow> store \<times> job_row list" where
  "complete_jobs now ids st =
     (delete_jobs (admin_free now ids) st, filter (admin_free now ids) (st_jobs st))"

definition permanently_fail_jobs ::
  "int \<Rightarrow> int list \<Rightarrow> string option \<Rightarrow> store \<Rightarrow> store \<times> job_row list" where
  "permanently_fail_jobs now ids message st =
     (let f = (\<lambda>j. j\<lparr>j_last_error := Some (coalesce message ''Manually marked as failed''),
                    j_attempts := j_max_attempts j\<rparr>) in
      (update_jobs now (admin_free now ids) f st,
       map (\<lambda>j. touch now j (f j)) (filter (admin_free now ids) (st_jobs st))))"

definition reschedule_jobs ::
  "int \<Rightarrow> int list \<Rightarrow> int option \<Rightarrow> int option \<Rightarrow> int option \<Rightarrow> int option \<Rightarrow> store
     \<Rightarrow> store \<times> job_row list" where
  "reschedule_jobs now ids run_at priority attempts max_attempts st =
     (let f = (\<lambda>j. j\<lparr>j_run_at := coalesce run_at (j_run_at j),
                    j_priority := coalesce priority (j_priority j),
                    j_attempts := coalesce attempts (j_attempts j),
                    j_max_attempts := coalesce max_attempts (j_max_attempts j)\<rparr>) in
      (update_jobs now (admin_free now ids) f st,
       map (\<lambda>j. touch now j (f j)) (filter (admin_free now ids) (st_jobs st))))"

end
