(* ===== verification/Job_Store_Inv.thy ===== *)
theory Job_Store_Inv
  imports Job_Store
begin

text \<open>
  The integrity of the job store: ids and keys are unique, a row of \<open>job_queues\<close> exists
  exactly for the queues that have jobs and counts them, and a lock has a time and an owner.
  Every statement keeps it.
\<close>

section \<open>Integrity\<close>

definition jobs_in :: "string \<Rightarrow> job_row list \<Rightarrow> nat" where
  "jobs_in n js = length (filter (\<lambda>j. j_queue j = Some n) js)"

definition counts_agree :: "(string \<Rightarrow> nat) \<Rightarrow> (string \<rightharpoonup> queue_row) \<Rightarrow> bool" where
  "counts_agree c Q \<longleftrightarrow>
     (\<forall>n. case Q n of None \<Rightarrow> c n = 0 | Some r \<Rightarrow> 0 < c n \<and> q_count r = int (c n))"

definition ids_ok :: "store \<Rightarrow> bool" where
  "ids_ok st \<longleftrightarrow> distinct (map j_id (st_jobs st)) \<and> (\<forall>j \<in> set (st_jobs st). j_id j < st_next_id st)"

definition keys_of :: "job_row list \<Rightarrow> string list" where
  "keys_of js = List.map_filter j_key js"

definition keys_ok :: "store \<Rightarrow> bool" where
  "keys_ok st \<longleftrightarrow> distinct (keys_of (st_jobs st)) \<and> [] \<notin> set (keys_of (st_jobs st))"

definition queues_ok :: "store \<Rightarrow> bool" where
  "queues_ok st \<longleftrightarrow> counts_agree (\<lambda>n. jobs_in n (st_jobs st)) (st_queues st)"

definition locks_ok :: "store \<Rightarrow> bool" where
  "locks_ok st \<longleftrightarrow>
     (\<forall>j \<in> set (st_jobs st). j_locked_at j = None \<longleftrightarrow> j_locked_by j = None) \<and>
     (\<forall>r \<in> ran (st_queues st). q_locked_at r = None \<longleftrightarrow> q_locked_by r = None)"

definition store_ok :: "store \<Rightarrow> bool" where
  "store_ok st \<longleftrightarrow> ids_ok st \<and> keys_ok st \<and> queues_ok st \<and> locks_ok st"

lemma store_okI:
  "ids_ok st \<Longrightarrow> keys_ok st \<Longrightarrow> queues_ok st \<Longrightarrow> locks_ok st \<Longrightarrow> store_ok st"
  by (simp add: store_ok_def)

lemma store_okD:
  assumes "store_ok st"
  shows "ids_ok st" "keys_ok st" "queues_ok st" "locks_ok st"
  using assms by (simp_all add: store_ok_def)

lemma keys_of_simps [simp]:
  "keys_of [] = []"
  "keys_of (j # js) = (case j_key j of None \<Rightarrow> keys_of js | Some k \<Rightarrow> k # keys_of js)"
  "keys_of (js @ js') = keys_of js @ keys_of js'"
  by (simp_all add: keys_of_def List.map_filter_def split: option.split)

lemma jobs_in_simps [simp]:
  "jobs_in n [] = 0"
  "jobs_in n (j # js) = (if j_queue j = Some n then 1 else 0) + jobs_in n js"
  "jobs_in n (js @ js') = jobs_in n js + jobs_in n js'"
  by (simp_all add: jobs_in_def)

lemma in_keys_of: "k \<in> set (keys_of js) \<longleftrightarrow> (\<exists>j \<in> set js. j_key j = Some k)"
  by (induction js) (auto split: option.splits)

section \<open>Frames\<close>

text \<open>Which tables the small operations leave alone.\<close>

lemma increase_count_frame [simp, kt_frame]:
  "st_jobs (increase_count q st) = st_jobs st"
  "st_next_id (increase_count q st) = st_next_id st"
  "st_crontabs (increase_count q st) = st_crontabs st"
  "st_notified (increase_count q st) = st_notified st"
  by (simp_all add: increase_count_def split: option.splits)

lemma decrease_count_frame [simp, kt_frame]:
  "st_jobs (decrease_count q st) = st_jobs st"
  "st_next_id (decrease_count q st) = st_next_id st"
  "st_crontabs (decrease_count q st) = st_crontabs st"
  "st_notified (decrease_count q st) = st_notified st"
  by (simp_all add: decrease_count_def split: option.splits)

lemma fold_decrease_frame [simp, kt_frame]:
  "st_jobs (fold (\<lambda>j. decrease_count (j_queue j)) ds st) = st_jobs st"
  "st_next_id (fold (\<lambda>j. decrease_count (j_queue j)) ds st) = st_next_id st"
  "st_crontabs (fold (\<lambda>j. decrease_count (j_queue j)) ds st) = st_crontabs st"
  "st_notified (fold (\<lambda>j. decrease_count (j_queue j)) ds st) = st_notified st"
  by (induction ds arbitrary: st) auto

lemma move_count_frame [simp, kt_frame]:
  "st_jobs (move_count p q st) = st_jobs st"
  "st_next_id (move_count p q st) = st_next_id st"
  by (simp_all add: move_count_def)

lemma lock_queue_frame [simp, kt_frame]:
  "st_jobs (lock_queue w now q st) = st_jobs st"
  "st_next_id (lock_queue w now q st) = st_next_id st"
  by (simp_all add: lock_queue_def split: option.splits)

lemma unlock_queue_frame [simp, kt_frame]:
  "st_jobs (unlock_queue w q st) = st_jobs st"
  "st_next_id (unlock_queue w q st) = st_next_id st"
  by (simp_all add: unlock_queue_def split: option.splits)

lemma update_jobs_frame [simp, kt_frame]:
  "st_queues (update_jobs now P f st) = st_queues st"
  "st_next_id (update_jobs now P f st) = st_next_id st"
  "st_crontabs (update_jobs now P f st) = st_crontabs st"
  by (simp_all add: update_jobs_def)

lemma delete_jobs_frame [simp, kt_frame]:
  "st_jobs (delete_jobs P st) = filter (\<lambda>j. \<not> P j) (st_jobs st)"
  "st_next_id (delete_jobs P st) = st_next_id st"
  by (simp_all add: delete_jobs_def)

lemma notify_frame [simp, kt_frame]:
  "st_jobs (notify st) = st_jobs st" "st_queues (notify st) = st_queues st"
  "st_next_id (notify st) = st_next_id st"
  by (simp_all add: notify_def)

lemma burn_id_frame [simp, kt_frame]:
  "st_jobs (burn_id st) = st_jobs st" "st_queues (burn_id st) = st_queues st"
  "st_next_id (burn_id st) = st_next_id st + 1"
  by (simp_all add: burn_id_def)

lemma touch_simps [simp]:
  "j_id (touch now old new) = j_id new" "j_queue (touch now old new) = j_queue new"
  "j_key (touch now old new) = j_key new" "j_locked_at (touch now old new) = j_locked_at new"
  "j_locked_by (touch now old new) = j_locked_by new" "j_task (touch now old new) = j_task new"
  "j_attempts (touch now old new) = j_attempts new" "j_run_at (touch now old new) = j_run_at new"
  "j_max_attempts (touch now old new) = j_max_attempts new"
  "j_priority (touch now old new) = j_priority new" "j_payload (touch now old new) = j_payload new"
  "j_flags (touch now old new) = j_flags new" "j_last_error (touch now old new) = j_last_error new"
  "j_revision (touch now old new) = j_revision new"
  by (simp_all add: touch_def)

section \<open>Counting\<close>

lemma increase_count_agree:
  assumes "counts_agree c (st_queues st)"
  shows "counts_agree (\<lambda>n. c n + (if q = Some n then 1 else 0)) (st_queues (increase_count q st))"
  unfolding counts_agree_def
proof
  fix n
  have "case st_queues st n of None \<Rightarrow> c n = 0 | Some r \<Rightarrow> 0 < c n \<and> q_count r = int (c n)"
    using assms by (simp add: counts_agree_def)
  then show "case st_queues (increase_count q st) n of None \<Rightarrow> c n + (if q = Some n then 1 else 0) = 0
      | Some r \<Rightarrow> 0 < c n + (if q = Some n then 1 else 0) \<and>
                  q_count r = int (c n + (if q = Some n then 1 else 0))"
    by (cases q) (auto simp: increase_count_def split: option.splits)
qed

lemma decrease_count_agree:
  assumes "counts_agree (\<lambda>n. c n + (if q = Some n then 1 else 0)) (st_queues st)"
  shows "counts_agree c (st_queues (decrease_count q st))"
proof (cases q)
  case None
  then show ?thesis using assms by (simp add: decrease_count_def)
next
  case (Some m)
  then have c: "\<And>n. case st_queues st n of None \<Rightarrow> c n + (if m = n then 1 else 0) = 0
      | Some r \<Rightarrow> 0 < c n + (if m = n then 1 else 0) \<and> q_count r = int (c n + (if m = n then 1 else 0))"
    using assms by (simp add: counts_agree_def)
  obtain r where r: "st_queues st m = Some r" "q_count r = int (c m) + 1"
    using c [of m] by (cases "st_queues st m") auto
  show ?thesis
    unfolding counts_agree_def
  proof
    fix n
    show "case st_queues (decrease_count q st) n of None \<Rightarrow> c n = 0
        | Some r \<Rightarrow> 0 < c n \<and> q_count r = int (c n)"
      using c [of n] r Some by (cases "n = m") (auto simp: decrease_count_def split: option.splits)
  qed
qed

lemma fold_decrease_agree:
  "counts_agree (\<lambda>n. c n + jobs_in n ds) (st_queues st) \<Longrightarrow>
     counts_agree c (st_queues (fold (\<lambda>j. decrease_count (j_queue j)) ds st))"
proof (induction ds arbitrary: st)
  case (Cons d ds)
  have "counts_agree (\<lambda>n. c n + jobs_in n ds) (st_queues (decrease_count (j_queue d) st))"
    by (rule decrease_count_agree) (use Cons.prems in \<open>simp add: ac_simps\<close>)
  then show ?case using Cons.IH by simp
qed simp

lemma jobs_in_split: "jobs_in n js = jobs_in n (filter (\<lambda>j. \<not> P j) js) + jobs_in n (filter P js)"
  by (induction js) auto

section \<open>Every statement keeps the integrity\<close>

lemma keys_of_map:
  assumes "\<forall>j \<in> set js. j_key (g j) = j_key j \<or> j_key (g j) = None"
  shows "set (keys_of (map g js)) \<subseteq> set (keys_of js) \<and>
         (distinct (keys_of js) \<longrightarrow> distinct (keys_of (map g js)))"
  using assms
proof (induction js)
  case (Cons j js)
  then show ?case by (cases "j_key j"; cases "j_key (g j)") auto
qed simp

lemma jobs_in_map: "\<forall>j \<in> set js. j_queue (g j) = j_queue j \<Longrightarrow> jobs_in n (map g js) = jobs_in n js"
  by (induction js) auto

text \<open>
  An update that keeps ids and queues, keeps or clears keys, and leaves a lock's time and owner
  in agreement.
\<close>

definition tame :: "(job_row \<Rightarrow> job_row) \<Rightarrow> bool" where
  "tame f \<longleftrightarrow> (\<forall>j. j_id (f j) = j_id j \<and> j_queue (f j) = j_queue j \<and>
     (j_key (f j) = j_key j \<or> j_key (f j) = None) \<and>
     ((j_locked_at j = None \<longleftrightarrow> j_locked_by j = None) \<longrightarrow>
      (j_locked_at (f j) = None \<longleftrightarrow> j_locked_by (f j) = None)))"

lemma update_jobs_ok [kt_keeps]:
  assumes "store_ok st" "tame f"
  shows "store_ok (update_jobs now P f st)"
proof -
  let ?g = "\<lambda>j. if P j then touch now j (f j) else j"
  have js: "st_jobs (update_jobs now P f st) = map ?g (st_jobs st)" by (simp add: update_jobs_def)
  have f: "j_id (f j) = j_id j" "j_queue (f j) = j_queue j"
      "j_key (f j) = j_key j \<or> j_key (f j) = None" for j
    using assms(2) by (auto simp: tame_def)
  have ids: "map j_id (map ?g (st_jobs st)) = map j_id (st_jobs st)" by (simp add: f)
  have "ids_ok (update_jobs now P f st)"
    using store_okD(1) [OF assms(1)] unfolding ids_ok_def js ids by (auto simp: f)
  moreover have "\<forall>j \<in> set (st_jobs st). j_key (?g j) = j_key j \<or> j_key (?g j) = None"
    using f(3) by simp
  from keys_of_map [OF this] have "keys_ok (update_jobs now P f st)"
    using store_okD(2) [OF assms(1)] unfolding keys_ok_def js by blast
  moreover have "queues_ok (update_jobs now P f st)"
    using store_okD(3) [OF assms(1)] unfolding queues_ok_def js
    by (simp add: jobs_in_map f del: map_map)
  moreover have "locks_ok (update_jobs now P f st)"
    using store_okD(4) [OF assms(1)] assms(2) unfolding locks_ok_def js by (auto simp: tame_def)
  ultimately show ?thesis by (rule store_okI)
qed

lemma ran_upd_queue:
  "r \<in> ran (Q(n \<mapsto> v)) \<Longrightarrow> r = v \<or> r \<in> ran Q"
  by (auto simp: ran_def split: if_splits)

lemma increase_count_locks: "locks_ok st \<Longrightarrow> locks_ok (increase_count q st)"
  by (auto simp: locks_ok_def increase_count_def ranI split: option.splits dest!: ran_upd_queue)

lemma decrease_count_locks: "locks_ok st \<Longrightarrow> locks_ok (decrease_count q st)"
  by (auto simp: locks_ok_def decrease_count_def ran_def split: option.splits if_splits)

lemma fold_decrease_locks:
  "locks_ok st \<Longrightarrow> locks_ok (fold (\<lambda>j. decrease_count (j_queue j)) ds st)"
  by (induction ds arbitrary: st) (auto simp: decrease_count_locks)

lemma keys_of_filter: "distinct (keys_of js) \<Longrightarrow> distinct (keys_of (filter P js))"
  by (induction js) (auto simp: in_keys_of split: option.splits)

lemma delete_jobs_ok [kt_keeps]:
  assumes "store_ok st"
  shows "store_ok (delete_jobs P st)"
proof -
  let ?kept = "st\<lparr>st_jobs := filter (\<lambda>j. \<not> P j) (st_jobs st)\<rparr>"
  have "counts_agree (\<lambda>n. jobs_in n (filter (\<lambda>j. \<not> P j) (st_jobs st)) + jobs_in n (filter P (st_jobs st)))
      (st_queues ?kept)"
    using store_okD(3) [OF assms] jobs_in_split [of _ "st_jobs st" P] by (simp add: queues_ok_def)
  then have "queues_ok (delete_jobs P st)"
    unfolding queues_ok_def by (simp add: delete_jobs_def fold_decrease_agree)
  moreover have "locks_ok ?kept" using store_okD(4) [OF assms] by (simp add: locks_ok_def)
  then have "locks_ok (delete_jobs P st)" by (simp add: delete_jobs_def fold_decrease_locks)
  moreover have "keys_ok (delete_jobs P st)"
    using store_okD(2) [OF assms] keys_of_filter by (auto simp: keys_ok_def in_keys_of)
  moreover have "ids_ok (delete_jobs P st)"
    using store_okD(1) [OF assms] by (auto simp: ids_ok_def distinct_map_filter)
  ultimately show ?thesis by (intro store_okI)
qed

lemma notify_ok [kt_keeps]: "store_ok st \<Longrightarrow> store_ok (notify st)"
  by (simp add: store_ok_def ids_ok_def keys_ok_def queues_ok_def locks_ok_def)

lemma burn_id_ok [kt_keeps]: "store_ok st \<Longrightarrow> store_ok (burn_id st)"
  by (fastforce simp: store_ok_def ids_ok_def keys_ok_def queues_ok_def locks_ok_def)

lemma insert_job_ok [kt_keeps]:
  assumes "store_ok st" "j_locked_at row = None" "j_locked_by row = None"
    and "\<forall>k. j_key row = Some k \<longrightarrow> k \<noteq> [] \<and> k \<notin> set (keys_of (st_jobs st))"
  shows "store_ok (fst (insert_job row st))"
proof -
  let ?j = "row\<lparr>j_id := st_next_id st\<rparr>"
  let ?st = "st\<lparr>st_jobs := st_jobs st @ [?j], st_next_id := st_next_id st + 1\<rparr>"
  have eq: "fst (insert_job row st) = increase_count (j_queue row) ?st"
    by (simp add: insert_job_def Let_def)
  have "counts_agree (\<lambda>n. jobs_in n (st_jobs st)) (st_queues ?st)"
    using store_okD(3) [OF assms(1)] by (simp add: queues_ok_def)
  then have "queues_ok (increase_count (j_queue row) ?st)"
    using increase_count_agree [of _ ?st "j_queue row"] by (auto simp: queues_ok_def eq_commute)
  moreover have "locks_ok ?st" using store_okD(4) [OF assms(1)] assms(2,3) by (auto simp: locks_ok_def)
  then have "locks_ok (increase_count (j_queue row) ?st)" by (rule increase_count_locks)
  moreover have "keys_ok (increase_count (j_queue row) ?st)"
    using store_okD(2) [OF assms(1)] assms(4) by (auto simp: keys_ok_def split: option.splits)
  moreover have "ids_ok (increase_count (j_queue row) ?st)"
    using store_okD(1) [OF assms(1)] by (fastforce simp: ids_ok_def)
  ultimately show ?thesis unfolding eq by (intro store_okI)
qed

lemma find_key_Some:
  assumes "find_key k st = Some j"
  shows "j \<in> set (st_jobs st) \<and> j_key j = Some k"
  using assms by (auto simp: find_key_def find_Some_iff)

lemma find_key_None: "find_key k st = None \<longleftrightarrow> k \<notin> set (keys_of (st_jobs st))"
  by (auto simp: find_key_def find_None_iff in_keys_of)

text \<open>A key names one row.\<close>

lemma key_unique:
  "distinct (keys_of js) \<Longrightarrow> j \<in> set js \<Longrightarrow> j' \<in> set js \<Longrightarrow> j_key j = Some k \<Longrightarrow> j_key j' = Some k
     \<Longrightarrow> j = j'"
  by (induction js) (auto simp: in_keys_of split: option.splits)

lemma id_unique:
  "distinct (map j_id js) \<Longrightarrow> j \<in> set js \<Longrightarrow> j' \<in> set js \<Longrightarrow> j_id j = j_id j' \<Longrightarrow> j = j'"
  by (metis distinct_map inj_on_eq_iff)

lemma jobs_in_replace:
  assumes "distinct (keys_of js)" "old \<in> set js" "j_key old = Some k" "j_key new = Some k"
    and "distinct (map j_id js)"
  shows "jobs_in n (map (\<lambda>j. if j_key j = Some k then new else j) js)
           + (if j_queue old = Some n then 1 else 0)
         = jobs_in n js + (if j_queue new = Some n then 1 else 0)"
  using assms
proof (induction js)
  case (Cons j js)
  show ?case
  proof (cases "j_key j = Some k")
    case True
    then have "j = old" using key_unique [OF Cons.prems(1), of j old k] Cons.prems(2,3) by simp
    moreover have "\<forall>i \<in> set js. j_key i \<noteq> Some k" using Cons.prems(1) True by (auto simp: in_keys_of)
    then have "map (\<lambda>j. if j_key j = Some k then new else j) js = js" by (simp add: map_idI)
    ultimately show ?thesis using True by simp
  next
    case False
    then have "old \<in> set js" "distinct (keys_of js)"
      using Cons.prems by (auto split: option.splits)
    then show ?thesis using Cons False by simp
  qed
qed simp

lemma keys_of_column: "keys_of js = List.map_filter id (map j_key js)"
  by (induction js) (auto simp: List.map_filter_def split: option.splits)

lemma ids_ok_column:
  "ids_ok st \<longleftrightarrow> distinct (map j_id (st_jobs st)) \<and> (\<forall>i \<in> set (map j_id (st_jobs st)). i < st_next_id st)"
  by (simp add: ids_ok_def)

lemma move_count_agree:
  assumes "counts_agree c (st_queues st)"
    and "\<And>n. c' n + (if old = Some n then 1 else 0) = c n + (if new = Some n then 1 else 0)"
    and "\<And>n. old = Some n \<Longrightarrow> 0 < c n"
  shows "counts_agree c' (st_queues (move_count old new st))"
proof (cases "new = old")
  case True
  then have "c' = c" using assms(2) by fastforce
  then show ?thesis using assms(1) True by (simp add: move_count_def)
next
  case False
  define d where "d n = c n - (if old = Some n then 1 else 0)" for n
  have cd: "c n = d n + (if old = Some n then 1 else 0)" for n
    using assms(3) [of n] by (simp add: d_def)
  have "counts_agree (\<lambda>n. d n + (if old = Some n then 1 else 0)) (st_queues st)"
    using assms(1) by (simp add: cd [symmetric])
  then have "counts_agree d (st_queues (decrease_count old st))" by (rule decrease_count_agree)
  then have "counts_agree (\<lambda>n. d n + (if new = Some n then 1 else 0))
      (st_queues (increase_count new (decrease_count old st)))" by (rule increase_count_agree)
  moreover have "d n + (if new = Some n then 1 else 0) = c' n" for n
    using assms(2) [of n] cd [of n] False by (auto split: if_splits)
  ultimately show ?thesis using False by (simp add: move_count_def)
qed

lemma move_count_locks: "locks_ok st \<Longrightarrow> locks_ok (move_count p q st)"
  by (simp add: move_count_def increase_count_locks decrease_count_locks)

lemma jobs_in_pos: "j \<in> set js \<Longrightarrow> j_queue j = Some n \<Longrightarrow> 0 < jobs_in n js"
  by (induction js) auto

lemma replace_upsert_ok:
  assumes ok: "store_ok st" and old: "find_key k st = Some old"
    and free: "j_locked_at old = None" and new: "new = replace_row s ex old"
  shows "store_ok (move_count (j_queue old) (j_queue new)
           (update_jobs now (\<lambda>j. j_key j = Some k) (replace_row s ex) st))"
proof -
  let ?u = "update_jobs now (\<lambda>j. j_key j = Some k) (replace_row s ex) st"
  have o: "old \<in> set (st_jobs st)" "j_key old = Some k" using find_key_Some [OF old] by auto
  have uq: "j = old" if "j \<in> set (st_jobs st)" "j_key j = Some k" for j
    using key_unique [OF _ that(1) o(1) that(2) o(2)] store_okD(2) [OF ok] by (simp add: keys_ok_def)
  have js: "st_jobs ?u = map (\<lambda>j. if j_key j = Some k then touch now old new else j) (st_jobs st)"
    using uq by (auto simp: update_jobs_def new)
  have key: "j_key (touch now old new) = Some k" "j_id new = j_id old" "j_locked_at new = None"
      "j_locked_by new = j_locked_by old"
    using o free by (simp_all add: new replace_row_def)
  have keys: "map j_key (st_jobs ?u) = map j_key (st_jobs st)" "map j_id (st_jobs ?u) = map j_id (st_jobs st)"
    using uq key by (auto simp: js)
  then have same: "keys_of (st_jobs ?u) = keys_of (st_jobs st)"
    by (simp add: keys_of_column)
  have "ids_ok ?u" using store_okD(1) [OF ok] keys(2) by (simp add: ids_ok_column)
  moreover have "keys_ok ?u" using store_okD(2) [OF ok] same by (simp add: keys_ok_def)
  moreover have "locks_ok ?u"
    using store_okD(4) [OF ok] o(1) free key(3,4) by (auto simp: locks_ok_def js)
  moreover have c: "jobs_in n (st_jobs ?u) + (if j_queue old = Some n then 1 else 0)
      = jobs_in n (st_jobs st) + (if j_queue new = Some n then 1 else 0)" for n
    unfolding js using jobs_in_replace [of "st_jobs st" old k "touch now old new" n] o key(1)
      store_okD(1,2) [OF ok] by (simp add: keys_ok_def ids_ok_def)
  moreover have "counts_agree (\<lambda>n. jobs_in n (st_jobs ?u))
      (st_queues (move_count (j_queue old) (j_queue new) ?u))"
    using store_okD(3) [OF ok] c jobs_in_pos [OF o(1)]
    by (intro move_count_agree [where c = "\<lambda>n. jobs_in n (st_jobs st)"]) (simp_all add: queues_ok_def)
  ultimately show ?thesis
    by (intro store_okI move_count_locks) (simp_all add: ids_ok_def keys_ok_def queues_ok_def)
qed

lemma tame_clear_key: "tame (\<lambda>j. j\<lparr>j_key := None, j_attempts := j_max_attempts j\<rparr>)"
  "tame (\<lambda>j. j\<lparr>j_attempts := j_max_attempts j, j_key := None\<rparr>)"
  by (simp_all add: tame_def)

lemma tame_revision: "tame (\<lambda>j. j\<lparr>j_revision := j_revision j + 1\<rparr>)"
  by (simp add: tame_def)

lemma tame_claim: "tame (claim w now)"
  by (simp add: tame_def claim_def)

lemma tame_fail: "tame (fail_row backoff now msg)"
  by (simp add: tame_def fail_row_def)

lemma tame_unlock: "tame (\<lambda>j. j\<lparr>j_locked_at := None, j_locked_by := None\<rparr>)"
  by (simp add: tame_def)

lemma row_of_spec_fields [simp]:
  "j_locked_at (row_of_spec now s) = None" "j_locked_by (row_of_spec now s) = None"
  "j_key (row_of_spec now s) = s_key s" "j_queue (row_of_spec now s) = s_queue s"
  "j_task (row_of_spec now s) = s_identifier s" "j_attempts (row_of_spec now s) = 0"
  by (simp_all add: row_of_spec_def)

text \<open>The key is free once the locked row that had it is detached.\<close>

lemma key_detached:
  "k \<notin> set (keys_of (st_jobs (update_jobs now (\<lambda>j. j_key j = Some k)
           (\<lambda>j. j\<lparr>j_key := None, j_attempts := j_max_attempts j\<rparr>) st)))"
  by (auto simp: update_jobs_def in_keys_of)

text \<open>The paths through \<open>add_job\<close>.\<close>

lemma add_job_cases:
  assumes "add_job now s st = Inr (st', row)"
  obtains (plain) "s_key s = None" "st' = fst (insert_job (row_of_spec now s) (notify st))"
    | (fresh) k where "s_key s = Some k" "k \<noteq> []" "find_key k st = None"
        "st' = fst (insert_job (row_of_spec now s) (notify st))"
    | (replace) k old where "s_key s = Some k" "find_key k st = Some old" "j_locked_at old = None"
        "st' = move_count (j_queue old) (j_queue (replace_row s (row_of_spec now s) old))
           (update_jobs now (\<lambda>j. j_key j = Some k) (replace_row s (row_of_spec now s)) (burn_id (notify st)))"
    | (locked) k where "s_key s = Some k" "k \<noteq> []"
        "st' = fst (insert_job (row_of_spec now s)
           (update_jobs now (\<lambda>j. j_key j = Some k)
              (\<lambda>j. j\<lparr>j_key := None, j_attempts := j_max_attempts j\<rparr>) (burn_id (notify st))))"
    | (dedupe) k where "st' = update_jobs now (\<lambda>j. j_key j = Some k)
              (\<lambda>j. j\<lparr>j_revision := j_revision j + 1\<rparr>) (burn_id (notify st))"
  using assms
  by (auto simp: add_job_def Let_def split: option.splits if_splits dest: arg_cong [where f = fst])

lemma add_job_ok [kt_keeps]:
  assumes "store_ok st" "add_job now s st = Inr (st', row)"
  shows "store_ok st'"
proof -
  have n: "store_ok (notify st)" "store_ok (burn_id (notify st))"
    using assms(1) by (simp_all add: notify_ok burn_id_ok)
  have fk: "find_key k (burn_id (notify st)) = find_key k st" "find_key k (notify st) = find_key k st"
    for k by (simp_all add: find_key_def)
  from assms(2) show ?thesis
  proof (cases rule: add_job_cases)
    case plain
    then show ?thesis using n by (auto intro!: insert_job_ok)
  next
    case fresh
    then show ?thesis using n by (auto intro!: insert_job_ok simp: find_key_None)
  next
    case replace
    then show ?thesis using replace_upsert_ok [OF n(2)] fk by simp
  next
    case locked
    then show ?thesis using n key_detached
      by (auto intro!: insert_job_ok update_jobs_ok tame_clear_key)
  next
    case dedupe
    then show ?thesis using n by (simp add: update_jobs_ok tame_revision)
  qed
qed

lemma remove_job_ok [kt_keeps]: "store_ok st \<Longrightarrow> store_ok (fst (remove_job now key st))"
  by (auto simp: remove_job_def Let_def delete_jobs_ok update_jobs_ok tame_clear_key split: option.splits)

text \<open>Locking and unlocking a queue.\<close>

lemma set_queue_ok:
  assumes "store_ok st" "st_queues st n = Some r" "q_count r' = q_count r"
    and "q_locked_at r' = None \<longleftrightarrow> q_locked_by r' = None"
  shows "store_ok (st\<lparr>st_queues := (st_queues st)(n \<mapsto> r')\<rparr>)"
  using assms
  by (auto simp: store_ok_def ids_ok_def keys_ok_def queues_ok_def counts_agree_def locks_ok_def
      split: option.splits dest!: ran_upd_queue)

lemma lock_queue_ok [kt_keeps]: "store_ok st \<Longrightarrow> store_ok (lock_queue w now q st)"
  by (auto simp: lock_queue_def intro!: set_queue_ok split: option.splits)

lemma unlock_queue_ok [kt_keeps]: "store_ok st \<Longrightarrow> store_ok (unlock_queue w q st)"
  by (auto simp: unlock_queue_def intro!: set_queue_ok split: option.splits)

lemma get_job_ok [kt_keeps]: "store_ok st \<Longrightarrow> store_ok (fst (get_job held pg now w ts fl st))"
  by (auto simp: get_job_def Let_def lock_queue_ok update_jobs_ok tame_claim split: list.splits)

lemma complete_job_ok [kt_keeps]: "store_ok st \<Longrightarrow> store_ok (complete_job w i st)"
  by (auto simp: complete_job_def delete_jobs_ok unlock_queue_ok split: option.splits)

lemma fail_job_ok [kt_keeps]: "store_ok st \<Longrightarrow> store_ok (fail_job backoff now w i msg st)"
  by (auto simp: fail_job_def update_jobs_ok unlock_queue_ok tame_fail split: option.splits)

lemma reset_queues_ok:
  assumes "store_ok st"
  shows "store_ok (st\<lparr>st_queues := (\<lambda>n. map_option (\<lambda>r.
            if P r then r\<lparr>q_locked_at := None, q_locked_by := None\<rparr> else r) (st_queues st n))\<rparr>)"
proof -
  let ?st = "st\<lparr>st_queues := (\<lambda>n. map_option (\<lambda>r.
            if P r then r\<lparr>q_locked_at := None, q_locked_by := None\<rparr> else r) (st_queues st n))\<rparr>"
  have "counts_agree (\<lambda>n. jobs_in n (st_jobs st)) (st_queues ?st)"
    unfolding counts_agree_def
  proof
    fix n
    have "case st_queues st n of None \<Rightarrow> jobs_in n (st_jobs st) = 0
        | Some r \<Rightarrow> 0 < jobs_in n (st_jobs st) \<and> q_count r = int (jobs_in n (st_jobs st))"
      using store_okD(3) [OF assms] by (simp add: queues_ok_def counts_agree_def)
    then show "case st_queues ?st n of None \<Rightarrow> jobs_in n (st_jobs st) = 0
        | Some r \<Rightarrow> 0 < jobs_in n (st_jobs st) \<and> q_count r = int (jobs_in n (st_jobs st))"
      by (cases "st_queues st n") auto
  qed
  moreover have "locks_ok ?st"
    using store_okD(4) [OF assms] by (auto simp: locks_ok_def ran_def)
  ultimately show ?thesis
    using store_okD(1,2) [OF assms] by (intro store_okI) (simp_all add: ids_ok_def keys_ok_def queues_ok_def)
qed

lemma reset_locked_at_ok [kt_keeps]: "store_ok st \<Longrightarrow> store_ok (reset_locked_at pg now st)"
  unfolding reset_locked_at_def Let_def
  by (intro reset_queues_ok update_jobs_ok tame_unlock)

lemma admin_ok [kt_keeps]:
  assumes "store_ok st"
  shows "store_ok (fst (complete_jobs now ids st))"
    "store_ok (fst (permanently_fail_jobs now ids msg st))"
    "store_ok (fst (reschedule_jobs now ids r p a m st))"
  using assms
  by (auto simp: complete_jobs_def permanently_fail_jobs_def reschedule_jobs_def Let_def tame_def
      intro!: delete_jobs_ok update_jobs_ok)

lemma empty_store_ok: "store_ok empty_store"
  by (simp add: store_ok_def ids_ok_def keys_ok_def queues_ok_def counts_agree_def locks_ok_def empty_store_def)

end
