(* ===== verification/Job_Store_Spec.thy ===== *)
theory Job_Store_Spec
  imports Job_Store_Inv
begin

text \<open>
  What the statements of the job store promise: the integrity of every store a sequence of
  statements can reach, which job a worker is given, what a job key means, and what failing and
  completing do.
\<close>

section \<open>Every reachable store is sound\<close>

datatype db_op =
    AddJob int job_spec
  | RemoveJob int "string option"
  | GetJob held_rows int int string "string list option" "string list option"
  | CompleteJob string int
  | FailJob int string int string
  | ResetLocked int int
  | CompleteJobs int "int list"
  | PermanentlyFailJobs int "int list" "string option"
  | RescheduleJobs int "int list" "int option" "int option" "int option" "int option"

text \<open>A statement that raises an exception leaves the store as it was.\<close>

fun exec_op :: "(int \<Rightarrow> int) \<Rightarrow> db_op \<Rightarrow> store \<Rightarrow> store" where
  "exec_op backoff (AddJob now s) st = (case add_job now s st of Inl _ \<Rightarrow> st | Inr (st', _) \<Rightarrow> st')"
| "exec_op backoff (RemoveJob now k) st = fst (remove_job now k st)"
| "exec_op backoff (GetJob held pg now w ts fl) st = fst (get_job held pg now w ts fl st)"
| "exec_op backoff (CompleteJob w i) st = complete_job w i st"
| "exec_op backoff (FailJob now w i msg) st = fail_job backoff now w i msg st"
| "exec_op backoff (ResetLocked pg now) st = reset_locked_at pg now st"
| "exec_op backoff (CompleteJobs now ids) st = fst (complete_jobs now ids st)"
| "exec_op backoff (PermanentlyFailJobs now ids msg) st = fst (permanently_fail_jobs now ids msg st)"
| "exec_op backoff (RescheduleJobs now ids r p a m) st = fst (reschedule_jobs now ids r p a m st)"

lemma exec_op_ok: "store_ok st \<Longrightarrow> store_ok (exec_op backoff op st)"
  by (cases op) (auto simp: kt_keeps admin_ok split: sum.splits)

text \<open>
  C3: after any sequence of statements of any clients, job ids and job keys are unique, every
  queue that has jobs has one row that counts exactly its jobs and no other queue has a row, and
  a lock has a time exactly when it has an owner.
\<close>

theorem reachable_store_ok: "store_ok (fold (exec_op backoff) ops empty_store)"
proof -
  have "store_ok (fold (exec_op backoff) ops st)" if "store_ok st" for st
    using that by (induction ops arbitrary: st) (auto simp: exec_op_ok)
  then show ?thesis using empty_store_ok by blast
qed

section \<open>Taking a job\<close>

lemma arg_min_rank:
  "js \<noteq> [] \<Longrightarrow> arg_min_list f js \<in> set js \<and> (\<forall>j \<in> set js. (f (arg_min_list f js) :: 'b :: linorder) \<le> f j)"
  by (simp add: arg_min_list_in f_arg_min_list_f)

lemma get_job_cases:
  obtains (empty) "get_job held pg now w ts fl st = (st, None)"
      "\<forall>j \<in> set (st_jobs st). \<not> runnable held now ts fl st j"
  | (taken) j where "j \<in> set (st_jobs st)" "runnable held now ts fl st j"
      "\<forall>j' \<in> set (st_jobs st). runnable held now ts fl st j' \<longrightarrow> rank_of j \<le> rank_of j'"
      "get_job held pg now w ts fl st =
         (update_jobs pg (\<lambda>j'. j_id j' = j_id j) (claim w now) (lock_queue w now (j_queue j) st),
          Some (touch pg j (claim w now j)))"
proof (cases "filter (runnable held now ts fl st) (st_jobs st)")
  case Nil
  then show thesis by (intro empty) (auto simp: get_job_def filter_empty_conv)
next
  case (Cons c cs)
  let ?j = "arg_min_list rank_of (c # cs)"
  have cands: "set (c # cs) = {j \<in> set (st_jobs st). runnable held now ts fl st j}"
    using arg_cong [OF Cons, of set] by simp
  have "?j \<in> set (c # cs)" "\<forall>j' \<in> set (c # cs). rank_of ?j \<le> rank_of j'"
    using arg_min_rank [of "c # cs" rank_of] by auto
  moreover have "get_job held pg now w ts fl st =
         (update_jobs pg (\<lambda>j'. j_id j' = j_id ?j) (claim w now) (lock_queue w now (j_queue ?j) st),
          Some (touch pg ?j (claim w now ?j)))"
    by (simp add: get_job_def Cons Let_def del: arg_min_list.simps)
  ultimately show thesis unfolding cands by (intro taken [of ?j]) blast+
qed

lemma find_job_iff:
  "ids_ok st \<Longrightarrow> find_job i st = Some j \<longleftrightarrow> j \<in> set (st_jobs st) \<and> j_id j = i"
proof -
  assume ok: "ids_ok st"
  have "j \<in> set (st_jobs st) \<and> j_id j = i \<Longrightarrow> find_job i st = Some j"
  proof -
    assume a: "j \<in> set (st_jobs st) \<and> j_id j = i"
    then obtain j' where f: "find_job i st = Some j'"
      by (cases "find_job i st") (auto simp: find_job_def find_None_iff)
    then have "j' \<in> set (st_jobs st)" "j_id j' = i" by (auto simp: find_job_def find_Some_iff)
    then show ?thesis using a f ok id_unique [of "st_jobs st" j j'] by (simp add: ids_ok_def)
  qed
  then show ?thesis by (auto simp: find_job_def find_Some_iff)
qed

lemma find_job_update:
  assumes "ids_ok st" "\<forall>j. j_id (f j) = j_id j"
  shows "find_job i (update_jobs now P f st) =
           map_option (\<lambda>j. if P j then touch now j (f j) else j) (find_job i st)"
proof -
  have "find (\<lambda>j. j_id j = i) (map (\<lambda>j. if P j then touch now j (f j) else j) js) =
      map_option (\<lambda>j. if P j then touch now j (f j) else j) (find (\<lambda>j. j_id j = i) js)" for js
    using assms(2) by (induction js) auto
  then show ?thesis by (simp add: find_job_def update_jobs_def)
qed

lemma find_job_frame [simp]:
  "find_job i (lock_queue w now q st) = find_job i st"
  "find_job i (unlock_queue w q st) = find_job i st"
  by (simp_all add: find_job_def)

lemma get_job_result:
  assumes "store_ok st"
  shows "case get_job held pg now w ts fl st of
      (st', None) \<Rightarrow> st' = st \<and> (\<forall>j \<in> set (st_jobs st). \<not> runnable held now ts fl st j)
    | (st', Some row) \<Rightarrow>
        (\<exists>j \<in> set (st_jobs st). runnable held now ts fl st j \<and>
           (\<forall>j' \<in> set (st_jobs st). runnable held now ts fl st j' \<longrightarrow> rank_of j \<le> rank_of j') \<and>
           row = touch pg j (claim w now j) \<and> find_job (j_id j) st' = Some row \<and>
           (\<forall>i. i \<noteq> j_id j \<longrightarrow> find_job i st' = find_job i st))"
proof (cases rule: get_job_cases [of held pg now w ts fl st])
  case empty
  then show ?thesis by simp
next
  case (taken j)
  have ok: "ids_ok (lock_queue w now (j_queue j) st)"
    using store_okD(1) [OF assms] by (simp add: ids_ok_def)
  have f: "\<forall>j. j_id (claim w now j) = j_id j" by (simp add: claim_def)
  have j: "find_job (j_id j) st = Some j"
    using taken(1) find_job_iff [OF store_okD(1) [OF assms]] by simp
  have other: "find_job i (update_jobs pg (\<lambda>j'. j_id j' = j_id j) (claim w now)
      (lock_queue w now (j_queue j) st)) = find_job i st" if "i \<noteq> j_id j" for i
  proof -
    have "map_option (\<lambda>k. if j_id k = j_id j then touch pg k (claim w now k) else k) (find_job i st)
        = find_job i st"
      using that find_job_iff [OF store_okD(1) [OF assms], of i "the (find_job i st)"]
      by (cases "find_job i st") auto
    then show ?thesis by (simp add: find_job_update [OF ok f])
  qed
  show ?thesis
    using taken other j by (auto simp: find_job_update [OF ok f])
qed

text \<open>
  C2: a worker that asks for a job is given the first runnable one in the order of priority,
  run time and id, claimed in its name with one attempt more; no other row of \<open>jobs\<close> changes;
  and it is given none, with the store unchanged, exactly when no job is runnable.
\<close>

theorem get_job_takes_first_runnable:
  assumes "store_ok st"
  shows "case get_job held pg now w ts fl st of
      (st', None) \<Rightarrow> st' = st \<and> (\<forall>j \<in> set (st_jobs st). \<not> runnable held now ts fl st j)
    | (st', Some row) \<Rightarrow>
        (\<exists>j \<in> set (st_jobs st). runnable held now ts fl st j \<and>
           (\<forall>j' \<in> set (st_jobs st). runnable held now ts fl st j' \<longrightarrow> rank_of j \<le> rank_of j') \<and>
           row = touch pg j (claim w now j) \<and> find_job (j_id j) st' = Some row \<and>
           (\<forall>i. i \<noteq> j_id j \<longrightarrow> find_job i st' = find_job i st))"
  using assms by (rule get_job_result)

lemma get_job_takes_first_runnable_witness:
  "let st = fst (insert_job (row_of_spec 0 (plain_spec ''t'' None)) empty_store) in
   case get_job none_held 5 5 ''w'' None None st of
      (st', None) \<Rightarrow> st' = st \<and> (\<forall>j \<in> set (st_jobs st). \<not> runnable none_held 5 None None st j)
    | (st', Some row) \<Rightarrow>
        (\<exists>j \<in> set (st_jobs st). runnable none_held 5 None None st j \<and>
           (\<forall>j' \<in> set (st_jobs st). runnable none_held 5 None None st j' \<longrightarrow> rank_of j \<le> rank_of j') \<and>
           row = touch 5 j (claim ''w'' 5 j) \<and> find_job (j_id j) st' = Some row \<and>
           (\<forall>i. i \<noteq> j_id j \<longrightarrow> find_job i st' = find_job i st))"
proof -
  have "store_ok (fst (insert_job (row_of_spec 0 (plain_spec ''t'' None)) empty_store))"
    by (rule insert_job_ok [OF empty_store_ok]) (simp_all add: plain_spec_def)
  from get_job_takes_first_runnable [OF this] show ?thesis unfolding Let_def .
qed

section \<open>Job keys\<close>

text \<open>What \<open>add_job\<close> with a key does, in the words of its comments.\<close>

lemma find_key_iff:
  "keys_ok st \<Longrightarrow> find_key k st = Some j \<longleftrightarrow> j \<in> set (st_jobs st) \<and> j_key j = Some k"
proof -
  assume ok: "keys_ok st"
  have "find_key k st = Some j" if "j \<in> set (st_jobs st)" "j_key j = Some k"
  proof -
    have "find_key k st \<noteq> None" using that unfolding find_key_None in_keys_of by blast
    then obtain j' where f: "find_key k st = Some j'" by blast
    then show ?thesis using find_key_Some [OF f] key_unique [of "st_jobs st" j j' k] that ok
      by (simp add: keys_ok_def)
  qed
  then show ?thesis using find_key_Some by blast
qed

text \<open>The parts of a row that a spec determines.\<close>

definition row_has_spec :: "int \<Rightarrow> job_spec \<Rightarrow> job_row \<Rightarrow> bool" where
  "row_has_spec now s j \<longleftrightarrow>
     j_task j = s_identifier s \<and> j_payload j = coalesce (s_payload s) ''{}'' \<and>
     j_queue j = s_queue s \<and> j_priority j = coalesce (s_priority s) 0 \<and>
     j_max_attempts j = coalesce (s_max_attempts s) 25 \<and> j_flags j = flags_object (s_flags s) \<and>
     j_attempts j = 0 \<and> j_last_error j = None \<and> j_key j = s_key s \<and> j_locked_at j = None"

lemma insert_job_result:
  "insert_job row st = (st', j) \<Longrightarrow>
     j = row\<lparr>j_id := st_next_id st\<rparr> \<and> st_jobs st' = st_jobs st @ [j] \<and> j_id j = st_next_id st"
  by (auto simp: insert_job_def Let_def)

lemma fresh_row_has_spec: "row_has_spec now s ((row_of_spec now s)\<lparr>j_id := i\<rparr>)"
  by (simp add: row_has_spec_def row_of_spec_def)

lemma replaced_row_has_spec:
  "s_key s = Some k \<Longrightarrow> j_key old = Some k \<Longrightarrow> j_locked_at old = None \<Longrightarrow>
     row_has_spec now s (touch now old (replace_row s (row_of_spec now s) old))"
  by (simp add: row_has_spec_def row_of_spec_def replace_row_def)

lemma add_job_key_result:
  assumes "store_ok st" "s_key s = Some k"
    and "s_key_mode s \<in> {None, Some ''replace'', Some ''preserve_run_at''}"
    and "add_job now s st = Inr (st', row)"
  shows "find_key k st' = Some row \<and> row_has_spec now s row \<and>
     j_run_at row =
       (case find_key k st of
          Some old \<Rightarrow>
            if j_locked_at old = None \<and> s_key_mode s = Some ''preserve_run_at'' \<and> j_attempts old = 0
            then j_run_at old else coalesce (s_run_at s) now
        | None \<Rightarrow> coalesce (s_run_at s) now) \<and>
     (\<forall>old. find_key k st = Some old \<and> j_locked_at old \<noteq> None \<longrightarrow>
        (\<exists>new. find_job (j_id old) st' = Some new \<and> j_key new = None \<and>
           j_attempts new = j_max_attempts new))"
proof -
  have ok: "keys_ok st'" "ids_ok st'" using add_job_ok [OF assms(1,4)] by (auto dest: store_okD)
  have k: "k \<noteq> []" "check_spec s = None"
    using assms(2-4) by (auto simp: add_job_def Let_def split: option.splits if_splits)
  have run: "j_run_at (row_of_spec now s) = coalesce (s_run_at s) now"
    by (simp add: row_of_spec_def)
  show ?thesis
  proof (cases "find_key k st")
    case None
    then have "insert_job (row_of_spec now s) (notify st) = (st', row)"
      using assms(2-4) k by (auto simp: add_job_def)
    from insert_job_result [OF this] show ?thesis
      using None fresh_row_has_spec assms(2) ok run by (auto simp: find_key_iff)
  next
    case (Some old)
    then have o: "old \<in> set (st_jobs st)" "j_key old = Some k" using find_key_Some by blast+
    show ?thesis
    proof (cases "j_locked_at old")
      case None
      let ?new = "replace_row s (row_of_spec now s) old"
      from None Some assms(2-4) k have eq: "row = touch now old ?new"
          "st_jobs st' = st_jobs (update_jobs now (\<lambda>j. j_key j = Some k)
             (replace_row s (row_of_spec now s)) st)"
        by (auto simp: add_job_def Let_def update_jobs_def)
      then have "row \<in> set (st_jobs st')" using o by (force simp: update_jobs_def)
      moreover have "row_has_spec now s row"
        using replaced_row_has_spec assms(2) o(2) None eq(1) by blast
      moreover have "j_run_at row = (if s_key_mode s = Some ''preserve_run_at'' \<and> j_attempts old = 0
          then j_run_at old else coalesce (s_run_at s) now)"
        by (simp add: eq(1) replace_row_def run)
      ultimately show ?thesis using ok assms(2) None Some by (auto simp: find_key_iff row_has_spec_def)
    next
      case (Some t)
      let ?f = "\<lambda>j. j\<lparr>j_key := None, j_attempts := j_max_attempts j\<rparr>"
      from Some \<open>find_key k st = Some old\<close> assms(2-4) k
      have "insert_job (row_of_spec now s)
          (update_jobs now (\<lambda>j. j_key j = Some k) ?f (burn_id (notify st))) = (st', row)"
        by (auto simp: add_job_def Let_def)
      note ins = insert_job_result [OF this]
      let ?new = "touch now old (?f old)"
      have "?new \<in> set (st_jobs st')" using ins o by (force simp: update_jobs_def)
      then have "find_job (j_id old) st' = Some ?new" using ok by (simp add: find_job_iff)
      then have "\<exists>new. find_job (j_id old) st' = Some new \<and> j_key new = None \<and>
          j_attempts new = j_max_attempts new" by simp
      moreover have "find_key k st' = Some row" using ins assms(2) ok by (auto simp: find_key_iff)
      moreover have "row_has_spec now s row" using ins fresh_row_has_spec by simp
      moreover have "j_run_at row = coalesce (s_run_at s) now" using ins run by simp
      ultimately show ?thesis using Some \<open>find_key k st = Some old\<close> by simp
    qed
  qed
qed

text \<open>In the deduping mode a job that has the key is left as it is, but for its revision.\<close>

lemma add_job_deduped:
  assumes "store_ok st" "s_key s = Some k" "s_key_mode s = Some ''unsafe_dedupe''"
    and "add_job now s st = Inr (st', row)" "find_key k st = Some old"
  shows "find_key k st' = Some row \<and> row = touch now old (old\<lparr>j_revision := j_revision old + 1\<rparr>) \<and>
     (\<forall>i. i \<noteq> j_id old \<longrightarrow> find_job i st' = find_job i st)"
proof -
  let ?f = "\<lambda>j. j\<lparr>j_revision := j_revision j + 1\<rparr>"
  have ok: "keys_ok st" "ids_ok st" "keys_ok st'"
    using assms(1) add_job_ok [OF assms(1,4)] by (auto dest: store_okD)
  have o: "old \<in> set (st_jobs st)" "j_key old = Some k" using find_key_Some [OF assms(5)] by auto
  have eq: "row = touch now old (?f old)"
      "st' = update_jobs now (\<lambda>j. j_key j = Some k) ?f (burn_id (notify st))"
    using assms(2-5) by (auto simp: add_job_def Let_def split: option.splits if_splits)
  have jobs: "st_jobs st' = st_jobs (update_jobs now (\<lambda>j. j_key j = Some k) ?f st)"
    by (simp add: eq(2) update_jobs_def)
  have "row \<in> set (st_jobs st')" using o by (force simp: jobs eq(1) update_jobs_def)
  then have "find_key k st' = Some row" using ok(3) o(2) by (simp add: find_key_iff eq(1))
  moreover have "find_job i st' = find_job i st" if "i \<noteq> j_id old" for i
  proof -
    have "find_job i st' = find_job i (update_jobs now (\<lambda>j. j_key j = Some k) ?f st)"
      by (simp add: find_job_def jobs)
    also have "\<dots> = find_job i st"
    proof (cases "find_job i st")
      case (Some j)
      then have "j \<in> set (st_jobs st)" "j_id j = i" using ok(2) by (auto simp: find_job_iff)
      then have "j_key j \<noteq> Some k" using that find_key_iff [OF ok(1), of k j] assms(5) by auto
      then show ?thesis using Some by (simp add: find_job_update [OF ok(2)])
    qed (simp add: find_job_update [OF ok(2)])
    finally show ?thesis .
  qed
  ultimately show ?thesis using eq(1) by blast
qed

lemma add_job_key_new:
  assumes "store_ok st" "s_key s = Some k" "add_job now s st = Inr (st', row)" "find_key k st = None"
  shows "find_key k st' = Some row \<and> row_has_spec now s row \<and> j_run_at row = coalesce (s_run_at s) now"
proof -
  have ok: "keys_ok st'" using add_job_ok [OF assms(1,3)] by (auto dest: store_okD)
  have "insert_job (row_of_spec now s) (notify st) = (st', row)"
    using assms(2-4) by (auto simp: add_job_def Let_def split: option.splits if_splits)
  from insert_job_result [OF this] show ?thesis
    using fresh_row_has_spec assms(2) ok by (auto simp: find_key_iff) (simp add: row_of_spec_def)
qed

lemma add_job_key_modes:
  "s_key s = Some k \<Longrightarrow> add_job now s st = Inr r \<Longrightarrow>
     s_key_mode s \<in> {None, Some ''replace'', Some ''preserve_run_at'', Some ''unsafe_dedupe''}"
  by (auto simp: add_job_def Let_def split: option.splits if_splits)

text \<open>
  C4: adding a job with a key, in any mode, leaves exactly one job with that key, the one it
  returns.  When no job had the key it is a new job, not locked, with no attempts and no error,
  described by the specification.  When one had it, the deduping mode leaves that job as it was,
  locked or tried as it may be, but for its revision, and changes no other; the other modes leave
  a job, not locked and not tried, that the new specification describes, whose run time is the
  requested one, or the one of the unlocked job that had the key when the mode preserves it and
  that job has not been tried.  In these a locked job that had the key loses it and has its
  attempts used up, so it is not taken again.
\<close>

theorem add_job_key_is_current:
  assumes "store_ok st" "s_key s = Some k" "add_job now s st = Inr (st', row)"
  shows "find_key k st' = Some row \<and>
    (case find_key k st of
       None \<Rightarrow> row_has_spec now s row \<and> j_run_at row = coalesce (s_run_at s) now
     | Some old \<Rightarrow>
         if s_key_mode s = Some ''unsafe_dedupe'' then
           row = touch now old (old\<lparr>j_revision := j_revision old + 1\<rparr>) \<and>
           (\<forall>i. i \<noteq> j_id old \<longrightarrow> find_job i st' = find_job i st)
         else
           row_has_spec now s row \<and>
           j_run_at row =
             (if j_locked_at old = None \<and> s_key_mode s = Some ''preserve_run_at'' \<and> j_attempts old = 0
              then j_run_at old else coalesce (s_run_at s) now) \<and>
           (j_locked_at old \<noteq> None \<longrightarrow>
              (\<exists>new. find_job (j_id old) st' = Some new \<and> j_key new = None \<and>
                 j_attempts new = j_max_attempts new)))"
  using add_job_key_new [OF assms] add_job_deduped [OF assms(1,2) _ assms(3)]
    add_job_key_result [OF assms(1,2) _ assms(3)] add_job_key_modes [OF assms(2,3)]
  by (cases "find_key k st") auto

text \<open>The row \<open>add_job\<close> returns is in the store; it is fresh or was not locked, or the mode dedupes.\<close>

lemma add_job_returns_row:
  assumes "store_ok st" "add_job now s st = Inr (st', row)"
  shows "find_job (j_id row) st' = Some row \<and>
     (s_key_mode s \<noteq> Some ''unsafe_dedupe'' \<longrightarrow> row_has_spec now s row)"
proof (cases "s_key s = None \<or> s_key_mode s \<in> {None, Some ''replace'', Some ''preserve_run_at''}")
  case True
  have ok: "keys_ok st'" "ids_ok st'" using add_job_ok [OF assms] by (auto dest: store_okD)
  show ?thesis
  proof (cases "s_key s")
    case None
    then have "insert_job (row_of_spec now s) (notify st) = (st', row)"
      using assms(2) by (auto simp: add_job_def Let_def split: option.splits)
    from insert_job_result [OF this] show ?thesis
      using fresh_row_has_spec ok by (auto simp: find_job_iff)
  next
    case (Some k)
    then have "find_key k st' = Some row" "row_has_spec now s row"
      using add_job_key_result [OF assms(1) Some _ assms(2)] True by auto
    then show ?thesis using ok find_key_Some by (auto simp: find_job_iff)
  qed
next
  case False
  then obtain k where k: "s_key s = Some k" by auto
  have ok: "keys_ok st'" "ids_ok st'" using add_job_ok [OF assms] by (auto dest: store_okD)
  from False k assms(2) have m: "s_key_mode s = Some ''unsafe_dedupe''"
    by (auto simp: add_job_def Let_def split: option.splits if_splits)
  show ?thesis
  proof (cases "find_key k st")
    case None
    then have "insert_job (row_of_spec now s) (notify st) = (st', row)"
      using assms(2) m k by (auto simp: add_job_def Let_def split: option.splits if_splits)
    from insert_job_result [OF this] show ?thesis using ok m by (auto simp: find_job_iff)
  next
    case (Some old)
    then have o: "old \<in> set (st_jobs st)" "j_key old = Some k" using find_key_Some by blast+
    from Some assms(2) m k have "row = touch now old (old\<lparr>j_revision := j_revision old + 1\<rparr>)"
        "st_jobs st' = st_jobs (update_jobs now (\<lambda>j. j_key j = Some k)
           (\<lambda>j. j\<lparr>j_revision := j_revision j + 1\<rparr>) st)"
      by (auto simp: add_job_def Let_def update_jobs_def split: option.splits if_splits)
    then have "row \<in> set (st_jobs st')" using o by (force simp: update_jobs_def)
    then show ?thesis using ok m by (auto simp: find_job_iff)
  qed
qed

lemma add_job_with_key:
  "check_spec s = None \<Longrightarrow> s_key s = Some k \<Longrightarrow> k \<noteq> [] \<Longrightarrow>
     s_key_mode s \<in> {None, Some ''replace'', Some ''preserve_run_at''} \<Longrightarrow>
     \<exists>r. add_job now s st = Inr r"
  by (auto simp: add_job_def Let_def split: option.split)

lemma add_job_key_is_current_witness:
  "\<exists>st' row. add_job 9 ((plain_spec ''t'' (Some ''new''))\<lparr>s_key := Some ''k''\<rparr>)
       (fst (insert_job (row_of_spec 0 ((plain_spec ''t'' None)\<lparr>s_key := Some ''k''\<rparr>)) empty_store))
       = Inr (st', row) \<and>
     find_key ''k'' st' = Some row \<and> j_payload row = ''new''"
proof -
  let ?old = "(plain_spec ''t'' None)\<lparr>s_key := Some ''k''\<rparr>"
  let ?new = "(plain_spec ''t'' (Some ''new''))\<lparr>s_key := Some ''k''\<rparr>"
  let ?st = "fst (insert_job (row_of_spec 0 ?old) empty_store)"
  have ok: "store_ok ?st"
    by (rule insert_job_ok [OF empty_store_ok]) (simp_all add: plain_spec_def empty_store_def)
  have "check_spec ?new = None" by (simp add: check_spec_def plain_spec_def)
  then have "\<exists>r. add_job 9 ?new ?st = Inr r"
    by (rule add_job_with_key [where k = "''k''"]) (simp_all add: plain_spec_def)
  then obtain r where r: "add_job 9 ?new ?st = Inr r" by blast
  obtain st' row where eq: "r = (st', row)" by (cases r)
  have "s_key ?new = Some ''k''" by simp
  moreover have "s_key_mode ?new \<in> {None, Some ''replace'', Some ''preserve_run_at''}"
    by (simp add: plain_spec_def)
  ultimately have "find_key ''k'' st' = Some row \<and> row_has_spec 9 ?new row"
    using add_job_key_is_current [OF ok _ r [unfolded eq]] by (auto split: option.splits if_splits)
  then show ?thesis using r eq by (auto simp: row_has_spec_def plain_spec_def coalesce_def)
qed

text \<open>
  C21: removing a key that a job has leaves no job with the key; the job is deleted when it is
  not locked, and otherwise stays with its attempts used up, so that it is not retried.
\<close>

theorem remove_job_spec:
  assumes "store_ok st" "find_key k st = Some old"
  shows "find_key k (fst (remove_job now (Some k) st)) = None \<and>
     (if j_locked_at old = None
      then snd (remove_job now (Some k) st) = Some old \<and>
           find_job (j_id old) (fst (remove_job now (Some k) st)) = None
      else \<exists>new. snd (remove_job now (Some k) st) = Some new \<and>
           find_job (j_id old) (fst (remove_job now (Some k) st)) = Some new \<and>
           j_attempts new = j_max_attempts new)"
proof -
  have o: "old \<in> set (st_jobs st)" "j_key old = Some k" using find_key_Some [OF assms(2)] by auto
  have ks: "keys_ok st" "ids_ok st" using store_okD [OF assms(1)] by auto
  have uq: "j = old" if "j \<in> set (st_jobs st)" "j_key j = Some k" for j
    using key_unique [OF _ that(1) o(1) that(2) o(2)] ks by (simp add: keys_ok_def)
  show ?thesis
  proof (cases "j_locked_at old")
    case None
    have gone: "i \<in> set (st_jobs st) \<Longrightarrow> j_id i = j_id old \<Longrightarrow> i = old" for i
      using id_unique [of "st_jobs st" i old] o ks by (simp add: ids_ok_def)
    let ?st' = "delete_jobs (\<lambda>j. j_key j = Some k \<and> j_locked_at j = None) st"
    have eq: "remove_job now (Some k) st = (?st', Some old)"
      using None assms(2) by (simp add: remove_job_def)
    have "\<forall>j \<in> set (st_jobs ?st'). j_key j \<noteq> Some k" using uq None by auto
    then have "find_key k ?st' = None" unfolding find_key_None in_keys_of by blast
    moreover have "\<forall>j \<in> set (st_jobs ?st'). j_id j \<noteq> j_id old"
    proof (intro ballI notI)
      fix j assume j: "j \<in> set (st_jobs ?st')" "j_id j = j_id old"
      then have "j = old" by (intro gone) simp_all
      with j(1) None o(2) show False by simp
    qed
    then have "find_job (j_id old) ?st' = None" unfolding find_job_def find_None_iff by blast
    ultimately show ?thesis using None eq by simp
  next
    case (Some t)
    let ?f = "\<lambda>j. j\<lparr>j_attempts := j_max_attempts j, j_key := None\<rparr>"
    have "find_job (j_id old) (update_jobs now (\<lambda>j. j_key j = Some k) ?f st) = Some (touch now old (?f old))"
      using o by (subst find_job_update [OF ks(2)]) (auto simp: find_job_iff [OF ks(2)])
    then show ?thesis
      using Some assms(2)
      by (auto simp: remove_job_def find_key_None in_keys_of update_jobs_def Let_def)
  qed
qed

lemma remove_job_spec_witness:
  "find_key ''k'' (fst (remove_job 9 (Some ''k'')
     (fst (insert_job (row_of_spec 0 ((plain_spec ''t'' None)\<lparr>s_key := Some ''k''\<rparr>)) empty_store)))) = None"
proof -
  let ?st = "fst (insert_job (row_of_spec 0 ((plain_spec ''t'' None)\<lparr>s_key := Some ''k''\<rparr>)) empty_store)"
  have ok: "store_ok ?st"
    by (rule insert_job_ok [OF empty_store_ok]) (simp_all add: plain_spec_def empty_store_def)
  have "\<exists>old. find_key ''k'' ?st = Some old"
    by (simp add: find_key_def insert_job_def empty_store_def plain_spec_def Let_def)
  then show ?thesis using remove_job_spec [OF ok] by blast
qed

section \<open>Failing and completing\<close>

text \<open>
  C20: a job failed by the worker that holds it is unlocked and not runnable before the backoff
  has passed, counted from now or from its run time, whichever is later; failed by anyone else,
  nothing changes.
\<close>

theorem fail_job_reschedules:
  assumes "store_ok st" "find_job i st = Some j"
  shows "if j_locked_by j = Some w
     then \<exists>new. find_job i (fail_job backoff now w i msg st) = Some new \<and>
        j_locked_at new = None \<and> j_locked_by new = None \<and> j_last_error new = Some msg \<and>
        j_attempts new = j_attempts j \<and>
        (\<forall>held t ts fl. t < max now (j_run_at j) + backoff (min (j_attempts j) 10) \<longrightarrow>
           \<not> runnable held t ts fl (fail_job backoff now w i msg st) new)
     else fail_job backoff now w i msg st = st"
proof (cases "j_locked_by j = Some w")
  case True
  have ids: "ids_ok st" using store_okD [OF assms(1)] by auto
  let ?P = "\<lambda>j'. j_id j' = i \<and> j_locked_by j' = Some w"
  have f: "find_job i (update_jobs now ?P (fail_row backoff now msg) st)
      = Some (touch now j (fail_row backoff now msg j))"
    using True assms(2) find_job_iff [OF ids, of i j]
    by (subst find_job_update [OF ids]) (auto simp: fail_row_def)
  show ?thesis
    using True assms(2) f by (auto simp: fail_job_def fail_row_def runnable_def)
next
  case False
  then show ?thesis using assms(2) by (simp add: fail_job_def)
qed

lemma fail_job_reschedules_witness:
  "let st = fst (get_job none_held 5 5 ''w'' None None
       (fst (insert_job (row_of_spec 0 (plain_spec ''t'' None)) empty_store)))
   in \<exists>new. find_job 1 (fail_job (\<lambda>n. n * 1000000) 7 ''w'' 1 ''boom'' st) = Some new \<and>
        j_locked_at new = None \<and> j_last_error new = Some ''boom''"
proof -
  let ?st = "fst (get_job none_held 5 5 ''w'' None None
       (fst (insert_job (row_of_spec 0 (plain_spec ''t'' None)) empty_store)))"
  have ok: "store_ok ?st"
    by (intro get_job_ok insert_job_ok [OF empty_store_ok]) (simp_all add: plain_spec_def)
  obtain j where j: "find_job 1 ?st = Some j" "j_locked_by j = Some ''w''"
    by (simp add: get_job_def insert_job_def empty_store_def plain_spec_def row_of_spec_def Let_def
        runnable_def queue_free_def none_held_def increase_count_def lock_queue_def update_jobs_def
        find_job_def claim_def coalesce_def touch_def)
  show ?thesis using fail_job_reschedules [OF ok j(1), of "''w''" "\<lambda>n. n * 1000000" 7 "''boom''"] j(2)
    unfolding Let_def by auto
qed

section \<open>A completion without the lock\<close>

text \<open>
  \<open>CompleteJob\<close> does not look at who holds the job, but frees the queue only for its holder.
  Here worker \<open>w1\<close> outlives the four hours, \<open>w2\<close> takes the job again, and \<open>w1\<close> completes it:
  when \<open>w2\<close> completes it too there is no row left to lead to the queue, which stays locked.
\<close>

definition queued :: "string \<Rightarrow> job_spec" where
  "queued q = (plain_spec ''t'' None)\<lparr>s_queue := Some q\<rparr>"

definition double_completion :: "db_op list" where
  "double_completion =
     [AddJob 0 (queued ''q''), AddJob 0 (queued ''q''),
      GetJob none_held 1 1 ''w1'' None None,
      ResetLocked 18000000000 18000000000,
      GetJob none_held 18000000001 18000000001 ''w2'' None None,
      CompleteJob ''w1'' 1, CompleteJob ''w2'' 1]"

lemmas add_defs = plain_spec_def add_job_def check_spec_def insert_job_def notify_def
  row_of_spec_def increase_count_def coalesce_def flags_object_def empty_store_def Let_def
lemmas take_defs = get_job_def runnable_def queue_free_def none_held_def rank_of_def lock_queue_def
  update_jobs_def claim_def touch_def Let_def
lemmas reset_defs = reset_locked_at_def update_jobs_def stale_def hours4_def touch_def Let_def
lemmas finish_defs = complete_job_def find_job_def unlock_queue_def delete_jobs_def decrease_count_def

lemma double_completion_state:
  "\<exists>j r. st_jobs (fold (exec_op backoff) double_completion empty_store) = [j] \<and> j_id j = 2 \<and>
     j_locked_at j = None \<and> j_attempts j = 0 \<and> j_queue j = Some ''q'' \<and>
     st_queues (fold (exec_op backoff) double_completion empty_store) ''q'' = Some r \<and>
     q_locked_at r \<noteq> None"
  apply (simp add: double_completion_def queued_def add_defs)
  apply (simp add: take_defs)
  apply (simp add: reset_defs)
  apply (simp add: take_defs hours4_def)
  apply (simp add: finish_defs)
  done

text \<open>
  After that sequence the second job of the queue is not locked and has attempts left, and
  still no request of any worker at any time is given a job, until a reset of stale locks.
\<close>

theorem double_completion_blocks_queue:
  "let st = fold (exec_op backoff) double_completion empty_store in
     (\<exists>j. find_job 2 st = Some j \<and> j_locked_at j = None \<and> j_attempts j = 0) \<and>
     (\<forall>held pg now w ts fl. get_job held pg now w ts fl st = (st, None))"
proof -
  obtain j r where st:
    "st_jobs (fold (exec_op backoff) double_completion empty_store) = [j]" "j_id j = 2"
    "j_locked_at j = None" "j_attempts j = 0" "j_queue j = Some ''q''"
    "st_queues (fold (exec_op backoff) double_completion empty_store) ''q'' = Some r"
    "q_locked_at r \<noteq> None"
    using double_completion_state by blast
  then show ?thesis
    by (simp add: Let_def find_job_def get_job_def runnable_def queue_free_def)
qed

end
