(* ===== verification/Job_Source.thy ===== *)
theory Job_Source
  imports Job_Store_Spec
begin

text \<open>
  The interface between a worker and the store it works for: whoever holds a job finishes it,
  completing or failing it, and afterwards no job is held for it.  The job store of the
  migrations provides it.
\<close>

locale job_source =
  fixes valid :: "'s \<Rightarrow> bool"
    and row :: "int \<Rightarrow> 's \<Rightarrow> 'j option"
    and owner :: "'j \<Rightarrow> string option"
    and complete :: "string \<Rightarrow> int \<Rightarrow> 's \<Rightarrow> 's"
    and fail :: "string \<Rightarrow> int \<Rightarrow> string \<Rightarrow> 's \<Rightarrow> 's"
  assumes valid_complete: "valid s \<Longrightarrow> valid (complete w i s)"
    and valid_fail: "valid s \<Longrightarrow> valid (fail w i m s)"
    and row_complete: "valid s \<Longrightarrow> row i (complete w i s) = None"
    and row_complete_other: "valid s \<Longrightarrow> i' \<noteq> i \<Longrightarrow> row i' (complete w i s) = row i' s"
    and row_fail: "valid s \<Longrightarrow> row i s = Some j \<Longrightarrow> owner j = Some w \<Longrightarrow>
                     \<exists>j'. row i (fail w i m s) = Some j' \<and> owner j' = None"
    and row_fail_other: "valid s \<Longrightarrow> i' \<noteq> i \<Longrightarrow> row i' (fail w i m s) = row i' s"
begin

text \<open>Finishing a held job, by its outcome, frees it and touches no other.\<close>

lemma settled:
  assumes "valid s" "row i s = Some j" "owner j = Some w"
    and "s' = (case err of None \<Rightarrow> complete w i s | Some m \<Rightarrow> fail w i m s)"
  shows "valid s' \<and> (case err of None \<Rightarrow> row i s' = None
      | Some m \<Rightarrow> \<exists>j'. row i s' = Some j' \<and> owner j' = None) \<and> (\<forall>i'. i' \<noteq> i \<longrightarrow> row i' s' = row i' s)"
  using assms valid_complete valid_fail row_complete row_complete_other row_fail row_fail_other
  by (cases err) auto

end

section \<open>The job store provides it\<close>

lemma find_job_delete_where:
  assumes "ids_ok st"
  shows "find_job i (delete_jobs P st) =
    (case find_job i st of None \<Rightarrow> None | Some j \<Rightarrow> if P j then None else Some j)"
proof -
  have "find (\<lambda>j. j_id j = i) (filter (\<lambda>j. \<not> P j) js) =
      (case find (\<lambda>j. j_id j = i) js of None \<Rightarrow> None | Some j \<Rightarrow> if P j then None else Some j)"
    if "distinct (map j_id js)" for js
    using that by (induction js) (auto simp: find_None_iff split: option.splits dest!: find_SomeD)
  then show ?thesis using assms unfolding find_job_def delete_jobs_frame ids_ok_def by blast
qed

lemma find_job_delete:
  "ids_ok st \<Longrightarrow> find_job i (delete_jobs (\<lambda>j. j_id j = k) st) = (if i = k then None else find_job i st)"
proof -
  have "find (\<lambda>j. j_id j = i) (filter (\<lambda>j. \<not> j_id j = k) js)
      = (if i = k then None else find (\<lambda>j. j_id j = i) js)" for js
    by (induction js) auto
  then show ?thesis unfolding find_job_def delete_jobs_frame .
qed

lemma find_job_complete:
  "store_ok st \<Longrightarrow> find_job i (complete_job w k st) = (if i = k then None else find_job i st)"
proof (cases "find_job k st")
  case None
  then show ?thesis by (simp add: complete_job_def)
next
  case (Some j)
  assume "store_ok st"
  then have "ids_ok (unlock_queue w (j_queue j) st)" by (simp add: unlock_queue_ok store_okD)
  then show ?thesis using Some by (simp add: complete_job_def find_job_delete)
qed

lemma find_job_fail:
  assumes "store_ok st" "find_job k st = Some j"
  shows "find_job k (fail_job backoff now w k m st) =
      Some (if j_locked_by j = Some w then touch now j (fail_row backoff now m j) else j)"
proof -
  have ids: "ids_ok st" using store_okD [OF assms(1)] by auto
  have "j_id j = k" using assms(2) find_job_iff [OF ids] by blast
  then show ?thesis
    using assms(2) by (simp add: fail_job_def find_job_update [OF ids] fail_row_def)
qed

lemma find_job_fail_other:
  assumes "store_ok st" "i \<noteq> k"
  shows "find_job i (fail_job backoff now w k m st) = find_job i st"
proof -
  have ids: "ids_ok st" using store_okD [OF assms(1)] by auto
  have "map_option (\<lambda>j. if j_id j = k \<and> j_locked_by j = Some w then touch now j (fail_row backoff now m j) else j)
      (find_job i st) = find_job i st"
    using assms(2) find_job_iff [OF ids, of i "the (find_job i st)"] by (cases "find_job i st") auto
  then show ?thesis
    by (simp add: fail_job_def find_job_update [OF ids] fail_row_def split: option.split)
qed

interpretation pg: job_source store_ok find_job j_locked_by complete_job
    "\<lambda>w i m. fail_job backoff now w i m" for backoff now
  by unfold_locales
     (auto simp: complete_job_ok fail_job_ok find_job_complete find_job_fail find_job_fail_other
        fail_row_def)

end
