(* ===== verification/Worker.thy ===== *)
theory Worker
  imports Job_Store_Spec "HOL-Library.AList"
begin

text \<open>
  The worker (pkg/worker/worker.go): fetching, processing and finishing jobs, the polling loop,
  the run-once loop, nudging, releasing, and the timer of the stale-lock sweep.

  A worker's configuration is a record; what changes while it runs is the state \<open>wstate\<close>,
  with the job store it talks to, the clocks and the events it has emitted.  Between two steps of
  the worker other goroutines and the database act: \<open>ws_script\<close> says what happens during each
  call that waits (a statement or a sleep), a list of any length after which nothing happens.
  Task handlers are user code: functions of the payload and the job on the state, which return an
  error or none, or panic.  Log output is left out.
\<close>

section \<open>Events\<close>

datatype event_type =
    PoolCreate | PoolListenConnecting | PoolListenSuccess | PoolListenError | PoolError
  | PoolRelease | PoolGracefulShutdown | PoolShutdownError
  | WorkerCreate | WorkerRelease | WorkerStop | WorkerGetJobStart | WorkerGetJobError
  | WorkerGetJobEmpty | WorkerFatalError
  | JobStart | JobSuccess | JobError | JobFailed | JobComplete
  | GracefulShutdown | Stop

record event =
  ev_type :: event_type
  ev_worker :: string
  ev_job :: "int option"
  ev_error :: "string option"

section \<open>State\<close>

datatype db_result = DbWorks | AcquireFails string | QueryFails string

text \<open>
  What happens while the worker waits once; \<open>es_nudge_first\<close> is the choice of the \<open>select\<close> of \<open>Run\<close>
  before it, when the context is cancelled and a nudge waits.  \<open>es_read\<close> is what becomes of the row
  a \<open>GetJob\<close> has claimed: it is read, or it cannot be scanned, or its flags do not parse.
\<close>

datatype claim_reading = ClaimRead | ClaimScanFails string | ClaimFlagsFail string

record env_step =
  es_result :: db_result
  es_elapsed :: int
  es_release :: bool
  es_cancel :: bool
  es_nudge :: bool
  es_nudge_first :: bool
  es_held :: held_rows
  es_read :: claim_reading

definition quiet :: env_step where
  "quiet = \<lparr>es_result = DbWorks, es_elapsed = 0, es_release = False, es_cancel = False,
     es_nudge = False, es_nudge_first = False, es_held = none_held,
     es_read = ClaimRead\<rparr>"

record wstate =
  ws_store :: store
  ws_events :: "event list"
  ws_now :: int
  ws_node_now :: int
  ws_backoff :: "int \<Rightarrow> int"
  ws_script :: "env_step list"
  ws_active :: bool
  ws_cancelled :: bool
  ws_nudged :: bool
  ws_active_job :: "int option"
  ws_errors :: nat
  ws_reset_timer :: "int option"
  ws_pool_closed :: bool

text \<open>
  How a call ends: it returns an error or none, or a panic of a task passes through it.  Nothing in
  the worker recovers from a panic; the goroutine of a pool does.
\<close>

datatype 'e ended = Returned "'e option" | Panicked string

type_synonym handler = "string \<Rightarrow> job_row \<Rightarrow> wstate \<Rightarrow> wstate \<times> string ended"

record worker =
  wk_id :: string
  wk_schema :: string
  wk_handlers :: "(string \<times> handler) list"
  wk_poll_interval :: int
  wk_continuous :: bool
  wk_no_prepared :: bool
  wk_forbidden :: "string list option"
  wk_forbidden_fn :: "(wstate \<Rightarrow> (string, string list) result) option"
  wk_use_node_time :: bool
  wk_event_bus :: bool

datatype worker_error =
    PayloadFailed string
  | NoConnection string
  | StatementFailed string
  | FlagsUnparsed string
  | ForbiddenFlagsFailed string
  | NoHandler string
  | TaskFailed string
  | ReleaseAfterFailure int string worker_error
  | ReleaseAfterSuccess int worker_error
  | NoRunnableTasks
  | GetJobFailed worker_error
  | JobProcessingFailed worker_error
  | FailedInARow nat worker_error
  | ContextCancelled

section \<open>Configuration\<close>

definition default_poll_interval :: int where "default_poll_interval = 2000000000"
definition max_contiguous_errors :: nat where "max_contiguous_errors = 10"
definition error_retry_delay :: int where "error_retry_delay = 1000000000"

text \<open>\<open>generateWorkerID\<close>: nine random bytes in hexadecimal, or the time when there are none.\<close>

definition hex_digit :: "nat \<Rightarrow> char" where
  "hex_digit n = (if n < 10 then char_of (48 + n) else char_of (87 + n))"

fun hex_encode :: "nat list \<Rightarrow> string" where
  "hex_encode [] = []"
| "hex_encode (b # bs) = hex_digit (b div 16) # hex_digit (b mod 16) # hex_encode bs"

definition generate_worker_id :: "nat list option \<Rightarrow> int \<Rightarrow> string" where
  "generate_worker_id random_bytes unix_nano =
     (case random_bytes of
        Some bs \<Rightarrow> ''worker-'' @ hex_encode bs
      | None \<Rightarrow> ''worker-'' @ itoa unix_nano)"

type_synonym worker_option = "worker \<Rightarrow> worker"

definition new_worker :: "string \<Rightarrow> string \<Rightarrow> worker_option list \<Rightarrow> worker" where
  "new_worker worker_id schema opts =
     fold (\<lambda>opt w. opt w) opts
       \<lparr>wk_id = worker_id, wk_schema = schema, wk_handlers = [],
        wk_poll_interval = default_poll_interval, wk_continuous = True, wk_no_prepared = False,
        wk_forbidden = None, wk_forbidden_fn = None, wk_use_node_time = False, wk_event_bus = False\<rparr>"

text \<open>The state a new worker starts from, with \<open>active: true\<close> and no timer.\<close>

definition new_state :: "store \<Rightarrow> int \<Rightarrow> int \<Rightarrow> (int \<Rightarrow> int) \<Rightarrow> env_step list \<Rightarrow> wstate" where
  "new_state st now node_now backoff script =
     \<lparr>ws_store = st, ws_events = [], ws_now = now, ws_node_now = node_now, ws_backoff = backoff,
      ws_script = script, ws_active = True, ws_cancelled = False, ws_nudged = False,
      ws_active_job = None, ws_errors = 0, ws_reset_timer = None, ws_pool_closed = False\<rparr>"

definition with_poll_interval :: "int \<Rightarrow> worker_option" where
  "with_poll_interval d w = w\<lparr>wk_poll_interval := d\<rparr>"
definition with_worker_id :: "string \<Rightarrow> worker_option" where
  "with_worker_id i w = w\<lparr>wk_id := i\<rparr>"
definition with_continuous :: "bool \<Rightarrow> worker_option" where
  "with_continuous c w = w\<lparr>wk_continuous := c\<rparr>"
definition with_no_prepared_statements :: "bool \<Rightarrow> worker_option" where
  "with_no_prepared_statements b w = w\<lparr>wk_no_prepared := b\<rparr>"
definition with_forbidden_flags :: "string list option \<Rightarrow> worker_option" where
  "with_forbidden_flags fs w = w\<lparr>wk_forbidden := fs\<rparr>"
definition with_forbidden_flags_fn ::
  "(wstate \<Rightarrow> (string, string list) result) option \<Rightarrow> worker_option" where
  "with_forbidden_flags_fn fn w = w\<lparr>wk_forbidden_fn := fn\<rparr>"
definition with_event_bus :: "bool \<Rightarrow> worker_option" where
  "with_event_bus b w = w\<lparr>wk_event_bus := b\<rparr>"
definition with_use_node_time :: "bool \<Rightarrow> worker_option" where
  "with_use_node_time b w = w\<lparr>wk_use_node_time := b\<rparr>"

definition emit :: "worker \<Rightarrow> event_type \<Rightarrow> int option \<Rightarrow> string option \<Rightarrow> wstate \<Rightarrow> wstate" where
  "emit wk ty job err st =
     (if wk_event_bus wk
      then st\<lparr>ws_events := ws_events st @
             [\<lparr>ev_type = ty, ev_worker = wk_id wk, ev_job = job, ev_error = err\<rparr>]\<rparr>
      else st)"

text \<open>The map of handlers: registering a task again replaces its handler.\<close>

definition register_task :: "string \<Rightarrow> handler \<Rightarrow> worker \<times> wstate \<Rightarrow> worker \<times> wstate" where
  "register_task task h ws =
     (let wk = fst ws; is_first = wk_handlers wk = [];
          wk' = wk\<lparr>wk_handlers := AList.update task h (wk_handlers wk)\<rparr>
      in (wk', if is_first then emit wk' WorkerCreate None None (snd ws) else snd ws))"

record worker_options =
  wo_poll_interval :: int
  wo_worker_id :: string
  wo_continuous :: bool
  wo_no_prepared :: bool
  wo_use_node_time :: bool
  wo_forbidden :: "string list option"
  wo_forbidden_fn :: "(wstate \<Rightarrow> (string, string list) result) option"

definition no_worker_options :: worker_options where
  "no_worker_options = \<lparr>wo_poll_interval = 0, wo_worker_id = [], wo_continuous = False,
     wo_no_prepared = False, wo_use_node_time = False, wo_forbidden = None, wo_forbidden_fn = None\<rparr>"

definition make_new_worker ::
  "string \<Rightarrow> string \<Rightarrow> (string \<times> handler) list \<Rightarrow> worker_options option \<Rightarrow> bool \<Rightarrow> wstate
     \<Rightarrow> worker \<times> wstate" where
  "make_new_worker worker_id schema tasks options continuous st =
     (let o' = (case options of None \<Rightarrow> no_worker_options | Some x \<Rightarrow> x);
          opts = (if wo_poll_interval o' > 0 then [with_poll_interval (wo_poll_interval o')] else [])
               @ (if wo_worker_id o' \<noteq> [] then [with_worker_id (wo_worker_id o')] else [])
               @ (if wo_no_prepared o' then [with_no_prepared_statements (wo_no_prepared o')] else [])
               @ (if wo_forbidden o' \<noteq> None then [with_forbidden_flags (wo_forbidden o')] else [])
               @ (case wo_forbidden_fn o' of None \<Rightarrow> [] | Some f \<Rightarrow> [with_forbidden_flags_fn (Some f)]);
          w0 = new_worker worker_id schema opts;
          w1 = w0\<lparr>wk_continuous := wo_continuous o'\<rparr>;
          w2 = (if \<not> wk_continuous w1 \<and> \<not> wo_continuous o' then w1\<lparr>wk_continuous := True\<rparr> else w1);
          (w3, st') = fold (\<lambda>(t, h). register_task t h) tasks (w2, st)
      in (w3\<lparr>wk_continuous := continuous\<rparr>, st'))"

section \<open>Release and the sweep's timer\<close>

text \<open>\<open>scheduleResetLocked\<close> replaces the timer; \<open>cancelResetLockedTimer\<close> stops it.\<close>

definition schedule_reset_locked :: "int \<Rightarrow> wstate \<Rightarrow> wstate" where
  "schedule_reset_locked delay st = st\<lparr>ws_reset_timer := Some delay\<rparr>"

definition cancel_reset_locked_timer :: "wstate \<Rightarrow> wstate" where
  "cancel_reset_locked_timer st = st\<lparr>ws_reset_timer := None\<rparr>"

text \<open>\<open>initial_delay\<close> is the random first delay, up to a minute.\<close>

definition set_active :: "int \<Rightarrow> bool \<Rightarrow> wstate \<Rightarrow> wstate" where
  "set_active initial_delay active st =
     (let was_active = ws_active st; st' = st\<lparr>ws_active := active\<rparr> in
      if active \<and> \<not> was_active then schedule_reset_locked initial_delay st'
      else if \<not> active \<and> was_active then cancel_reset_locked_timer st'
      else st')"

definition release :: "worker \<Rightarrow> wstate \<Rightarrow> wstate" where
  "release wk st =
     (if \<not> ws_active st then st
      else emit wk WorkerStop None None (set_active 0 False (emit wk WorkerRelease None None st)))"

definition nudge :: "wstate \<Rightarrow> wstate \<times> bool" where
  "nudge st = (st\<lparr>ws_nudged := True\<rparr>, \<not> ws_nudged st)"

definition reset_locked_delay :: "(int \<Rightarrow> int) \<Rightarrow> int \<Rightarrow> int \<Rightarrow> int" where
  "reset_locked_delay random min_interval max_interval =
     (if min_interval \<ge> max_interval then min_interval
      else min_interval + random (max_interval - min_interval))"

section \<open>Waiting\<close>

definition next_env :: "wstate \<Rightarrow> env_step" where
  "next_env st = (case ws_script st of [] \<Rightarrow> quiet | e # es \<Rightarrow> e)"

definition wait :: "worker \<Rightarrow> wstate \<Rightarrow> wstate" where
  "wait wk st =
     (let e = next_env st;
          st1 = st\<lparr>ws_script := tl (ws_script st), ws_now := ws_now st + es_elapsed e,
                  ws_node_now := ws_node_now st + es_elapsed e,
                  ws_cancelled := ws_cancelled st \<or> es_cancel e,
                  ws_nudged := ws_nudged st \<or> es_nudge e\<rparr>
      in if es_release e then release wk st1 else st1)"

text \<open>\<open>time.Sleep\<close> of a duration in nanoseconds; the clocks run in microseconds.\<close>

definition sleep :: "worker \<Rightarrow> int \<Rightarrow> wstate \<Rightarrow> wstate" where
  "sleep wk d st =
     (let st' = wait wk st
      in st'\<lparr>ws_now := ws_now st' + d div 1000, ws_node_now := ws_node_now st' + d div 1000\<rparr>)"

section \<open>Database calls\<close>

text \<open>
  A call to the database: a closed pool gives no connection.  In the worker's context it gives none
  once that is cancelled; the sweep of stale locks has a context of its own.
\<close>

definition pool_result :: "wstate \<Rightarrow> db_result" where
  "pool_result st = (if ws_pool_closed st then AcquireFails ''closed pool'' else es_result (next_env st))"

definition call_result :: "wstate \<Rightarrow> db_result" where
  "call_result st = (if ws_cancelled st then AcquireFails ''context canceled'' else pool_result st)"

text \<open>\<open>GetJob\<close>: \<open>AcquireFails\<close> is an error of \<open>pool.Acquire\<close>, \<open>QueryFails\<close> one of \<open>Scan\<close>.\<close>

definition forbidden_flags :: "worker \<Rightarrow> wstate \<Rightarrow> (string, string list) result" where
  "forbidden_flags wk st =
     (case wk_forbidden wk of
        Some fs \<Rightarrow> Inr fs
      | None \<Rightarrow> (case wk_forbidden_fn wk of Some f \<Rightarrow> f st | None \<Rightarrow> Inr []))"

definition nonempty :: "string list \<Rightarrow> string list option" where
  "nonempty xs = (if xs \<noteq> [] then Some xs else None)"

definition worker_now :: "worker \<Rightarrow> wstate \<Rightarrow> int" where
  "worker_now wk st = (if wk_use_node_time wk then ws_node_now st else ws_now st)"

text \<open>
  The row of a job is claimed when the statement is done; an error of reading it leaves the job
  locked.  The row stands for the job the scan makes of it (\<open>Job_Scan\<close>).
\<close>

definition read_claimed ::
  "worker \<Rightarrow> claim_reading \<Rightarrow> job_row \<Rightarrow> wstate \<Rightarrow> wstate \<times> (worker_error, job_row option) result" where
  "read_claimed wk reading job st =
     (case reading of
        ClaimScanFails m \<Rightarrow> (emit wk WorkerGetJobError None (Some m) st, Inl (StatementFailed m))
      | ClaimFlagsFail m \<Rightarrow>
          if j_flags job \<noteq> None then (st, Inl (FlagsUnparsed m)) else (st, Inr (Some job))
      | ClaimRead \<Rightarrow> (st, Inr (Some job)))"

lemma read_claimed_read [simp]: "read_claimed wk ClaimRead job st = (st, Inr (Some job))"
  by (simp add: read_claimed_def)

lemma read_claimed_result:
  "read_claimed wk reading job st = (st', r) \<Longrightarrow>
     ws_store st' = ws_store st \<and> r \<noteq> Inr None \<and> (\<forall>job'. r = Inr (Some job') \<longrightarrow> job' = job \<and> st' = st) \<and>
     (\<forall>e. r = Inl e \<longrightarrow> e \<noteq> ContextCancelled)"
  by (auto simp: read_claimed_def emit_def split: claim_reading.splits if_splits)

definition worker_get_job ::
  "worker \<Rightarrow> wstate \<Rightarrow> wstate \<times> (worker_error, job_row option) result" where
  "worker_get_job wk st0 =
     (let st = emit wk WorkerGetJobStart None None st0; e = next_env st; st' = wait wk st in
      case call_result st of
        AcquireFails m \<Rightarrow> (st', Inl (NoConnection m))
      | r \<Rightarrow>
          (case forbidden_flags wk st of
             Inl m \<Rightarrow> (st', Inl (ForbiddenFlagsFailed m))
           | Inr flags \<Rightarrow>
               (case r of
                  QueryFails m \<Rightarrow> (emit wk WorkerGetJobError None (Some m) st', Inl (StatementFailed m))
                | _ \<Rightarrow>
                    (case get_job (es_held e) (ws_now st) (worker_now wk st) (wk_id wk)
                            (nonempty (map fst (wk_handlers wk))) (nonempty flags) (ws_store st) of
                       (db, None) \<Rightarrow> (emit wk WorkerGetJobEmpty None None st', Inr None)
                     | (db, Some job) \<Rightarrow> read_claimed wk (es_read e) job (st'\<lparr>ws_store := db\<rparr>)))))"

text \<open>A statement that returns no row.\<close>

definition statement ::
  "worker \<Rightarrow> (wstate \<Rightarrow> db_result) \<Rightarrow> (wstate \<Rightarrow> store) \<Rightarrow> wstate \<Rightarrow> wstate \<times> worker_error option" where
  "statement wk result f st =
     (let st' = wait wk st in
      case result st of
        AcquireFails m \<Rightarrow> (st', Some (NoConnection m))
      | QueryFails m \<Rightarrow> (st', Some (StatementFailed m))
      | DbWorks \<Rightarrow> (st'\<lparr>ws_store := f st\<rparr>, None))"

definition worker_complete_job :: "worker \<Rightarrow> int \<Rightarrow> wstate \<Rightarrow> wstate \<times> worker_error option" where
  "worker_complete_job wk i = statement wk call_result (\<lambda>st. complete_job (wk_id wk) i (ws_store st))"

definition worker_fail_job :: "worker \<Rightarrow> int \<Rightarrow> string \<Rightarrow> wstate \<Rightarrow> wstate \<times> worker_error option" where
  "worker_fail_job wk i message =
     statement wk call_result (\<lambda>st. fail_job (ws_backoff st) (ws_now st) (wk_id wk) i message (ws_store st))"

text \<open>
  \<open>AddJob\<close>, in a context of the caller: an exception of \<open>add_job\<close> is an error of the statement.
\<close>

definition add_error_text :: "add_error \<Rightarrow> string" where
  "add_error_text e = (case e of GWBID \<Rightarrow> ''GWBID'' | GWBQN \<Rightarrow> ''GWBQN'' | GWBJK \<Rightarrow> ''GWBJK''
     | GWBMA \<Rightarrow> ''GWBMA'' | GWBKM \<Rightarrow> ''GWBKM'' | CheckViolation \<Rightarrow> ''23514'')"

definition worker_add_job :: "worker \<Rightarrow> string \<Rightarrow> string \<Rightarrow> wstate \<Rightarrow> wstate \<times> worker_error option" where
  "worker_add_job wk identifier payload st =
     (let st' = wait wk st in
      case pool_result st of
        AcquireFails m \<Rightarrow> (st', Some (NoConnection m))
      | QueryFails m \<Rightarrow> (st', Some (StatementFailed m))
      | DbWorks \<Rightarrow>
          (case add_job (ws_now st) (plain_spec identifier (Some payload)) (ws_store st) of
             Inl e \<Rightarrow> (st', Some (StatementFailed (add_error_text e)))
           | Inr (db, row) \<Rightarrow> (st'\<lparr>ws_store := db\<rparr>, None)))"

text \<open>\<open>resetLocked\<close>, which the timer runs when the worker is active.\<close>

definition reset_locked :: "(int \<Rightarrow> int) \<Rightarrow> worker \<Rightarrow> wstate \<Rightarrow> wstate" where
  "reset_locked random wk st =
     schedule_reset_locked (reset_locked_delay random 480000000000 600000000000)
       (fst (statement wk pool_result (\<lambda>st. reset_locked_at (ws_now st) (worker_now wk st) (ws_store st)) st))"

definition reset_timer_fires :: "(int \<Rightarrow> int) \<Rightarrow> worker \<Rightarrow> wstate \<Rightarrow> wstate" where
  "reset_timer_fires random wk st =
     (if ws_reset_timer st \<noteq> None \<and> ws_active st then reset_locked random wk st else st)"

section \<open>Processing a job\<close>

definition finish_job :: "worker \<Rightarrow> job_row \<Rightarrow> string option \<Rightarrow> wstate \<Rightarrow> wstate \<times> worker_error option" where
  "finish_job wk job err st =
     (let i = j_id job in
      case err of
        Some e \<Rightarrow>
          (let a = emit wk JobError (Some i) (Some e) st;
               b = (if j_attempts job \<ge> j_max_attempts job
                    then emit wk JobFailed (Some i) (Some e) a else a)
           in case worker_fail_job wk i e b of
                (c, Some fe) \<Rightarrow> (c, Some (ReleaseAfterFailure i e fe))
              | (c, None) \<Rightarrow> (emit wk JobComplete (Some i) (Some e) c, Some (TaskFailed e)))
      | None \<Rightarrow>
          (case worker_complete_job wk i (emit wk JobSuccess (Some i) None st) of
             (c, Some ce) \<Rightarrow> (c, Some (ReleaseAfterSuccess i ce))
           | (c, None) \<Rightarrow> (emit wk JobComplete (Some i) None c, None)))"

text \<open>What the pool asks a worker, and the active job it keeps for its shutdown.\<close>

definition get_worker_id :: "worker \<Rightarrow> string" where "get_worker_id wk = wk_id wk"
definition is_active :: "wstate \<Rightarrow> bool" where "is_active st = ws_active st"
definition get_active_job :: "wstate \<Rightarrow> int option" where "get_active_job st = ws_active_job st"
definition set_active_job :: "int \<Rightarrow> wstate \<Rightarrow> wstate" where
  "set_active_job i st = st\<lparr>ws_active_job := Some i\<rparr>"
definition clear_active_job :: "wstate \<Rightarrow> wstate" where
  "clear_active_job st = st\<lparr>ws_active_job := None\<rparr>"

lemmas worker_access [simp] = get_worker_id_def is_active_def get_active_job_def set_active_job_def clear_active_job_def

text \<open>The deferred call that clears the active job runs when the task panics, too.\<close>

definition process_job :: "worker \<Rightarrow> job_row \<Rightarrow> wstate \<Rightarrow> wstate \<times> worker_error ended" where
  "process_job wk job st0 =
     (case map_of (wk_handlers wk) (j_task job) of
        None \<Rightarrow> (st0, Returned (Some (NoHandler (j_task job))))
      | Some handler \<Rightarrow>
          (let i = j_id job;
               st1 = emit wk JobStart (Some i) None (set_active_job i st0)
           in case handler (j_payload job) job st1 of
                (st2, Panicked m) \<Rightarrow> (clear_active_job st2, Panicked m)
              | (st2, Returned err) \<Rightarrow>
                  (case finish_job wk job err st2 of
                     (st3, res) \<Rightarrow> (clear_active_job st3, Returned res))))"

definition do_next :: "worker \<Rightarrow> wstate \<Rightarrow> wstate \<times> worker_error ended" where
  "do_next wk st =
     (if \<not> is_active st then (st, Returned None)
      else if wk_handlers wk = [] then (st, Returned (Some NoRunnableTasks))
      else case worker_get_job wk st of
        (st', Inl e) \<Rightarrow> (st', Returned (Some (GetJobFailed e)))
      | (st', Inr None) \<Rightarrow> (st', Returned None)
      | (st', Inr (Some job)) \<Rightarrow>
          if \<not> is_active st' then (st', Returned None)
          else (case process_job wk job st' of
                  (st'', res) \<Rightarrow> (st'', map_ended JobProcessingFailed res)))"

section \<open>The loops\<close>

text \<open>
  \<open>RunOnce\<close>.  The number it counts for its log line is left out.  \<open>None\<close> is a loop that does
  not end.
\<close>

partial_function (option) run_once ::
  "worker \<Rightarrow> wstate \<Rightarrow> (wstate \<times> worker_error ended) option" where
  "run_once wk st =
     (if ws_cancelled st then Some (st, Returned (Some ContextCancelled))
      else case worker_get_job wk st of
        (st', Inl e) \<Rightarrow> Some (st', Returned (Some e))
      | (st', Inr None) \<Rightarrow> Some (st', Returned None)
      | (st', Inr (Some job)) \<Rightarrow>
          (case process_job wk job st' of
             (st'', Panicked m) \<Rightarrow> Some (st'', Panicked m)
           | (st'', Returned e) \<Rightarrow> run_once wk st''))"

text \<open>
  The loop of \<open>Run\<close>.  \<open>releaseCh\<close> has no buffer and both its ends are tried without waiting, so
  no signal ever passes it.  With a cancelled context and a nudge both ready Go's \<open>select\<close> takes
  either: \<open>es_nudge_first\<close> is its choice.
\<close>

partial_function (option) run_loop ::
  "worker \<Rightarrow> wstate \<Rightarrow> (wstate \<times> worker_error ended) option" where
  "run_loop wk st =
     (if \<not> is_active st then Some (st, Returned None)
      else if ws_cancelled st \<and> \<not> (ws_nudged st \<and> es_nudge_first (next_env st)) then Some (release wk st, Returned (Some ContextCancelled))
      else
        (case do_next wk (st\<lparr>ws_nudged := False\<rparr>) of
           (st1, Panicked m) \<Rightarrow> Some (st1, Panicked m)
         | (st1, Returned (Some e)) \<Rightarrow>
             (let st2 = st1\<lparr>ws_errors := ws_errors st1 + 1\<rparr> in
              if ws_errors st2 \<ge> max_contiguous_errors then
                Some (release wk (emit wk WorkerFatalError None None st2),
                      Returned (Some (FailedInARow (ws_errors st2) e)))
              else run_loop wk (if is_active st2 then sleep wk error_retry_delay st2 else st2))
         | (st1, Returned None) \<Rightarrow>
             (let st2 = st1\<lparr>ws_errors := 0\<rparr> in
              run_loop wk
                (if get_active_job st2 = None \<and> is_active st2
                 then sleep wk (wk_poll_interval wk) st2 else st2))))"

declare run_once.simps [code] run_loop.simps [code]

text \<open>The deferred call that ends the activity of a worker that runs once runs on a panic, too.\<close>

definition run :: "int \<Rightarrow> worker \<Rightarrow> wstate \<Rightarrow> (wstate \<times> worker_error ended) option" where
  "run initial_delay wk st0 =
     (let st = (set_active initial_delay True st0)\<lparr>ws_errors := 0\<rparr> in
      if \<not> wk_continuous wk then
        map_option (\<lambda>(st', e). (set_active 0 False st', e)) (run_once wk st)
      else run_loop wk st)"

end
