(* ===== verification/Worker_Utils.thy ===== *)
theory Worker_Utils
  imports Job_Source Worker
begin

text \<open>
  Adding and administrating jobs from Go: pkg/worker/worker_utils.go, the job helpers of
  pkg/worker/helpers.go and pkg/worker/helpers_factory.go, and \<open>handleClientError\<close>'s
  classification in pkg/worker/lib.go.

  A connection pool is a number; the pools closed so far are a list.  Each call is given what the
  database does with it (\<open>db_result\<close>) and the database's clock.  A payload is its JSON text, or
  the message of \<open>json.Marshal\<close> for a value that has none.
\<close>

section \<open>Data\<close>

datatype payload = Json string | NotJson string

text \<open>The Go \<open>Job\<close>: its id is text and its flags are a JSON object.\<close>

record go_job =
  jb_id :: string
  jb_queue :: "string option"
  jb_task :: string
  jb_payload :: string
  jb_priority :: int
  jb_run_at :: int
  jb_attempts :: int
  jb_max_attempts :: int
  jb_last_error :: "string option"
  jb_created_at :: int
  jb_updated_at :: int
  jb_key :: "string option"
  jb_revision :: int
  jb_flags :: "(string \<times> bool) list option"
  jb_locked_at :: "int option"
  jb_locked_by :: "string option"

datatype utils_error =
    NilPool
  | MarshalFailed string
  | AcquireFailed string
  | BeginFailed string
  | CommitFailed string
  | AddJobFailed string
  | InvalidJobId string
  | CompleteFailed string
  | PermanentlyFailFailed string
  | RescheduleFailed string
  | ScanFailed string
  | FlagsFailed string
  | RowsFailed string "go_job list"
  | NoJobWithKey
  | GetByKeyFailed string
  | PoolCreationFailed string
  | MigrationsFailed string
  | CallbackFailed string

record worker_utils =
  wu_pool :: "nat option"
  wu_schema :: string
  wu_owned :: bool

definition job_of_row :: "job_row \<Rightarrow> go_job" where
  "job_of_row j =
     \<lparr>jb_id = itoa (j_id j), jb_queue = j_queue j, jb_task = j_task j, jb_payload = j_payload j,
      jb_priority = j_priority j, jb_run_at = j_run_at j, jb_attempts = j_attempts j,
      jb_max_attempts = j_max_attempts j, jb_last_error = j_last_error j,
      jb_created_at = j_created_at j, jb_updated_at = j_updated_at j, jb_key = j_key j,
      jb_revision = j_revision j, jb_flags = map_option (map (\<lambda>f. (f, True))) (j_flags j),
      jb_locked_at = j_locked_at j, jb_locked_by = j_locked_by j\<rparr>"

section \<open>Making and releasing\<close>

definition new_worker_utils :: "nat option \<Rightarrow> string \<Rightarrow> worker_utils" where
  "new_worker_utils pool schema = \<lparr>wu_pool = pool, wu_schema = schema, wu_owned = False\<rparr>"

text \<open>
  \<open>MakeWorkerUtils\<close>.  \<open>create\<close> is what \<open>createDatabasePool\<close> returns and \<open>migrated\<close> what the
  migrator returns for the schema.
\<close>

definition make_worker_utils ::
  "nat option \<Rightarrow> string \<Rightarrow> string \<Rightarrow> (string, nat) result \<Rightarrow> (string \<Rightarrow> string option) \<Rightarrow> nat list
     \<Rightarrow> nat list \<times> (utils_error, worker_utils) result" where
  "make_worker_utils pg_pool schema env_schema create migrated closed =
     (let schema' = (if schema = [] then env_schema else schema) in
      case (case pg_pool of
              Some p \<Rightarrow> Inr (p, False)
            | None \<Rightarrow> (case create of Inl m \<Rightarrow> Inl (PoolCreationFailed m) | Inr p \<Rightarrow> Inr (p, True))) of
        Inl e \<Rightarrow> (closed, Inl e)
      | Inr (p, owned) \<Rightarrow>
          (case migrated schema' of
             Some m \<Rightarrow> (if owned then p # closed else closed, Inl (MigrationsFailed m))
           | None \<Rightarrow> (closed, Inr \<lparr>wu_pool = Some p, wu_schema = schema', wu_owned = owned\<rparr>)))"

definition wu_release :: "worker_utils \<Rightarrow> nat list \<Rightarrow> worker_utils \<times> nat list" where
  "wu_release wu closed =
     (case wu_pool wu of
        Some p \<Rightarrow> if wu_owned wu then (wu\<lparr>wu_pool := None\<rparr>, p # closed) else (wu, closed)
      | None \<Rightarrow> (wu, closed))"

text \<open>\<open>pool.Acquire\<close>: a nil pool panics, a closed one refuses.\<close>

definition acquire :: "nat list \<Rightarrow> nat option \<Rightarrow> db_result \<Rightarrow> utils_error option" where
  "acquire closed pool r =
     (case pool of
        None \<Rightarrow> Some NilPool
      | Some p \<Rightarrow>
          if p \<in> set closed then Some (AcquireFailed ''closed pool'')
          else case r of AcquireFails m \<Rightarrow> Some (AcquireFailed m) | _ \<Rightarrow> None)"

section \<open>QuickAddJob\<close>

text \<open>A \<open>TaskSpec\<close> is a job specification whose task and payload are not set yet.\<close>

definition empty_task_spec :: job_spec where
  "empty_task_spec = (plain_spec [] None)\<lparr>s_key_mode := None\<rparr>"

definition spec_call :: "string \<Rightarrow> string \<Rightarrow> job_spec list \<Rightarrow> job_spec" where
  "spec_call identifier payload specs =
     (case specs of
        [] \<Rightarrow> plain_spec identifier (Some payload)
      | s # _ \<Rightarrow> s\<lparr>s_identifier := identifier, s_payload := Some payload\<rparr>)"

definition quick_add_job ::
  "nat list \<Rightarrow> worker_utils \<Rightarrow> int \<Rightarrow> db_result \<Rightarrow> string \<Rightarrow> payload \<Rightarrow> job_spec list \<Rightarrow> store
     \<Rightarrow> store \<times> (utils_error, string) result" where
  "quick_add_job closed wu now r identifier payload specs st =
     (case payload of
        NotJson m \<Rightarrow> (st, Inl (MarshalFailed m))
      | Json text \<Rightarrow>
          (case acquire closed (wu_pool wu) r of
             Some e \<Rightarrow> (st, Inl e)
           | None \<Rightarrow>
               (case r of
                  QueryFails m \<Rightarrow> (st, Inl (AddJobFailed m))
                | _ \<Rightarrow>
                    (case add_job now (spec_call identifier text specs) st of
                       Inl e \<Rightarrow> (st, Inl (AddJobFailed (add_error_text e)))
                     | Inr (st', row) \<Rightarrow> (st', Inr (itoa (j_id row)))))))"

definition quick_add_job_global ::
  "nat option \<Rightarrow> string \<Rightarrow> string \<Rightarrow> (string, nat) result \<Rightarrow> (string \<Rightarrow> string option) \<Rightarrow> nat list
     \<Rightarrow> int \<Rightarrow> db_result \<Rightarrow> string \<Rightarrow> payload \<Rightarrow> job_spec list \<Rightarrow> store
     \<Rightarrow> nat list \<times> store \<times> (utils_error, string) result" where
  "quick_add_job_global pg_pool schema env_schema create migrated closed now r identifier payload specs st =
     (case make_worker_utils pg_pool schema env_schema create migrated closed of
        (closed', Inl e) \<Rightarrow> (closed', st, Inl e)
      | (closed', Inr wu) \<Rightarrow>
          (let (st', res) = quick_add_job closed' wu now r identifier payload specs st
           in (snd (wu_release wu closed'), st', res)))"

definition key_spec :: "string \<Rightarrow> string \<Rightarrow> job_spec" where
  "key_spec key mode = empty_task_spec\<lparr>s_key := Some key, s_key_mode := Some mode\<rparr>"

definition wu_add_job_with_replace ::
  "nat list \<Rightarrow> worker_utils \<Rightarrow> int \<Rightarrow> db_result \<Rightarrow> string \<Rightarrow> payload \<Rightarrow> string \<Rightarrow> store
     \<Rightarrow> store \<times> (utils_error, string) result" where
  "wu_add_job_with_replace closed wu now r identifier payload key =
     quick_add_job closed wu now r identifier payload [key_spec key ''replace'']"

definition wu_add_job_with_preserve_run_at ::
  "nat list \<Rightarrow> worker_utils \<Rightarrow> int \<Rightarrow> db_result \<Rightarrow> string \<Rightarrow> payload \<Rightarrow> string \<Rightarrow> store
     \<Rightarrow> store \<times> (utils_error, string) result" where
  "wu_add_job_with_preserve_run_at closed wu now r identifier payload key =
     quick_add_job closed wu now r identifier payload [key_spec key ''preserve_run_at'']"

definition wu_add_job_with_unsafe_dedupe ::
  "nat list \<Rightarrow> worker_utils \<Rightarrow> int \<Rightarrow> db_result \<Rightarrow> string \<Rightarrow> payload \<Rightarrow> string \<Rightarrow> store
     \<Rightarrow> store \<times> (utils_error, string) result" where
  "wu_add_job_with_unsafe_dedupe closed wu now r identifier payload key =
     quick_add_job closed wu now r identifier payload [key_spec key ''unsafe_dedupe'']"

section \<open>Administration by ids\<close>

text \<open>\<open>strconv.ParseInt(id, 10, 64)\<close> of each id, stopping at the first that is none.\<close>

fun parse_ids :: "string list \<Rightarrow> (utils_error, int list) result" where
  "parse_ids [] = Inr []"
| "parse_ids (s # ss) =
     (case atoi s of
        None \<Rightarrow> Inl (InvalidJobId s)
      | Some n \<Rightarrow> (case parse_ids ss of Inl e \<Rightarrow> Inl e | Inr ns \<Rightarrow> Inr (n # ns)))"

text \<open>
  Reading the rows a statement returns, when it has taken effect.  For each row the events say
  whether \<open>Scan\<close> and the decoding of the flags succeed; with no event left they do.  A row that
  cannot be read is an error without jobs, and the statement stays done.  \<open>RowsBreak\<close> is an error
  that ends the rows, which \<open>rows.Err\<close> reports beside the jobs read so far; \<open>kept\<close> says whether
  the server completes the statement then.  The first component of the result says the same.
\<close>

datatype row_event = RowReads | ScanFails string | FlagsDoNotParse string | RowsBreak bool string

fun read_jobs :: "row_event list \<Rightarrow> job_row list \<Rightarrow> go_job list \<Rightarrow> bool \<times> (utils_error, go_job list) result" where
  "read_jobs events [] jobs =
     (case events of RowsBreak kept m # _ \<Rightarrow> (kept, Inl (RowsFailed m jobs)) | _ \<Rightarrow> (True, Inr jobs))"
| "read_jobs events (row # rows) jobs =
     (case events of
        [] \<Rightarrow> read_jobs [] rows (jobs @ [job_of_row row])
      | RowReads # events' \<Rightarrow> read_jobs events' rows (jobs @ [job_of_row row])
      | ScanFails m # events' \<Rightarrow> (True, Inl (ScanFailed m))
      | FlagsDoNotParse m # events' \<Rightarrow>
          if j_flags row \<noteq> None then (True, Inl (FlagsFailed m))
          else read_jobs events' rows (jobs @ [job_of_row row])
      | RowsBreak kept m # events' \<Rightarrow> (kept, Inl (RowsFailed m jobs)))"

text \<open>
  \<open>CompleteJobs\<close> has the deletion as a statement of its own.  \<open>QueryFails\<close> is an error of the
  statement that leaves nothing done.
\<close>

definition completable :: "int \<Rightarrow> int list \<Rightarrow> job_row \<Rightarrow> bool" where
  "completable now ids j \<longleftrightarrow> j_id j \<in> set ids \<and>
     (j_locked_by j = None \<or> (case j_locked_at j of None \<Rightarrow> False | Some t \<Rightarrow> t < now - hours4))"

definition wu_complete_jobs ::
  "nat list \<Rightarrow> worker_utils \<Rightarrow> int \<Rightarrow> db_result \<Rightarrow> row_event list \<Rightarrow> string list \<Rightarrow> store
     \<Rightarrow> store \<times> (utils_error, go_job list) result" where
  "wu_complete_jobs closed wu now r events job_ids st =
     (if job_ids = [] then (st, Inr [])
      else case parse_ids job_ids of
        Inl e \<Rightarrow> (st, Inl e)
      | Inr ids \<Rightarrow>
          (case acquire closed (wu_pool wu) r of
             Some (AcquireFailed m) \<Rightarrow> (st, Inl (CompleteFailed m))
           | Some e \<Rightarrow> (st, Inl e)
           | None \<Rightarrow>
               (case r of
                  QueryFails m \<Rightarrow> (st, Inl (CompleteFailed m))
                | _ \<Rightarrow>
                    (let (kept, res) = read_jobs events (filter (completable now ids) (st_jobs st)) []
                     in (if kept then delete_jobs (completable now ids) st else st, res)))))"

text \<open>The two calls that run a function of the schema on the ids.\<close>

definition admin_call ::
  "(string \<Rightarrow> utils_error) \<Rightarrow> (int list \<Rightarrow> store \<Rightarrow> store \<times> job_row list)
     \<Rightarrow> nat list \<Rightarrow> worker_utils \<Rightarrow> db_result \<Rightarrow> row_event list \<Rightarrow> string list \<Rightarrow> store
     \<Rightarrow> store \<times> (utils_error, go_job list) result" where
  "admin_call err f closed wu r events job_ids st =
     (if job_ids = [] then (st, Inr [])
      else case parse_ids job_ids of
        Inl e \<Rightarrow> (st, Inl e)
      | Inr ids \<Rightarrow>
          (case acquire closed (wu_pool wu) r of
             Some e \<Rightarrow> (st, Inl e)
           | None \<Rightarrow>
               (case r of
                  QueryFails m \<Rightarrow> (st, Inl (err m))
                | _ \<Rightarrow>
                    (let (st', rows) = f ids st; (kept, res) = read_jobs events rows []
                     in (if kept then st' else st, res)))))"

definition wu_permanently_fail_jobs ::
  "nat list \<Rightarrow> worker_utils \<Rightarrow> int \<Rightarrow> db_result \<Rightarrow> row_event list \<Rightarrow> string list \<Rightarrow> string \<Rightarrow> store
     \<Rightarrow> store \<times> (utils_error, go_job list) result" where
  "wu_permanently_fail_jobs closed wu now r events job_ids reason =
     admin_call PermanentlyFailFailed (\<lambda>ids. permanently_fail_jobs now ids (Some reason))
       closed wu r events job_ids"

record reschedule_options =
  ro_run_at :: "int option"
  ro_priority :: "int option"
  ro_attempts :: "int option"
  ro_max_attempts :: "int option"

definition wu_reschedule_jobs ::
  "nat list \<Rightarrow> worker_utils \<Rightarrow> int \<Rightarrow> db_result \<Rightarrow> row_event list \<Rightarrow> string list \<Rightarrow> reschedule_options \<Rightarrow> store
     \<Rightarrow> store \<times> (utils_error, go_job list) result" where
  "wu_reschedule_jobs closed wu now r events job_ids opts =
     admin_call RescheduleFailed
       (\<lambda>ids. reschedule_jobs now ids (ro_run_at opts) (ro_priority opts) (ro_attempts opts)
                (ro_max_attempts opts))
       closed wu r events job_ids"

text \<open>\<open>GetJobByKey\<close> selects neither the revision nor the flags.\<close>

definition get_job_by_key ::
  "nat list \<Rightarrow> worker_utils \<Rightarrow> db_result \<Rightarrow> string \<Rightarrow> store \<Rightarrow> (utils_error, go_job) result" where
  "get_job_by_key closed wu r key st =
     (case acquire closed (wu_pool wu) r of
        Some e \<Rightarrow> Inl e
      | None \<Rightarrow>
          (case r of
             QueryFails m \<Rightarrow> Inl (GetByKeyFailed m)
           | _ \<Rightarrow>
               (case find_key key st of
                  None \<Rightarrow> Inl NoJobWithKey
                | Some j \<Rightarrow> Inr ((job_of_row j)\<lparr>jb_revision := 0, jb_flags := None\<rparr>))))"

section \<open>Ids\<close>

lemma parse_ids_itoa:
  "\<forall>n \<in> set ns. min_int64 \<le> n \<and> n \<le> max_int64 \<Longrightarrow> parse_ids (map itoa ns) = Inr ns"
  by (induction ns) (auto simp: atoi_itoa)

lemma parse_ids_all: "parse_ids ss = Inr ns \<Longrightarrow> map atoi ss = map Some ns"
  by (induction ss arbitrary: ns) (auto split: option.splits sum.splits)

lemma completable_admin_free: "completable now ids = admin_free now ids"
  by (auto simp: completable_def admin_free_def stale_def fun_eq_iff split: option.splits)

text \<open>The ids of a \<open>bigserial\<close> column.\<close>

definition bigserial_ids :: "store \<Rightarrow> bool" where
  "bigserial_ids st \<longleftrightarrow> (\<forall>j \<in> set (st_jobs st). 1 \<le> j_id j \<and> j_id j \<le> max_int64)"

lemma bigserial_range:
  "bigserial_ids st \<Longrightarrow> j \<in> set (st_jobs st) \<Longrightarrow> min_int64 \<le> j_id j \<and> j_id j \<le> max_int64"
  by (auto simp: bigserial_ids_def min_int64_def)

lemma filter_by_id:
  "ids_ok st \<Longrightarrow> find_job i st = Some j \<Longrightarrow> filter (\<lambda>j'. j_id j' = i) (st_jobs st) = [j]"
  using distinct_filter_one [of j_id "st_jobs st" j] by (auto simp: ids_ok_def find_job_iff [unfolded ids_ok_def])

lemma quick_add_job_ok:
  assumes "quick_add_job closed wu now r ident p specs st = (st1, Inr i)"
  shows "\<exists>body row. p = Json body \<and> acquire closed (wu_pool wu) DbWorks = None \<and>
     add_job now (spec_call ident body specs) st = Inr (st1, row) \<and> i = itoa (j_id row)"
  using assms
  by (auto simp: quick_add_job_def acquire_def split: payload.splits option.splits db_result.splits
      sum.splits prod.splits if_splits)

section \<open>Adding, then completing\<close>

text \<open>
  C28: the id that QuickAddJob returns names the job it added: completing that id deletes this
  job, with the given task and payload, and no other.
\<close>

theorem added_job_completes:
  assumes "store_ok st" "quick_add_job closed wu now r ident p specs st = (st1, Inr i)"
    and "\<forall>s \<in> set specs. s_key_mode s \<noteq> Some ''unsafe_dedupe''" "bigserial_ids st1"
  shows "\<exists>st2 job n. wu_complete_jobs closed wu now' DbWorks [] [i] st1 = (st2, Inr [job]) \<and>
     jb_id job = i \<and> i = itoa n \<and> jb_task job = ident \<and> p = Json (jb_payload job) \<and>
     find_job n st1 \<noteq> None \<and> find_job n st2 = None \<and> (\<forall>m. m \<noteq> n \<longrightarrow> find_job m st2 = find_job m st1)"
proof -
  obtain body row where q: "p = Json body" "acquire closed (wu_pool wu) DbWorks = None"
      "add_job now (spec_call ident body specs) st = Inr (st1, row)" "i = itoa (j_id row)"
    using quick_add_job_ok [OF assms(2)] by blast
  have mode: "s_key_mode (spec_call ident body specs) \<noteq> Some ''unsafe_dedupe''"
    using assms(3) by (cases specs) (auto simp: spec_call_def plain_spec_def)
  have ok: "store_ok st1" "ids_ok st1" using add_job_ok [OF assms(1) q(3)] by (auto dest: store_okD)
  have row: "find_job (j_id row) st1 = Some row" "row_has_spec now (spec_call ident body specs) row"
    using add_job_returns_row [OF assms(1) q(3)] mode by auto
  then have mem: "row \<in> set (st_jobs st1)" using ok by (simp add: find_job_iff)
  have free: "j_locked_by row = None"
    using row(2) store_okD(4) [OF ok(1)] mem by (auto simp: row_has_spec_def locks_ok_def)
  have content: "j_task row = ident" "j_payload row = body"
    using row(2) by (auto simp: row_has_spec_def spec_call_def plain_spec_def coalesce_def split: list.splits)
  have ids: "parse_ids [i] = Inr [j_id row]"
    using bigserial_range [OF assms(4) mem] by (simp add: q(4) atoi_itoa)
  have P: "completable now' [j_id row] j \<longleftrightarrow> j_id j = j_id row" if "j \<in> set (st_jobs st1)" for j
    using that free ok mem id_unique [of "st_jobs st1" j row] by (auto simp: completable_def ids_ok_def)
  then have "filter (completable now' [j_id row]) (st_jobs st1) = [row]"
    using filter_by_id [OF ok(2) row(1)] by (simp cong: filter_cong)
  then have "wu_complete_jobs closed wu now' DbWorks [] [i] st1 =
      (delete_jobs (completable now' [j_id row]) st1, Inr [job_of_row row])"
    using ids q(2) by (simp add: wu_complete_jobs_def)
  moreover have "find_job m (delete_jobs (completable now' [j_id row]) st1) =
      (if m = j_id row then None else find_job m st1)" for m
  proof (cases "find_job m st1")
    case None
    then show ?thesis by (simp add: find_job_delete_where [OF ok(2)])
  next
    case (Some j)
    then have "j \<in> set (st_jobs st1)" "j_id j = m" using ok(2) by (auto simp: find_job_iff)
    then show ?thesis using P Some by (simp add: find_job_delete_where [OF ok(2)])
  qed
  ultimately show ?thesis using row(1) content q(1,4) by (simp add: job_of_row_def)
qed

lemma added_job_completes_witness:
  "\<exists>st1 st2 job. quick_add_job [] (new_worker_utils (Some 0) []) 5 DbWorks ''mail'' (Json ''1'') [] empty_store
       = (st1, Inr ''1'') \<and>
     wu_complete_jobs [] (new_worker_utils (Some 0) []) 6 DbWorks [] [''1''] st1 = (st2, Inr [job]) \<and>
     jb_task job = ''mail''"
proof -
  have one: "itoa 1 = ''1''" by code_simp
  obtain st1 where q: "quick_add_job [] (new_worker_utils (Some 0) []) 5 DbWorks ''mail'' (Json ''1'') [] empty_store
      = (st1, Inr ''1'')" and b: "bigserial_ids st1"
    by (simp add: quick_add_job_def acquire_def new_worker_utils_def spec_call_def add_defs one
        bigserial_ids_def max_int64_def)
  show ?thesis
    using added_job_completes [OF empty_store_ok q _ b, of 6] q by auto
qed

section \<open>Jobs that are running are not administrated\<close>

definition running :: "int \<Rightarrow> job_row \<Rightarrow> bool" where
  "running now j \<longleftrightarrow> j_locked_by j \<noteq> None \<and> \<not> stale now (j_locked_at j)"

text \<open>Jobs that were asked for and are not running.\<close>

definition asked_for :: "int \<Rightarrow> string list \<Rightarrow> store \<Rightarrow> go_job list \<Rightarrow> bool" where
  "asked_for now job_ids st jobs \<longleftrightarrow>
     (\<forall>job \<in> set jobs. \<exists>j \<in> set (st_jobs st). jb_id job = itoa (j_id j) \<and> \<not> running now j \<and>
        Some (j_id j) \<in> atoi ` set job_ids)"

text \<open>\<open>effect\<close> is the store the statement leaves.\<close>

definition spares_running ::
  "int \<Rightarrow> string list \<Rightarrow> store \<Rightarrow> store \<Rightarrow> store \<times> (utils_error, go_job list) result \<Rightarrow> bool" where
  "spares_running now job_ids st effect res \<longleftrightarrow>
     (\<forall>j \<in> set (st_jobs st). running now j \<longrightarrow> find_job (j_id j) (fst res) = Some j) \<and>
     (\<forall>s \<in> set job_ids. atoi s = None \<longrightarrow> (\<exists>t. snd res = Inl (InvalidJobId t))) \<and>
     (case snd res of
        Inr jobs \<Rightarrow> fst res = effect \<and> asked_for now job_ids st jobs
      | Inl (ScanFailed m) \<Rightarrow> fst res = effect
      | Inl (FlagsFailed m) \<Rightarrow> fst res = effect
      | Inl (RowsFailed m jobs) \<Rightarrow> (fst res = effect \<or> fst res = st) \<and> asked_for now job_ids st jobs
      | Inl e \<Rightarrow> fst res = st)"

lemma running_not_free: "running now j \<Longrightarrow> \<not> admin_free now ids j"
  by (simp add: running_def admin_free_def)

lemma parse_ids_none: "parse_ids ss = Inr ns \<Longrightarrow> s \<in> set ss \<Longrightarrow> atoi s \<noteq> None"
  by (induction ss arbitrary: ns) (auto split: option.splits sum.splits)

lemma parse_ids_error: "parse_ids ss = Inl e \<Longrightarrow> \<exists>t. e = InvalidJobId t"
  by (induction ss arbitrary: e) (auto split: option.splits sum.splits)

lemma parse_ids_image: "parse_ids ss = Inr ns \<Longrightarrow> n \<in> set ns \<Longrightarrow> Some n \<in> atoi ` set ss"
  using parse_ids_all [of ss ns] by (metis image_eqI image_set)

text \<open>What is read are jobs of the rows, and an error says what is left of the statement.\<close>

lemma read_jobs_result:
  "case read_jobs events rows jobs of
      (kept, Inr read) \<Rightarrow> kept \<and> set read = set jobs \<union> job_of_row ` set rows
    | (kept, Inl (ScanFailed m)) \<Rightarrow> kept
    | (kept, Inl (FlagsFailed m)) \<Rightarrow> kept
    | (kept, Inl (RowsFailed m read)) \<Rightarrow> set read \<subseteq> set jobs \<union> job_of_row ` set rows
    | (kept, Inl e) \<Rightarrow> False"
proof (induction events rows jobs rule: read_jobs.induct)
  case (2 events row rows jobs)
  show ?case
  proof (cases events)
    case Nil
    then show ?thesis using 2(1) by (auto split: prod.splits sum.splits utils_error.splits)
  next
    case (Cons ev evs)
    then show ?thesis using 2(2-) by (cases ev) (auto split: prod.splits sum.splits utils_error.splits)
  qed
qed (auto split: list.split row_event.split)

lemma read_all: "read_jobs [] rows jobs = (True, Inr (jobs @ map job_of_row rows))"
  by (induction rows arbitrary: jobs) simp_all

lemma spares_read:
  assumes "\<forall>j \<in> set (st_jobs st). running now j \<longrightarrow> find_job (j_id j) effect = Some j" "ids_ok st"
    and "parse_ids job_ids = Inr ids" "asked_for now job_ids st (map job_of_row rows)"
    and "read_jobs events rows [] = (kept, res)"
  shows "spares_running now job_ids st effect (if kept then effect else st, res)"
proof -
  have ids: "atoi s \<noteq> None" if "s \<in> set job_ids" for s by (rule parse_ids_none [OF assms(3) that])
  have "find_job (j_id j) st = Some j" if "j \<in> set (st_jobs st)" for j using that assms(2) by (simp add: find_job_iff)
  then show ?thesis
    using assms(1,4) ids read_jobs_result [where events = events and rows = rows and jobs = "[]"] assms(5)
    by (auto simp: spares_running_def asked_for_def split: sum.splits utils_error.splits)
qed

text \<open>An error before the rows leaves the store alone.\<close>

definition early_error :: "utils_error \<Rightarrow> bool" where
  "early_error e \<longleftrightarrow>
     (case e of ScanFailed m \<Rightarrow> False | FlagsFailed m \<Rightarrow> False | RowsFailed m jobs \<Rightarrow> False | _ \<Rightarrow> True)"

lemma spares_early:
  "ids_ok st \<Longrightarrow> early_error e \<Longrightarrow> (\<exists>t. e = InvalidJobId t) \<or> (\<exists>ids. parse_ids job_ids = Inr ids) \<Longrightarrow>
     spares_running now job_ids st effect (st, Inl e)"
  using parse_ids_none [of job_ids]
  by (auto simp: spares_running_def early_error_def find_job_iff split: utils_error.splits)

lemma spares_nothing: "ids_ok st \<Longrightarrow> spares_running now [] st st (st, Inr [])"
  by (auto simp: spares_running_def asked_for_def find_job_iff)

lemma acquire_early: "acquire closed pool r = Some e \<Longrightarrow> early_error e"
  by (auto simp: acquire_def early_error_def split: option.splits if_splits db_result.splits)

lemma admin_call_spares:
  assumes "ids_ok st" "\<forall>m. early_error (err m)"
    and f: "\<And>ids. parse_ids job_ids = Inr ids \<Longrightarrow>
      (\<forall>j \<in> set (st_jobs st). running now j \<longrightarrow> find_job (j_id j) (fst (f ids st)) = Some j) \<and>
      asked_for now job_ids st (map job_of_row (snd (f ids st)))"
  shows "spares_running now job_ids st (fst (admin_call err f closed wu r [] job_ids st))
     (admin_call err f closed wu r events job_ids st)"
proof (cases "job_ids = []")
  case False
  show ?thesis
  proof (cases "parse_ids job_ids")
    case (Inl e)
    then show ?thesis
      using False assms(1) parse_ids_error [OF Inl]
      by (auto simp: admin_call_def early_error_def intro!: spares_early)
  next
    case (Inr ids)
    obtain st' rows where g: "f ids st = (st', rows)" by force
    obtain kept res where rd: "read_jobs events rows [] = (kept, res)" by force
    have "spares_running now job_ids st st' (if kept then st' else st, res)"
      using f [OF Inr] g by (intro spares_read [OF _ assms(1) Inr _ rd]) simp_all
    then show ?thesis
      using False Inr assms(1,2) acquire_early [of closed "wu_pool wu" r]
      by (auto simp: admin_call_def g rd read_all intro!: spares_early split: option.splits db_result.splits)
  qed
qed (use assms(1) spares_nothing in \<open>simp add: admin_call_def\<close>)

lemma update_spares:
  assumes "ids_ok st" "parse_ids job_ids = Inr ids" "\<forall>j. j_id (f j) = j_id j"
  shows "(\<forall>j \<in> set (st_jobs st). running now j \<longrightarrow>
      find_job (j_id j) (update_jobs now (admin_free now ids) f st) = Some j) \<and>
    asked_for now job_ids st (map job_of_row (map (\<lambda>j. touch now j (f j)) (filter (admin_free now ids) (st_jobs st))))"
proof
  show "\<forall>j \<in> set (st_jobs st). running now j \<longrightarrow>
      find_job (j_id j) (update_jobs now (admin_free now ids) f st) = Some j"
    using assms(1,3) running_not_free by (auto simp: find_job_update find_job_iff)
qed (use assms(3) parse_ids_image [OF assms(2)] in
      \<open>auto simp: asked_for_def job_of_row_def admin_free_def running_def\<close>)

lemma delete_spares:
  assumes "ids_ok st" "parse_ids job_ids = Inr ids"
  shows "(\<forall>j \<in> set (st_jobs st). running now j \<longrightarrow>
      find_job (j_id j) (delete_jobs (admin_free now ids) st) = Some j) \<and>
    asked_for now job_ids st (map job_of_row (filter (admin_free now ids) (st_jobs st)))"
proof
  show "\<forall>j \<in> set (st_jobs st). running now j \<longrightarrow> find_job (j_id j) (delete_jobs (admin_free now ids) st) = Some j"
  proof (intro ballI impI)
    fix j assume j: "j \<in> set (st_jobs st)" "running now j"
    then have "find_job (j_id j) st = Some j" using assms(1) by (simp add: find_job_iff)
    then show "find_job (j_id j) (delete_jobs (admin_free now ids) st) = Some j"
      using running_not_free [OF j(2)] by (simp add: find_job_delete_where [OF assms(1)])
  qed
qed (use parse_ids_image [OF assms(2)] in
      \<open>auto simp: asked_for_def job_of_row_def admin_free_def running_def\<close>)

text \<open>\<open>CompleteJobs\<close> differs in how it words an error of the pool.\<close>

lemma complete_jobs_admin_call:
  "wu_complete_jobs closed wu now r events job_ids st =
     (case admin_call CompleteFailed
             (\<lambda>ids st. (delete_jobs (admin_free now ids) st, filter (admin_free now ids) (st_jobs st)))
             closed wu r events job_ids st of
        (st', Inl (AcquireFailed m)) \<Rightarrow> (st', Inl (CompleteFailed m)) | res \<Rightarrow> res)"
  using read_jobs_result [where events = events and jobs = "[]" and
      rows = "filter (admin_free now (case parse_ids job_ids of Inr ids \<Rightarrow> ids | _ \<Rightarrow> [])) (st_jobs st)"]
  by (auto simp: wu_complete_jobs_def admin_call_def completable_admin_free Let_def dest: parse_ids_error
      split: sum.splits option.splits db_result.splits utils_error.splits prod.splits)

lemma spares_reworded:
  "spares_running now job_ids st effect res \<Longrightarrow>
     spares_running now job_ids st effect
       (case res of (st', Inl (AcquireFailed m)) \<Rightarrow> (st', Inl (CompleteFailed m)) | res \<Rightarrow> res)"
  by (auto simp: spares_running_def split: prod.split sum.split utils_error.split)

lemma fst_reworded:
  "fst (case res of (st', Inl (AcquireFailed m)) \<Rightarrow> (st', Inl (CompleteFailed m)) | res \<Rightarrow> res) = fst res"
  by (auto split: prod.split sum.split utils_error.split)

text \<open>
  C27: completing, permanently failing and rescheduling by ids leaves every job that a worker has
  held for less than four hours as it is, with or without an error.  A call without an error leaves
  what its statement does, and returns only jobs that were asked for and not running.  An id that
  is not a number is an error.  An error before the rows are read changes nothing; one of reading a
  row, its flags included, comes after the statement, which stays done; when the rows end early
  the statement is done or not, and the jobs returned beside the error are such jobs as well.
\<close>

theorem admin_calls_spare_running:
  assumes "ids_ok st"
  shows "spares_running now job_ids st (fst (wu_complete_jobs closed wu now r [] job_ids st))
       (wu_complete_jobs closed wu now r events job_ids st)
    \<and> spares_running now job_ids st (fst (wu_permanently_fail_jobs closed wu now r [] job_ids reason st))
       (wu_permanently_fail_jobs closed wu now r events job_ids reason st)
    \<and> spares_running now job_ids st (fst (wu_reschedule_jobs closed wu now r [] job_ids opts st))
       (wu_reschedule_jobs closed wu now r events job_ids opts st)"
proof (intro conjI)
  show "spares_running now job_ids st (fst (wu_complete_jobs closed wu now r [] job_ids st))
      (wu_complete_jobs closed wu now r events job_ids st)"
    unfolding complete_jobs_admin_call fst_reworded
    by (intro spares_reworded admin_call_spares assms) (simp_all add: early_error_def delete_spares [OF assms])
  show "spares_running now job_ids st (fst (wu_permanently_fail_jobs closed wu now r [] job_ids reason st))
      (wu_permanently_fail_jobs closed wu now r events job_ids reason st)"
    unfolding wu_permanently_fail_jobs_def
    by (intro admin_call_spares assms)
       (simp_all add: early_error_def permanently_fail_jobs_def Let_def update_spares [OF assms, unfolded map_map])
  show "spares_running now job_ids st (fst (wu_reschedule_jobs closed wu now r [] job_ids opts st))
      (wu_reschedule_jobs closed wu now r events job_ids opts st)"
    unfolding wu_reschedule_jobs_def
    by (intro admin_call_spares assms)
       (simp_all add: early_error_def reschedule_jobs_def Let_def update_spares [OF assms, unfolded map_map])
qed

text \<open>A row that cannot be scanned: the job is gone all the same.\<close>

lemma admin_calls_spare_running_witness:
  "let st = fst (insert_job (row_of_spec 0 (plain_spec ''t'' None)) empty_store);
       res = wu_complete_jobs [] (new_worker_utils (Some 0) []) 9 DbWorks [ScanFails ''x''] [''1''] st
   in snd res = Inl (ScanFailed ''x'') \<and> st_jobs (fst res) = [] \<and>
      spares_running 9 [''1''] st (fst (wu_complete_jobs [] (new_worker_utils (Some 0) []) 9 DbWorks [] [''1''] st)) res"
proof -
  let ?st = "fst (insert_job (row_of_spec 0 (plain_spec ''t'' None)) empty_store)"
  have "ids_ok ?st"
    by (simp add: insert_job_def increase_count_def empty_store_def ids_ok_def Let_def
        row_of_spec_def plain_spec_def)
  note admin_calls_spare_running [OF this, THEN conjunct1, of 9 "[''1'']" "[]" "new_worker_utils (Some 0) []" DbWorks
      "[ScanFails ''x'']"]
  moreover have "snd (wu_complete_jobs [] (new_worker_utils (Some 0) []) 9 DbWorks [ScanFails ''x''] [''1''] ?st) = Inl (ScanFailed ''x'')"
    "st_jobs (fst (wu_complete_jobs [] (new_worker_utils (Some 0) []) 9 DbWorks [ScanFails ''x''] [''1''] ?st)) = []"
    by code_simp+
  ultimately show ?thesis unfolding Let_def by blast
qed

end
