(* ===== verification/Cron_Scheduler.thy ===== *)
theory Cron_Scheduler
  imports Cron_Matcher Worker_Utils
begin

text \<open>
  The scheduler (pkg/cron/scheduler.go): starting and stopping, registering the crontabs, the
  minute tick that schedules the items that match, and the backfill of missed times.

  Go times are nanoseconds and the database's are microseconds.  \<open>sc_loc\<close> is the zone of the
  time provider's readings and \<open>sc_pg_loc\<close> the zone of the database session, in which
  \<open>EXTRACT\<close> reads a timestamp.  \<open>ss_script\<close> says what the database does with each call and how
  long it takes; after its end every call works at once.
\<close>

section \<open>State\<close>

datatype sched_event =
    CronStarting int
  | CronStarted int nat
  | CronStopped int
  | OverdueTimer string int int int
  | PrematureTimer string int int int
  | CronSchedule string int string
  | CronScheduled string int string
  | CronBackfill string int int

datatype sched_error =
    SchedulerRunning
  | RegisterFailed string string
  | CheckFailed string
  | RecordFailed string
  | CronAddFailed utils_error

record scheduler =
  sc_schema :: string
  sc_backfill_on_start :: bool
  sc_tolerance :: int
  sc_utils :: worker_utils
  sc_loc :: location
  sc_pg_loc :: location
  sc_use_node_time :: bool

record sstate =
  ss_store :: store
  ss_running :: bool
  ss_cancelled :: bool
  ss_items :: "parsed_cron_item list"
  ss_events :: "sched_event list"
  ss_now :: int
  ss_pg_now :: int
  ss_script :: "(db_result \<times> int) list"
  ss_pool_closed :: bool

text \<open>\<open>NewScheduler\<close>: no tolerance means ten seconds.\<close>

definition new_scheduler ::
  "string \<Rightarrow> bool \<Rightarrow> int \<Rightarrow> worker_utils \<Rightarrow> location \<Rightarrow> location \<Rightarrow> bool \<Rightarrow> scheduler" where
  "new_scheduler schema backfill_on_start tolerance utils loc pg_loc node =
     \<lparr>sc_schema = schema, sc_backfill_on_start = backfill_on_start,
      sc_tolerance = (if tolerance = 0 then 10000000000 else tolerance), sc_utils = utils,
      sc_loc = loc, sc_pg_loc = pg_loc, sc_use_node_time = node\<rparr>"

definition new_sstate ::
  "parsed_cron_item list \<Rightarrow> store \<Rightarrow> int \<Rightarrow> int \<Rightarrow> (db_result \<times> int) list \<Rightarrow> sstate" where
  "new_sstate items st now pg_now script =
     \<lparr>ss_store = st, ss_running = False, ss_cancelled = False, ss_items = items, ss_events = [],
      ss_now = now, ss_pg_now = pg_now, ss_script = script, ss_pool_closed = False\<rparr>"

definition sched_emit :: "sched_event \<Rightarrow> sstate \<Rightarrow> sstate" where
  "sched_emit e s = s\<lparr>ss_events := ss_events s @ [e]\<rparr>"

definition micro :: "int \<Rightarrow> int" where "micro t = t div 1000"

section \<open>Database calls\<close>

definition on_open_pool :: "sstate \<Rightarrow> db_result \<Rightarrow> db_result" where
  "on_open_pool s r = (if ss_pool_closed s then AcquireFails ''closed pool'' else r)"

definition next_call :: "sstate \<Rightarrow> db_result \<times> sstate" where
  "next_call s =
     (case ss_script s of
        [] \<Rightarrow> (on_open_pool s DbWorks, s)
      | (r, dt) # rest \<Rightarrow>
          (on_open_pool s r,
           s\<lparr>ss_script := rest, ss_now := ss_now s + dt, ss_pg_now := ss_pg_now s + micro dt\<rparr>))"

text \<open>A statement in the scheduler's context, which \<open>Stop\<close> cancels.\<close>

definition in_ctx :: "sstate \<Rightarrow> db_result \<Rightarrow> db_result" where
  "in_ctx s r = (if ss_cancelled s then AcquireFails ''context canceled'' else r)"

definition db_call :: "(store \<Rightarrow> store \<times> 'a) \<Rightarrow> db_result \<times> sstate \<Rightarrow> sstate \<times> (string, 'a) result" where
  "db_call f = (\<lambda>(r, s).
     case r of
       AcquireFails m \<Rightarrow> (s, Inl m)
     | QueryFails m \<Rightarrow> (s, Inl m)
     | DbWorks \<Rightarrow> (let (st, a) = f (ss_store s) in (s\<lparr>ss_store := st\<rparr>, Inr a)))"

text \<open>The update of \<open>recordScheduledTask\<close>, the insert of \<open>registerKnownCrontabs\<close>.\<close>

definition record_execution :: "string \<Rightarrow> int \<Rightarrow> store \<Rightarrow> store" where
  "record_execution identifier t st =
     (case st_crontabs st identifier of
        None \<Rightarrow> st
      | Some r \<Rightarrow>
          if (case kc_last_execution r of None \<Rightarrow> True | Some l \<Rightarrow> l < t)
          then st\<lparr>st_crontabs := (st_crontabs st)(identifier \<mapsto> r\<lparr>kc_last_execution := Some t\<rparr>)\<rparr>
          else st)"

definition register_crontab :: "string \<Rightarrow> int \<Rightarrow> store \<Rightarrow> store" where
  "register_crontab identifier now st =
     (case st_crontabs st identifier of
        Some r \<Rightarrow> st
      | None \<Rightarrow> st\<lparr>st_crontabs := (st_crontabs st)(identifier \<mapsto>
                     \<lparr>kc_known_since = now, kc_last_execution = None\<rparr>)\<rparr>)"

definition last_execution :: "string \<Rightarrow> store \<Rightarrow> int option" where
  "last_execution identifier st =
     (case st_crontabs st identifier of None \<Rightarrow> None | Some r \<Rightarrow> kc_last_execution r)"

text \<open>The query of \<open>isTaskAlreadyScheduled\<close>: minute, hour, day, month and weekday, as text says.\<close>

definition executed_at :: "location \<Rightarrow> string \<Rightarrow> timestamp_digest \<Rightarrow> store \<Rightarrow> bool" where
  "executed_at pg_loc identifier d st =
     (case last_execution identifier st of
        None \<Rightarrow> False
      | Some l \<Rightarrow>
          (let e = digest_timestamp pg_loc (l * 1000) in
           td_minute e = td_minute d \<and> td_hour e = td_hour d \<and> td_date e = td_date d \<and>
           td_month e = td_month d \<and> td_dow e = td_dow d))"

text \<open>
  The digest argument is not used; the time provider is read again once the connection is there,
  for which the time the call takes is spent.
\<close>

definition is_task_already_scheduled ::
  "scheduler \<Rightarrow> parsed_cron_item \<Rightarrow> string \<Rightarrow> sstate \<Rightarrow> sstate \<times> (string, bool) result" where
  "is_task_already_scheduled c item digest s =
     (let (r, s') = next_call s; d = digest_timestamp (sc_loc c) (ss_now s')
      in db_call (\<lambda>st. (st, executed_at (sc_pg_loc c) (pci_identifier item) d st)) (in_ctx s r, s'))"

definition record_scheduled_task ::
  "parsed_cron_item \<Rightarrow> string \<Rightarrow> int \<Rightarrow> sstate \<Rightarrow> sstate \<times> (string, unit) result" where
  "record_scheduled_task item digest scheduled_at s =
     (let (r, s') = next_call s
      in db_call (\<lambda>st. (record_execution (pci_identifier item) (micro scheduled_at) st, ()))
           (in_ctx s r, s'))"

definition get_last_execution_time ::
  "string \<Rightarrow> sstate \<Rightarrow> sstate \<times> (string, int option) result" where
  "get_last_execution_time identifier s =
     (let (r, s') = next_call s
      in db_call (\<lambda>st. (st, map_option (\<lambda>l. l * 1000) (last_execution identifier st))) (in_ctx s r, s'))"

definition cron_spec :: "cron_job \<Rightarrow> int \<Rightarrow> job_spec" where
  "cron_spec job scheduled_at =
     empty_task_spec\<lparr>s_run_at := Some (micro scheduled_at), s_queue := cj_queue_name job,
       s_priority := cj_priority job, s_max_attempts := cj_max_attempts job, s_key := cj_job_key job,
       s_key_mode := cj_job_key_mode job, s_flags := cj_flags job\<rparr>"

text \<open>A nil payload is marshalled as \<open>null\<close>.\<close>

definition add_job_to_queue ::
  "scheduler \<Rightarrow> parsed_cron_item \<Rightarrow> int \<Rightarrow> sstate \<Rightarrow> sstate \<times> (utils_error, string) result" where
  "add_job_to_queue c item scheduled_at s =
     (let (r, s') = next_call s; job = pci_job item;
          (st, res) = quick_add_job [] (sc_utils c) (ss_pg_now s) (in_ctx s r) (cj_task job)
            (Json (coalesce (cj_payload job) ''null'')) [cron_spec job scheduled_at] (ss_store s')
      in (s'\<lparr>ss_store := st\<rparr>, res))"

section \<open>The tick\<close>

definition clock_skew_event :: "scheduler \<Rightarrow> parsed_cron_item \<Rightarrow> int \<Rightarrow> sstate \<Rightarrow> sstate" where
  "clock_skew_event c item scheduled_at s =
     (let diff = ss_now s - scheduled_at; task = cj_task (pci_job item) in
      if diff > sc_tolerance c then sched_emit (OverdueTimer task scheduled_at (ss_now s) diff) s
      else if diff < - sc_tolerance c then sched_emit (PrematureTimer task scheduled_at (ss_now s) (- diff)) s
      else s)"

definition schedule_task ::
  "scheduler \<Rightarrow> parsed_cron_item \<Rightarrow> int \<Rightarrow> sstate \<Rightarrow> sstate \<times> (sched_error, unit) result" where
  "schedule_task c item scheduled_at s =
     (let digest = digest_string (digest_timestamp (sc_loc c) scheduled_at);
          task = cj_task (pci_job item) in
      case is_task_already_scheduled c item digest s of
        (s1, Inl m) \<Rightarrow> (s1, Inl (CheckFailed m))
      | (s1, Inr True) \<Rightarrow> (s1, Inr ())
      | (s1, Inr False) \<Rightarrow>
          (case record_scheduled_task item digest scheduled_at (clock_skew_event c item scheduled_at s1) of
             (s2, Inl m) \<Rightarrow> (s2, Inl (RecordFailed m))
           | (s2, Inr _) \<Rightarrow>
               (case add_job_to_queue c item scheduled_at
                       (sched_emit (CronSchedule task scheduled_at digest) s2) of
                  (s3, Inl e) \<Rightarrow> (s3, Inl (CronAddFailed e))
                | (s3, Inr _) \<Rightarrow> (sched_emit (CronScheduled task scheduled_at digest) s3, Inr ()))))"

definition process_item :: "scheduler \<Rightarrow> int \<Rightarrow> parsed_cron_item \<Rightarrow> sstate \<Rightarrow> sstate" where
  "process_item c now item s =
     (if matches (sc_loc c) item now then fst (schedule_task c item now s) else s)"

definition process_scheduled_tasks :: "scheduler \<Rightarrow> int \<Rightarrow> sstate \<Rightarrow> sstate" where
  "process_scheduled_tasks c now s = fold (process_item c now) (ss_items s) s"

text \<open>One round of \<open>schedulingLoop\<close>, on a tick or a change of the time provider.\<close>

definition scheduling_tick :: "scheduler \<Rightarrow> sstate \<Rightarrow> sstate" where
  "scheduling_tick c s = (if ss_cancelled s then s else process_scheduled_tasks c (ss_now s) s)"

section \<open>Backfill\<close>

fun backfill_times ::
  "scheduler \<Rightarrow> (int \<Rightarrow> string) \<Rightarrow> parsed_cron_item \<Rightarrow> int list \<Rightarrow> sstate
     \<Rightarrow> sstate \<times> (sched_error, unit) result" where
  "backfill_times c rfc3339 item [] s = (s, Inr ())"
| "backfill_times c rfc3339 item (t # ts) s =
     (case is_task_already_scheduled c item (rfc3339 t) s of
        (s1, Inl m) \<Rightarrow> (s1, Inl (CheckFailed m))
      | (s1, Inr True) \<Rightarrow> backfill_times c rfc3339 item ts s1
      | (s1, Inr False) \<Rightarrow>
          (case record_scheduled_task item (rfc3339 t) t s1 of
             (s2, Inl m) \<Rightarrow> (s2, Inl (RecordFailed m))
           | (s2, Inr _) \<Rightarrow>
               (case add_job_to_queue c item t s2 of
                  (s3, Inl e) \<Rightarrow> (s3, Inl (CronAddFailed e))
                | (s3, Inr _) \<Rightarrow> backfill_times c rfc3339 item ts s3)))"

definition backfill_item ::
  "scheduler \<Rightarrow> (int \<Rightarrow> string) \<Rightarrow> parsed_cron_item \<Rightarrow> int \<Rightarrow> int \<Rightarrow> sstate
     \<Rightarrow> sstate \<times> (sched_error, unit) result" where
  "backfill_item c rfc3339 item start fin s =
     backfill_times c rfc3339 item (schedule_times_in_range (sc_loc c) item start fin)
       (sched_emit (CronBackfill (cj_task (pci_job item)) start fin) s)"

text \<open>One item of \<open>performBackfill\<close>; its errors are logged and the next item follows.\<close>

definition backfill_one :: "scheduler \<Rightarrow> (int \<Rightarrow> string) \<Rightarrow> int \<Rightarrow> parsed_cron_item \<Rightarrow> sstate \<Rightarrow> sstate" where
  "backfill_one c rfc3339 now item s =
     (if \<not> backfill (pci_options item) then s
      else case get_last_execution_time (pci_identifier item) s of
        (s1, Inl m) \<Rightarrow> s1
      | (s1, Inr None) \<Rightarrow> s1
      | (s1, Inr (Some l)) \<Rightarrow>
          fst (backfill_item c rfc3339 item (max l (now - backfill_period (pci_options item))) now s1))"

definition perform_backfill :: "scheduler \<Rightarrow> (int \<Rightarrow> string) \<Rightarrow> sstate \<Rightarrow> sstate" where
  "perform_backfill c rfc3339 s = fold (backfill_one c rfc3339 (ss_now s)) (ss_items s) s"

section \<open>Starting and stopping\<close>

fun register_known_crontabs ::
  "parsed_cron_item list \<Rightarrow> sstate \<Rightarrow> sstate \<times> (sched_error, unit) result" where
  "register_known_crontabs [] s = (s, Inr ())"
| "register_known_crontabs (item # items) s =
     (case db_call (\<lambda>st. (register_crontab (pci_identifier item) (ss_pg_now s) st, ())) (next_call s) of
        (s1, Inl m) \<Rightarrow> (s1, Inl (RegisterFailed (pci_identifier item) m))
      | (s1, Inr _) \<Rightarrow> register_known_crontabs items s1)"

text \<open>\<open>loadCronItems\<close> keeps the items given.\<close>

definition load_cron_items :: "sstate \<Rightarrow> (sched_error, unit) result" where
  "load_cron_items s = (if length (ss_items s) > 0 then Inr () else Inr ())"

definition start_scheduler ::
  "scheduler \<Rightarrow> (int \<Rightarrow> string) \<Rightarrow> sstate \<Rightarrow> sstate \<times> (sched_error, unit) result" where
  "start_scheduler c rfc3339 s =
     (if ss_running s then (s, Inl SchedulerRunning)
      else
        (let s0 = s\<lparr>ss_cancelled := False, ss_running := True\<rparr>; s1 = sched_emit (CronStarting (ss_now s0)) s0 in
         case load_cron_items s1 of
           Inl e \<Rightarrow> (s1\<lparr>ss_running := False, ss_cancelled := True\<rparr>, Inl e)
         | Inr _ \<Rightarrow>
             (case register_known_crontabs (ss_items s1) s1 of
                (s2, Inl e) \<Rightarrow> (s2\<lparr>ss_running := False, ss_cancelled := True\<rparr>, Inl e)
              | (s2, Inr _) \<Rightarrow>
                  (let s3 = (if sc_backfill_on_start c then perform_backfill c rfc3339 s2 else s2)
                   in (sched_emit (CronStarted (ss_now s3) (length (ss_items s3))) s3, Inr ())))))"

definition stop_scheduler :: "sstate \<Rightarrow> sstate" where
  "stop_scheduler s =
     (if \<not> ss_running s then s
      else sched_emit (CronStopped (ss_now s)) (s\<lparr>ss_running := False, ss_cancelled := True\<rparr>))"

definition reload_cron_items :: "sstate \<Rightarrow> (sched_error, unit) result" where
  "reload_cron_items s = load_cron_items s"

definition get_cron_items :: "sstate \<Rightarrow> parsed_cron_item list" where
  "get_cron_items s = ss_items s"

end
