(* ===== verification/Execution_Log.thy ===== *)
theory Execution_Log
  imports Cron_Scheduler
begin

text \<open>
  The interface between the scheduler and the log of executions it keeps in the database: what
  has been recorded for a time is seen at every time of the same slot.  The table
  \<open>known_crontabs\<close> provides it, with the minute as the slot.
\<close>

section \<open>The interface\<close>

text \<open>What a tick does with the items that match, seen as operations of a log.\<close>

fun log_tick ::
  "('i \<Rightarrow> 't \<Rightarrow> 's \<Rightarrow> bool) \<Rightarrow> ('i \<Rightarrow> 't \<Rightarrow> 's \<Rightarrow> 's) \<Rightarrow> ('x \<Rightarrow> 't \<Rightarrow> 's \<Rightarrow> 's) \<Rightarrow> 't
     \<Rightarrow> ('i \<times> 'x) list \<Rightarrow> 's \<Rightarrow> 's" where
  "log_tick seen rec add t [] s = s"
| "log_tick seen rec add t ((i, x) # xs) s =
     log_tick seen rec add t xs (if seen i t s then s else add x t (rec i t s))"

locale execution_log =
  fixes seen :: "'i \<Rightarrow> 't \<Rightarrow> 's \<Rightarrow> bool"
    and rec :: "'i \<Rightarrow> 't \<Rightarrow> 's \<Rightarrow> 's"
    and add :: "'x \<Rightarrow> 't \<Rightarrow> 's \<Rightarrow> 's"
    and behind :: "'i \<Rightarrow> 't \<Rightarrow> 's \<Rightarrow> bool"
    and same_slot :: "'t \<Rightarrow> 't \<Rightarrow> bool"
  assumes seen_rec: "behind i t s \<Longrightarrow> same_slot t t' \<Longrightarrow> seen i t' (rec i t s)"
    and seen_slot: "same_slot t t' \<Longrightarrow> seen i t s \<Longrightarrow> seen i t' s"
    and seen_rec_other: "i' \<noteq> i \<Longrightarrow> seen i' t' (rec i t s) = seen i' t' s"
    and seen_add: "seen i t' (add x t s) = seen i t' s"
    and behind_rec_other: "i' \<noteq> i \<Longrightarrow> behind i' t' (rec i t s) = behind i' t' s"
    and behind_add: "behind i t' (add x t s) = behind i t' s"
    and slot_refl: "same_slot t t' \<Longrightarrow> same_slot t t"
begin

lemma idle_tick: "\<forall>p \<in> set xs. seen (fst p) t s \<Longrightarrow> log_tick seen rec add t xs s = s"
  by (induction xs) auto

lemma tick_keeps_seen:
  "same_slot t t' \<Longrightarrow> seen i t s \<and> seen i t' s \<Longrightarrow> seen i t' (log_tick seen rec add t xs s)"
proof (induction xs arbitrary: s)
  case (Cons p xs)
  obtain j x where p: "p = (j, x)" by force
  show ?case
  proof (cases "seen j t s")
    case True
    then show ?thesis using Cons by (simp add: p)
  next
    case False
    then have "i \<noteq> j" using Cons.prems by auto
    then have "seen i t (add x t (rec j t s)) \<and> seen i t' (add x t (rec j t s))"
      using Cons.prems by (simp add: seen_add seen_rec_other)
    then show ?thesis using Cons.IH Cons.prems(1) False by (simp add: p)
  qed
qed simp

lemma tick_seen:
  assumes "same_slot t t'" "\<forall>p \<in> set xs. seen (fst p) t s \<or> behind (fst p) t s"
  shows "\<forall>p \<in> set xs. seen (fst p) t' (log_tick seen rec add t xs s)"
  using assms(2)
proof (induction xs arbitrary: s)
  case (Cons p xs)
  obtain j x where p: "p = (j, x)" by force
  let ?s = "if seen j t s then s else add x t (rec j t s)"
  have j: "seen j t ?s \<and> seen j t' ?s"
    using Cons.prems assms(1) seen_rec seen_slot slot_refl by (auto simp: p seen_add)
  have "\<forall>q \<in> set xs. seen (fst q) t ?s \<or> behind (fst q) t ?s"
  proof
    fix q assume q: "q \<in> set xs"
    show "seen (fst q) t ?s \<or> behind (fst q) t ?s"
    proof (cases "fst q = j")
      case True
      then show ?thesis using j by simp
    next
      case False
      then show ?thesis using Cons.prems q
        by (auto simp: seen_add seen_rec_other behind_add behind_rec_other)
    qed
  qed
  from Cons.IH [OF this] show ?case using tick_keeps_seen [OF assms(1) j] by (simp add: p)
qed simp

text \<open>With different identifiers a tick is the updates of the items not seen, in order.\<close>

lemma tick_fold:
  "distinct (map fst xs) \<Longrightarrow>
     log_tick seen rec add t xs s =
       fold (\<lambda>p s. add (snd p) t (rec (fst p) t s)) (filter (\<lambda>p. \<not> seen (fst p) t s) xs) s"
proof (induction xs arbitrary: s)
  case (Cons p xs)
  obtain j x where p: "p = (j, x)" by force
  have "filter (\<lambda>q. \<not> seen (fst q) t (add x t (rec j t s))) xs = filter (\<lambda>q. \<not> seen (fst q) t s) xs"
  proof (intro filter_cong refl)
    fix q assume "q \<in> set xs"
    then have "fst q \<noteq> j" using Cons.prems by (auto simp: p)
    then show "(\<not> seen (fst q) t (add x t (rec j t s))) = (\<not> seen (fst q) t s)"
      by (simp add: seen_add seen_rec_other)
  qed
  then show ?case using Cons.IH Cons.prems by (simp add: p)
qed simp

text \<open>A second tick in the same slot does nothing.\<close>

lemma second_tick_idle:
  assumes "same_slot t t'" "\<forall>p \<in> set xs. seen (fst p) t s \<or> behind (fst p) t s"
  shows "log_tick seen rec add t' xs (log_tick seen rec add t xs s) = log_tick seen rec add t xs s"
  using tick_seen [OF assms] by (rule idle_tick)

end

section \<open>The table of known crontabs provides it\<close>

lemma add_job_crontabs: "add_job now s st = Inr (st', row) \<Longrightarrow> st_crontabs st' = st_crontabs st"
  by (cases rule: add_job_cases)
     (auto simp: insert_job_def Let_def move_count_def update_jobs_def burn_id_def notify_def
        increase_count_def decrease_count_def split: option.splits)

definition cron_add :: "scheduler \<Rightarrow> int \<Rightarrow> parsed_cron_item \<Rightarrow> int \<Rightarrow> store \<Rightarrow> store" where
  "cron_add c pg_now item t st =
     fst (quick_add_job [] (sc_utils c) pg_now DbWorks (cj_task (pci_job item))
        (Json (coalesce (cj_payload (pci_job item)) ''null'')) [cron_spec (pci_job item) t] st)"

lemma cron_add_crontabs [simp]: "st_crontabs (cron_add c pg_now item t st) = st_crontabs st"
  by (auto simp: cron_add_def quick_add_job_def add_job_crontabs split: option.split sum.split)

definition execution_seen :: "scheduler \<Rightarrow> string \<Rightarrow> int \<Rightarrow> store \<Rightarrow> bool" where
  "execution_seen c i t st = executed_at (sc_pg_loc c) i (digest_timestamp (sc_loc c) t) st"

text \<open>The crontab is registered and its last execution is before the time.\<close>

definition execution_behind :: "string \<Rightarrow> int \<Rightarrow> store \<Rightarrow> bool" where
  "execution_behind i t st \<longleftrightarrow>
     (\<exists>r. st_crontabs st i = Some r \<and> (\<forall>l. kc_last_execution r = Some l \<longrightarrow> l < micro t))"

definition same_slot :: "scheduler \<Rightarrow> int \<Rightarrow> int \<Rightarrow> bool" where
  "same_slot c t t' \<longleftrightarrow> digest_timestamp (sc_loc c) t = digest_timestamp (sc_loc c) t' \<and>
     digest_timestamp (sc_pg_loc c) (micro t * 1000) = digest_timestamp (sc_loc c) t"

lemma last_execution_record [simp]:
  "last_execution i (record_execution i' t st) =
     (if i = i' \<and> execution_behind i (t * 1000) st then Some t else last_execution i st)"
  by (auto simp: last_execution_def record_execution_def execution_behind_def micro_def split: option.splits)

interpretation crontabs: execution_log "execution_seen c" "\<lambda>i t. record_execution i (micro t)"
    "cron_add c pg_now" execution_behind "same_slot c" for c pg_now
proof unfold_locales
  show "execution_behind i t s \<Longrightarrow> same_slot c t t' \<Longrightarrow> execution_seen c i t' (record_execution i (micro t) s)"
    for i t s t'
    by (auto simp: execution_seen_def executed_at_def same_slot_def execution_behind_def micro_def)
qed (auto simp: execution_seen_def same_slot_def executed_at_def execution_behind_def
       record_execution_def last_execution_def split: option.splits)

section \<open>Slots are minutes\<close>

lemma year_day_same: "local_days loc t = local_days loc t' \<Longrightarrow> civil loc t = civil loc t'"
  by (simp add: civil_def)

lemma div_minutes:
  fixes x :: int
  shows "x div ns_day = x div ns_minute div 1440"
    and "x mod ns_hour div ns_minute = x div ns_minute mod 60"
    and "x mod ns_day div ns_hour = x div ns_minute div 60 mod 24"
proof -
  have m: "ns_hour = ns_minute * 60" "ns_day = ns_minute * 1440" "ns_day = ns_hour * 24"
    by (simp_all add: ns_minute_def ns_hour_def ns_day_def)
  have p: "0 \<le> ns_minute" "0 \<le> ns_hour" "ns_minute \<noteq> 0" "ns_hour \<noteq> 0" by (simp_all add: ns_minute_def ns_hour_def)
  show "x div ns_day = x div ns_minute div 1440" by (simp add: m(2) zdiv_zmult2_eq)
  have "x mod (ns_minute * 60) = ns_minute * (x div ns_minute mod 60) + x mod ns_minute"
    by (simp add: zmod_zmult2_eq)
  moreover have "0 \<le> x mod ns_minute" "x mod ns_minute < ns_minute" by (simp_all add: ns_minute_def)
  ultimately show "x mod ns_hour div ns_minute = x div ns_minute mod 60"
    using p by (simp add: m(1) div_pos_pos_trivial)
  have "x mod (ns_hour * 24) = ns_hour * (x div ns_hour mod 24) + x mod ns_hour"
    by (simp add: zmod_zmult2_eq)
  moreover have "0 \<le> x mod ns_hour" "x mod ns_hour < ns_hour" by (simp_all add: ns_hour_def)
  moreover have "x div ns_hour = x div ns_minute div 60" by (simp add: m(1) zdiv_zmult2_eq)
  ultimately show "x mod ns_day div ns_hour = x div ns_minute div 60 mod 24"
    using p by (simp add: m(3) div_pos_pos_trivial)
qed

lemma digest_same_minute:
  "(t + loc t) div ns_minute = (t' + loc' t') div ns_minute \<Longrightarrow>
     digest_timestamp loc t = digest_timestamp loc' t'"
  by (simp add: digest_timestamp_def civil_def time_minute_def time_hour_def time_weekday_def
      local_days_def div_minutes)

text \<open>A zone with one offset of whole minutes; in it the slots are the minutes.\<close>

definition fixed_zone :: "int \<Rightarrow> location" where
  "fixed_zone minutes t = minutes * ns_minute"

lemma truncate_minute_div: "truncate_minute t = truncate_minute t' \<longleftrightarrow> t div ns_minute = t' div ns_minute"
proof -
  have "truncate_minute x = ns_minute * (x div ns_minute)" for x
    by (simp add: truncate_minute_def minus_mod_eq_mult_div)
  then show ?thesis by (simp add: ns_minute_def)
qed

lemma digest_fixed_zone:
  "truncate_minute t = truncate_minute t' \<Longrightarrow>
     digest_timestamp (fixed_zone m) t = digest_timestamp (fixed_zone m) t'"
  by (rule digest_same_minute) (simp add: fixed_zone_def truncate_minute_div ns_minute_def)

lemma micro_same_minute: "truncate_minute (micro t * 1000) = truncate_minute t"
proof -
  have d: "x div ns_minute = x div 1000 div 60000000" for x
    using zdiv_zmult2_eq [of 60000000 x 1000] by (simp add: ns_minute_def)
  have "(t div 1000 * 1000) div ns_minute = t div ns_minute" by (simp add: d)
  then show ?thesis by (simp add: truncate_minute_div micro_def)
qed

lemma same_slot_minute:
  assumes "sc_loc c = fixed_zone m" "sc_pg_loc c = fixed_zone m" "truncate_minute t = truncate_minute t'"
  shows "same_slot c t t'"
  using assms digest_fixed_zone [OF assms(3)] digest_fixed_zone [OF micro_same_minute]
  by (simp add: same_slot_def)

end
