(* ===== verification/Cron_Scheduler_Facts.thy ===== *)
theory Cron_Scheduler_Facts
  imports Execution_Log
begin

text \<open>
  What the scheduler does to the job store: the tick over a working database, the backfill, and
  the interleaving of two schedulers.
\<close>

section \<open>A working database\<close>

definition quiet_db :: "sstate \<Rightarrow> bool" where
  "quiet_db s \<longleftrightarrow> ss_script s = [] \<and> \<not> ss_cancelled s \<and> \<not> ss_pool_closed s"

lemma quiet_calls [simp]:
  assumes "quiet_db s"
  shows "is_task_already_scheduled c item d s =
      (s, Inr (execution_seen c (pci_identifier item) (ss_now s) (ss_store s)))"
    and "record_scheduled_task item d t s =
      (s\<lparr>ss_store := record_execution (pci_identifier item) (micro t) (ss_store s)\<rparr>, Inr ())"
    and "get_last_execution_time i s = (s, Inr (map_option (\<lambda>l. l * 1000) (last_execution i (ss_store s))))"
    and "fst (add_job_to_queue c item t s) = s\<lparr>ss_store := cron_add c (ss_pg_now s) item t (ss_store s)\<rparr>"
  using assms
  by (simp_all add: quiet_db_def is_task_already_scheduled_def record_scheduled_task_def
      get_last_execution_time_def add_job_to_queue_def next_call_def on_open_pool_def in_ctx_def db_call_def
      execution_seen_def executed_at_def cron_add_def Let_def split: prod.split)

lemma emit_quiet [simp]:
  "quiet_db (sched_emit e s) = quiet_db s" "ss_store (sched_emit e s) = ss_store s"
  "ss_now (sched_emit e s) = ss_now s" "ss_pg_now (sched_emit e s) = ss_pg_now s"
  "ss_items (sched_emit e s) = ss_items s"
  by (simp_all add: sched_emit_def quiet_db_def)

lemma skew_quiet [simp]:
  "quiet_db (clock_skew_event c item t s) = quiet_db s"
  "ss_store (clock_skew_event c item t s) = ss_store s"
  "ss_now (clock_skew_event c item t s) = ss_now s"
  "ss_pg_now (clock_skew_event c item t s) = ss_pg_now s"
  "ss_items (clock_skew_event c item t s) = ss_items s"
  by (simp_all add: clock_skew_event_def Let_def)

lemma store_quiet [simp]: "quiet_db (s\<lparr>ss_store := st\<rparr>) = quiet_db s"
  by (simp add: quiet_db_def)

lemma schedule_task_quiet:
  assumes "quiet_db s"
  shows "ss_store (fst (schedule_task c item t s)) =
      (let i = pci_identifier item; st = ss_store s in
       if execution_seen c i (ss_now s) st then st
       else cron_add c (ss_pg_now s) item t (record_execution i (micro t) st)) \<and>
     quiet_db (fst (schedule_task c item t s)) \<and> ss_now (fst (schedule_task c item t s)) = ss_now s \<and>
     ss_pg_now (fst (schedule_task c item t s)) = ss_pg_now s \<and>
     ss_items (fst (schedule_task c item t s)) = ss_items s"
proof (cases "execution_seen c (pci_identifier item) (ss_now s) (ss_store s)")
  case True
  then show ?thesis using assms by (simp add: schedule_task_def Let_def)
next
  case False
  let ?s2 = "sched_emit (CronSchedule (cj_task (pci_job item)) t (digest_string (digest_timestamp (sc_loc c) t)))
     ((clock_skew_event c item t s)\<lparr>ss_store := record_execution (pci_identifier item) (micro t) (ss_store s)\<rparr>)"
  obtain s3 r where a: "add_job_to_queue c item t ?s2 = (s3, r)" by force
  have "s3 = ?s2\<lparr>ss_store := cron_add c (ss_pg_now s) item t (ss_store ?s2)\<rparr>"
    using quiet_calls(4) [of ?s2 c item t] assms a by simp
  then show ?thesis using assms False a
    by (cases r) (simp_all add: schedule_task_def Let_def)
qed

section \<open>The tick\<close>

definition due :: "scheduler \<Rightarrow> int \<Rightarrow> parsed_cron_item list \<Rightarrow> (string \<times> parsed_cron_item) list" where
  "due c t items = map (\<lambda>item. (pci_identifier item, item)) (filter (\<lambda>item. matches (sc_loc c) item t) items)"

definition tick_store :: "scheduler \<Rightarrow> int \<Rightarrow> int \<Rightarrow> parsed_cron_item list \<Rightarrow> store \<Rightarrow> store" where
  "tick_store c pg_now t items =
     log_tick (execution_seen c) (\<lambda>i t. record_execution i (micro t)) (cron_add c pg_now) t (due c t items)"

lemma process_items_quiet:
  "quiet_db s \<Longrightarrow> ss_now s = t \<Longrightarrow>
     ss_store (fold (process_item c t) items s) = tick_store c (ss_pg_now s) t items (ss_store s) \<and>
     quiet_db (fold (process_item c t) items s) \<and> ss_items (fold (process_item c t) items s) = ss_items s"
proof (induction items arbitrary: s)
  case Nil
  then show ?case by (simp add: tick_store_def due_def)
next
  case (Cons item items)
  let ?s = "process_item c t item s"
  have p: "quiet_db ?s" "ss_now ?s = t" "ss_pg_now ?s = ss_pg_now s" "ss_items ?s = ss_items s"
    using Cons.prems schedule_task_quiet [of s c item t] by (simp_all add: process_item_def)
  have "ss_store (fold (process_item c t) items ?s) = tick_store c (ss_pg_now s) t items (ss_store ?s)"
    using Cons.IH [OF p(1,2)] p(3) by simp
  also have "\<dots> = tick_store c (ss_pg_now s) t (item # items) (ss_store s)"
    using schedule_task_quiet [OF Cons.prems(1), of c item t] Cons.prems(2)
    by (simp add: process_item_def tick_store_def due_def Let_def)
  finally show ?case using Cons.IH [OF p(1,2)] p(4) by simp
qed

lemma scheduling_tick_quiet:
  assumes "quiet_db s"
  shows "ss_store (scheduling_tick c s) = tick_store c (ss_pg_now s) (ss_now s) (ss_items s) (ss_store s) \<and>
     quiet_db (scheduling_tick c s) \<and> ss_items (scheduling_tick c s) = ss_items s"
  using process_items_quiet [OF assms, of "ss_now s" c "ss_items s"] assms
  by (simp add: scheduling_tick_def process_scheduled_tasks_def quiet_db_def)

lemma matches_digest:
  "digest_timestamp loc t = digest_timestamp loc t' \<Longrightarrow> matches loc item t = matches loc item t'"
  by (simp add: matches_def matches_legacy_def Let_def split: option.split)

text \<open>
  C17: when the scheduler reads its clock in the zone of the database session, one of whole minutes,
  with a working database and every crontab's last execution before now, a second tick in the same minute leaves the database as the first one left it: an
  item is scheduled at most once a minute, however often the scheduler looks.
\<close>

theorem one_schedule_per_minute:
  assumes "quiet_db s" "sc_loc c = fixed_zone m" "sc_pg_loc c = fixed_zone m"
    and "\<forall>item \<in> set (ss_items s). execution_behind (pci_identifier item) (ss_now s) (ss_store s)"
    and "truncate_minute later = truncate_minute (ss_now s)"
  shows "ss_store (scheduling_tick c ((scheduling_tick c s)\<lparr>ss_now := later, ss_pg_now := pg_later\<rparr>))
       = ss_store (scheduling_tick c s)"
proof -
  let ?t = "ss_now s" and ?xs = "due c (ss_now s) (ss_items s)"
  have slot: "same_slot c ?t later" using same_slot_minute assms(2,3,5) by simp
  then have "matches (sc_loc c) item later = matches (sc_loc c) item ?t" for item
    using matches_digest [of "sc_loc c" ?t later item] by (simp add: same_slot_def)
  then have due: "due c later (ss_items s) = ?xs" by (simp add: due_def)
  have "quiet_db ((scheduling_tick c s)\<lparr>ss_now := later, ss_pg_now := pg_later\<rparr>)"
    using scheduling_tick_quiet [OF assms(1), of c] by (simp add: quiet_db_def)
  from scheduling_tick_quiet [OF this, of c]
  have "ss_store (scheduling_tick c ((scheduling_tick c s)\<lparr>ss_now := later, ss_pg_now := pg_later\<rparr>))
      = tick_store c pg_later later (ss_items s) (tick_store c (ss_pg_now s) ?t (ss_items s) (ss_store s))"
    using scheduling_tick_quiet [OF assms(1), of c] by simp
  also have "\<dots> = tick_store c (ss_pg_now s) ?t (ss_items s) (ss_store s)"
    unfolding tick_store_def due
  proof (rule crontabs.idle_tick, rule crontabs.tick_seen [OF slot])
    show "\<forall>p \<in> set ?xs. execution_seen c (fst p) ?t (ss_store s) \<or> execution_behind (fst p) ?t (ss_store s)"
      using assms(4) by (auto simp: due_def)
  qed
  finally show ?thesis using scheduling_tick_quiet [OF assms(1), of c] by simp
qed

text \<open>
  The zones must agree: in another session zone the record of a tick is not recognised, and the
  item is scheduled again, \<open>zone_mismatch_not_seen\<close>.
\<close>

lemma zone_mismatch_not_seen:
  assumes "execution_behind i t st" "sc_loc c = fixed_zone 0" "sc_pg_loc c = fixed_zone 60"
  shows "\<not> execution_seen c i t (record_execution i (micro t) st)"
proof
  assume "execution_seen c i t (record_execution i (micro t) st)"
  then have "td_hour (digest_timestamp (fixed_zone 60) (micro t * 1000)) = td_hour (digest_timestamp (fixed_zone 0) t)"
    using assms by (auto simp: execution_seen_def executed_at_def last_execution_record Let_def
        execution_behind_def micro_def split: if_splits)
  then have "td_hour (digest_timestamp (fixed_zone 60) (micro t * 1000))
      = td_hour (digest_timestamp (fixed_zone 0) (micro t * 1000))"
    using digest_fixed_zone [OF micro_same_minute, of 0 t] by simp
  moreover have "td_hour (digest_timestamp (fixed_zone 60) x) = (td_hour (digest_timestamp (fixed_zone 0) x) + 1) mod 24" for x
  proof -
    have "(x + 60 * ns_minute) div ns_minute = x div ns_minute + 60" by (simp add: ns_minute_def)
    moreover have "(y + 60) div 60 mod 24 = (y div 60 mod 24 + 1) mod 24" for y :: int
    proof -
      have "(y + 60) div 60 = y div 60 + 1" by simp
      then show ?thesis using mod_add_left_eq [of "y div 60" 24 1] by simp
    qed
    ultimately have "time_hour (fixed_zone 60) x = (time_hour (fixed_zone 0) x + 1) mod 24"
      by (simp add: time_hour_def fixed_zone_def div_minutes)
    then show ?thesis by (simp add: digest_timestamp_def split: prod.splits)
  qed
  moreover have "(h + 1) mod 24 \<noteq> h" for h :: int by presburger
  ultimately show False by metis
qed

section \<open>Jobs without a key\<close>

lemma spec_call_fields [simp]:
  "s_key (spec_call task body [cron_spec job t]) = cj_job_key job"
  "s_queue (spec_call task body [cron_spec job t]) = cj_queue_name job"
  "s_identifier (spec_call task body [cron_spec job t]) = task"
  "s_max_attempts (spec_call task body [cron_spec job t]) = cj_max_attempts job"
  "s_run_at (spec_call task body [cron_spec job t]) = Some (micro t)"
  by (simp_all add: spec_call_def cron_spec_def)

lemma check_cron_spec:
  "check_spec (spec_call task body [cron_spec job t]) = check_spec (spec_call task body' [cron_spec job t'])"
  by (simp add: check_spec_def)

definition plain_cron_item :: "scheduler \<Rightarrow> parsed_cron_item \<Rightarrow> bool" where
  "plain_cron_item c item \<longleftrightarrow> (\<exists>p. wu_pool (sc_utils c) = Some p) \<and> cj_job_key (pci_job item) = None \<and>
     check_spec (spec_call (cj_task (pci_job item)) [] [cron_spec (pci_job item) 0]) = None"

lemma plain_item_spec:
  assumes "plain_cron_item c item"
  shows "check_spec (spec_call (cj_task (pci_job item)) body [cron_spec (pci_job item) t]) = None"
    and "s_key (spec_call (cj_task (pci_job item)) body [cron_spec (pci_job item) t]) = None"
    and "\<exists>p. wu_pool (sc_utils c) = Some p"
  using assms check_cron_spec [of "cj_task (pci_job item)" body "pci_job item" t "[]" 0]
  unfolding plain_cron_item_def by auto

lemma cron_add_appends:
  assumes "plain_cron_item c item"
  shows "\<exists>row. st_jobs (cron_add c pg item t st) = st_jobs st @ [row] \<and> j_run_at row = micro t \<and>
     j_task row = cj_task (pci_job item)"
proof -
  let ?s = "spec_call (cj_task (pci_job item)) (coalesce (cj_payload (pci_job item)) ''null'') [cron_spec (pci_job item) t]"
  have c: "check_spec ?s = None" "s_key ?s = None"
    by (rule plain_item_spec [OF assms])+
  obtain st' row where i: "insert_job (row_of_spec pg ?s) (notify st) = (st', row)" by force
  from insert_job_result [OF i] have r: "st_jobs st' = st_jobs st @ [row]" "j_run_at row = micro t"
      "j_task row = cj_task (pci_job item)"
    by (simp_all add: row_of_spec_def coalesce_def)
  have "add_job pg ?s st = Inr (st', row)" using c i by (simp add: add_job_def)
  then have "cron_add c pg item t st = st'"
    using assms by (auto simp: cron_add_def quick_add_job_def acquire_def plain_cron_item_def)
  then show ?thesis using r by blast
qed

lemma add_job_to_queue_quiet:
  assumes "quiet_db s" "plain_cron_item c item"
  shows "\<exists>i. snd (add_job_to_queue c item t s) = Inr i"
proof -
  let ?s = "spec_call (cj_task (pci_job item)) (coalesce (cj_payload (pci_job item)) ''null'') [cron_spec (pci_job item) t]"
  obtain r where "add_job (ss_pg_now s) ?s (ss_store s) = Inr r"
    using plain_item_spec [OF assms(2)] by (simp add: add_job_def)
  then show ?thesis
    using assms by (cases r) (auto simp: add_job_to_queue_def quiet_db_def next_call_def on_open_pool_def in_ctx_def
        quick_add_job_def acquire_def plain_cron_item_def)
qed

lemma record_execution_jobs [simp]: "st_jobs (record_execution i t st) = st_jobs st"
  by (simp add: record_execution_def split: option.split)

definition run_of :: "job_row \<Rightarrow> string \<times> int" where
  "run_of j = (j_task j, j_run_at j)"

text \<open>What a tick does for one item: the record, and \<open>add_job\<close> in whatever key mode the item has.\<close>

definition tick_add :: "int \<Rightarrow> int \<Rightarrow> parsed_cron_item \<Rightarrow> store \<Rightarrow> store" where
  "tick_add pg_now t item st =
     (let st1 = record_execution (pci_identifier item) (micro t) st; job = pci_job item in
      case add_job pg_now (spec_call (cj_task job) (coalesce (cj_payload job) ''null'') [cron_spec job t]) st1 of
        Inl e \<Rightarrow> st1
      | Inr (st2, row) \<Rightarrow> st2)"

lemma tick_add_cron_add:
  "wu_pool (sc_utils c) = Some p \<Longrightarrow>
     cron_add c pg_now item t (record_execution (pci_identifier item) (micro t) st) = tick_add pg_now t item st"
  by (auto simp: cron_add_def tick_add_def quick_add_job_def acquire_def Let_def split: sum.split)

lemma tick_store_fold:
  assumes "wu_pool (sc_utils c) = Some p" "distinct (map pci_identifier items)"
  shows "tick_store c pg_now t items st =
     fold (tick_add pg_now t)
       (filter (\<lambda>item. matches (sc_loc c) item t \<and> \<not> execution_seen c (pci_identifier item) t st) items) st"
proof -
  have "distinct (map fst (due c t items))"
    using assms(2) by (simp add: due_def comp_def distinct_map_filter)
  from crontabs.tick_fold [OF this, of c pg_now t st] show ?thesis
    by (simp add: tick_store_def due_def filter_map comp_def fold_map tick_add_cron_add [OF assms(1)] conj_commute)
qed

lemma tick_adds_append:
  "\<forall>item \<in> set items. plain_cron_item c item \<Longrightarrow>
     \<exists>new. st_jobs (fold (tick_add pg_now t) items st) = st_jobs st @ new \<and>
       map run_of new = map (\<lambda>item. (cj_task (pci_job item), micro t)) items"
proof (induction items arbitrary: st)
  case (Cons item items)
  then obtain p where p: "wu_pool (sc_utils c) = Some p" by (auto simp: plain_cron_item_def)
  obtain row where row: "st_jobs (tick_add pg_now t item st) = st_jobs st @ [row]"
      "run_of row = (cj_task (pci_job item), micro t)"
    using cron_add_appends [of c item pg_now t "record_execution (pci_identifier item) (micro t) st"] Cons.prems
    by (auto simp: run_of_def tick_add_cron_add [OF p])
  obtain new where "st_jobs (fold (tick_add pg_now t) items (tick_add pg_now t item st)) = st_jobs (tick_add pg_now t item st) @ new"
      "map run_of new = map (\<lambda>item. (cj_task (pci_job item), micro t)) items"
    using Cons.IH [of "tick_add pg_now t item st"] Cons.prems by auto
  then show ?case using row by (intro exI [of _ "row # new"]) simp
qed simp

text \<open>
  C16: with a working database and items of different identifiers, a tick leaves the database as
  this does: for each item that matches and is not recorded for this minute, in the order of the
  items and for no other, its execution is recorded and \<open>add_job\<close> is called with its task, payload
  and options and a run time of now.  With a job key this replaces, keeps or dedupes a job as
  \<open>add_job\<close> does, and a specification that \<open>add_job\<close> refuses leaves the record alone.  When these
  items have no job key and a specification that is accepted, one job is added for each of them.
\<close>

theorem tick_adds_due_jobs:
  assumes "quiet_db s" "wu_pool (sc_utils c) = Some p" "distinct (map pci_identifier (ss_items s))"
    and "todo = filter (\<lambda>item. matches (sc_loc c) item (ss_now s) \<and>
           \<not> execution_seen c (pci_identifier item) (ss_now s) (ss_store s)) (ss_items s)"
  shows "ss_store (scheduling_tick c s) = fold (tick_add (ss_pg_now s) (ss_now s)) todo (ss_store s)
    \<and> ((\<forall>item \<in> set todo. plain_cron_item c item) \<longrightarrow>
        (\<exists>new. st_jobs (ss_store (scheduling_tick c s)) = st_jobs (ss_store s) @ new \<and>
           map run_of new = map (\<lambda>item. (cj_task (pci_job item), micro (ss_now s))) todo))"
  using scheduling_tick_quiet [OF assms(1), of c] tick_store_fold [OF assms(2,3)] tick_adds_append
  unfolding assms(4) by simp

section \<open>Backfill\<close>

lemma execution_seen_iff:
  "execution_seen c i t st \<longleftrightarrow> (\<exists>l. last_execution i st = Some l \<and>
     digest_timestamp (sc_pg_loc c) (l * 1000) = digest_timestamp (sc_loc c) t)"
  by (auto simp: execution_seen_def executed_at_def Let_def split: option.split
      intro!: timestamp_digest.equality)

lemma backfill_times_quiet:
  assumes "quiet_db s" "plain_cron_item c item"
    and "\<forall>t \<in> set ts. \<not> (digest_timestamp (sc_pg_loc c) (micro t * 1000) = digest_timestamp (sc_loc c) (ss_now s))"
    and "\<not> execution_seen c (pci_identifier item) (ss_now s) (ss_store s)"
  shows "\<exists>new. st_jobs (ss_store (fst (backfill_times c rfc item ts s))) = st_jobs (ss_store s) @ new \<and>
     map run_of new = map (\<lambda>t. (cj_task (pci_job item), micro t)) ts"
  using assms
proof (induction ts arbitrary: s)
  case (Cons t ts)
  let ?i = "pci_identifier item"
  let ?st = "cron_add c (ss_pg_now s) item t (record_execution ?i (micro t) (ss_store s))"
  let ?s2 = "s\<lparr>ss_store := record_execution ?i (micro t) (ss_store s)\<rparr>"
  obtain s3 r where a: "add_job_to_queue c item t ?s2 = (s3, r)" by force
  have s3: "s3 = s\<lparr>ss_store := ?st\<rparr>" using quiet_calls(4) [of ?s2 c item t] Cons.prems(1) a by simp
  have ok: "\<exists>i. r = Inr i"
    using add_job_to_queue_quiet [OF _ Cons.prems(2), of ?s2 t] Cons.prems(1) a by simp
  have eq: "backfill_times c rfc item (t # ts) s = backfill_times c rfc item ts (s\<lparr>ss_store := ?st\<rparr>)"
    using Cons.prems(1,4) a s3 ok by auto
  have "\<not> execution_seen c ?i (ss_now s) (record_execution ?i (micro t) (ss_store s))"
    using Cons.prems(3,4) by (auto simp: execution_seen_iff split: if_splits)
  then have "\<not> execution_seen c ?i (ss_now s) ?st" by (simp add: crontabs.seen_add)
  then obtain new where "st_jobs (ss_store (fst (backfill_times c rfc item ts (s\<lparr>ss_store := ?st\<rparr>)))) = st_jobs ?st @ new"
      "map run_of new = map (\<lambda>t. (cj_task (pci_job item), micro t)) ts"
    using Cons.IH [of "s\<lparr>ss_store := ?st\<rparr>"] Cons.prems by auto
  moreover obtain row where "st_jobs ?st = st_jobs (ss_store s) @ [row]" "run_of row = (cj_task (pci_job item), micro t)"
    using cron_add_appends [OF Cons.prems(2), of "ss_pg_now s" t "record_execution ?i (micro t) (ss_store s)"]
    by (auto simp: run_of_def)
  ultimately show ?case unfolding eq by (intro exI [of _ "row # new"]) simp
qed simp

text \<open>
  C29: with a working database, an item without a job key whose specification is accepted, and
  neither its last execution nor a missed time in the digest of the present minute, the backfill
  adds one job for each time the item matches from the last execution, or from the start of its
  backfill period if that is later, to now.  A last execution that is such a time, on the grid of
  minutes the search goes through, is run again.
\<close>

theorem backfill_runs_missed_times:
  assumes "quiet_db s" "plain_cron_item c item" "backfill (pci_options item)"
    and "last_execution (pci_identifier item) (ss_store s) = Some l"
    and "start = max (l * 1000) (ss_now s - backfill_period (pci_options item))"
    and "missed = schedule_times_in_range (sc_loc c) item start (ss_now s)"
    and "\<forall>t \<in> insert (l * 1000) (set missed).
           digest_timestamp (sc_pg_loc c) (micro t * 1000) \<noteq> digest_timestamp (sc_loc c) (ss_now s)"
  shows "\<exists>new. st_jobs (ss_store (backfill_one c rfc (ss_now s) item s)) = st_jobs (ss_store s) @ new \<and>
     map run_of new = map (\<lambda>t. (cj_task (pci_job item), micro t)) missed \<and>
     (l * 1000 \<in> minute_grid start (ss_now s) \<and> matches (sc_loc c) item (l * 1000) \<longrightarrow>
        (cj_task (pci_job item), l) \<in> run_of ` set new)"
proof -
  let ?s = "sched_emit (CronBackfill (cj_task (pci_job item)) start (ss_now s)) s"
  have "\<not> execution_seen c (pci_identifier item) (ss_now s) (ss_store s)"
    using assms(4,7) by (simp add: execution_seen_iff micro_def)
  then obtain new where new: "st_jobs (ss_store (fst (backfill_times c rfc item missed ?s))) = st_jobs (ss_store s) @ new"
      "map run_of new = map (\<lambda>t. (cj_task (pci_job item), micro t)) missed"
    using backfill_times_quiet [of ?s c item missed rfc] assms(1,2,7) by auto
  have "backfill_one c rfc (ss_now s) item s = fst (backfill_times c rfc item missed ?s)"
    using assms(1,3-6) by (simp add: backfill_one_def backfill_item_def)
  moreover have "(cj_task (pci_job item), l) \<in> run_of ` set new"
    if "l * 1000 \<in> minute_grid start (ss_now s)" "matches (sc_loc c) item (l * 1000)"
  proof -
    have "l * 1000 \<in> set missed"
      using schedule_loop_spec [OF truncate_minute_mod, of "sc_loc c" item start "ss_now s"] that
      by (simp add: assms(6) schedule_times_in_range_def minute_grid_def)
    then have "(cj_task (pci_job item), micro (l * 1000)) \<in> set (map run_of new)"
      unfolding new(2) by force
    then show ?thesis by (simp add: micro_def)
  qed
  ultimately show ?thesis using new by auto
qed

section \<open>Two schedulers\<close>

text \<open>
  Recording an execution does not report whether it changed anything.  When two schedulers
  both check an item before either records it, both add a job for the same time.
\<close>

theorem racing_schedulers_duplicate:
  assumes "quiet_db s" "plain_cron_item c item"
    and "is_task_already_scheduled c item digest s = (s, Inr False)"
    and "record_scheduled_task item digest t s = (s1, r1)"
    and "record_scheduled_task item digest t s1 = (s2, r2)"
    and "add_job_to_queue c item t s2 = (s3, r3)"
    and "add_job_to_queue c item t s3 = (s4, r4)"
  shows "r1 = Inr () \<and> r2 = Inr () \<and>
     (\<exists>a b. st_jobs (ss_store s4) = st_jobs (ss_store s) @ [a, b] \<and> run_of a = run_of b)"
proof -
  have s1: "s1 = s\<lparr>ss_store := record_execution (pci_identifier item) (micro t) (ss_store s)\<rparr>" "r1 = Inr ()"
    using assms(1,4) by auto
  then have q1: "quiet_db s1" using assms(1) by simp
  then have s2: "s2 = s1\<lparr>ss_store := record_execution (pci_identifier item) (micro t) (ss_store s1)\<rparr>" "r2 = Inr ()"
    using assms(5) by auto
  then have q2: "quiet_db s2" using q1 by simp
  have s3: "s3 = s2\<lparr>ss_store := cron_add c (ss_pg_now s2) item t (ss_store s2)\<rparr>"
    using quiet_calls(4) [OF q2, of c item t] assms(6) by simp
  then have q3: "quiet_db s3" using q2 by simp
  have s4: "s4 = s3\<lparr>ss_store := cron_add c (ss_pg_now s3) item t (ss_store s3)\<rparr>"
    using quiet_calls(4) [OF q3, of c item t] assms(7) by simp
  obtain a where a: "st_jobs (ss_store s3) = st_jobs (ss_store s2) @ [a]" "run_of a = (cj_task (pci_job item), micro t)"
    using cron_add_appends [OF assms(2), of "ss_pg_now s2" t "ss_store s2"] s3 by (auto simp: run_of_def)
  obtain b where b: "st_jobs (ss_store s4) = st_jobs (ss_store s3) @ [b]" "run_of b = (cj_task (pci_job item), micro t)"
    using cron_add_appends [OF assms(2), of "ss_pg_now s3" t "ss_store s3"] s4 by (auto simp: run_of_def)
  have "st_jobs (ss_store s2) = st_jobs (ss_store s)" using s1 s2 by simp
  then show ?thesis using a b s1 s2 by auto
qed

section \<open>An item that runs every minute\<close>

definition minutely_item :: parsed_cron_item where
  "minutely_item =
     \<lparr>pci_match = Some create_every_minute_matcher, pci_minutes = [], pci_hours = [], pci_dates = [],
      pci_months = [], pci_dows = [], pci_task = ''a'', pci_identifier = ''a'',
      pci_options = no_options\<lparr>backfill := True, backfill_period := 600000000000\<rparr>, pci_payload = None,
      pci_job = \<lparr>cj_task = ''a'', cj_payload = None, cj_queue_name = None, cj_run_at = None,
        cj_max_attempts = None, cj_priority = None, cj_job_key = None, cj_job_key_mode = None,
        cj_flags = None\<rparr>\<rparr>"

definition utc_scheduler :: scheduler where
  "utc_scheduler = new_scheduler [] True 0 (new_worker_utils (Some 0) []) (fixed_zone 0) (fixed_zone 0) False"

text \<open>Two minutes after its last execution, which was at \<open>00:02\<close>.\<close>

definition minutely_state :: sstate where
  "minutely_state = new_sstate [minutely_item]
     (record_execution ''a'' 120000000 (register_crontab ''a'' 0 empty_store)) 180000000000 180000000 []"

lemma minutely_facts:
  "quiet_db minutely_state" "ss_items minutely_state = [minutely_item]" "ss_now minutely_state = 180000000000"
  "sc_loc utc_scheduler = fixed_zone 0" "sc_pg_loc utc_scheduler = fixed_zone 0"
  "plain_cron_item utc_scheduler minutely_item" "pci_identifier minutely_item = ''a''"
  "cj_task (pci_job minutely_item) = ''a''" "matches loc minutely_item t"
  by (simp_all add: quiet_db_def minutely_state_def new_sstate_def utc_scheduler_def new_scheduler_def
      plain_cron_item_def minutely_item_def check_spec_def new_worker_utils_def matches_def is_parsed_def
      create_every_minute_matcher_def)

lemma minutely_log:
  "last_execution ''a'' (ss_store minutely_state) = Some 120000000"
  "execution_behind ''a'' 180000000000 (ss_store minutely_state)"
  by (simp_all add: minutely_state_def new_sstate_def register_crontab_def empty_store_def
      execution_behind_def record_execution_def last_execution_def micro_def)

lemma minutely_not_now:
  "digest_timestamp (fixed_zone 0) 120000000000 \<noteq> digest_timestamp (fixed_zone 0) 180000000000"
proof
  assume "digest_timestamp (fixed_zone 0) 120000000000 = digest_timestamp (fixed_zone 0) 180000000000"
  then have "td_minute (digest_timestamp (fixed_zone 0) 120000000000)
      = td_minute (digest_timestamp (fixed_zone 0) 180000000000)" by simp
  then show False
    by (simp add: digest_timestamp_def time_minute_def fixed_zone_def ns_hour_def ns_minute_def
        split: prod.splits)
qed

lemma minutely_unseen: "\<not> execution_seen utc_scheduler ''a'' 180000000000 (ss_store minutely_state)"
  using minutely_not_now by (simp add: execution_seen_iff minutely_log minutely_facts)

lemma minutely_times: "schedule_times_in_range (fixed_zone 0) minutely_item 120000000000 180000000000 = [120000000000]"
  by (simp add: schedule_times_in_range_def truncate_minute_def ns_minute_def minutely_facts
      schedule_loop.simps [of _ _ 120000000000] schedule_loop.simps [of _ _ 180000000000])

lemma one_schedule_per_minute_witness:
  "ss_store (scheduling_tick utc_scheduler ((scheduling_tick utc_scheduler minutely_state)
       \<lparr>ss_now := 239999999999, ss_pg_now := 239999999\<rparr>))
     = ss_store (scheduling_tick utc_scheduler minutely_state)"
  by (rule one_schedule_per_minute [OF minutely_facts(1,4,5)])
     (simp_all add: minutely_facts minutely_log truncate_minute_def ns_minute_def)

lemma tick_adds_due_jobs_witness:
  "\<exists>j. st_jobs (ss_store (scheduling_tick utc_scheduler minutely_state)) = [j] \<and> run_of j = (''a'', 180000000)"
proof -
  have "st_jobs (ss_store minutely_state) = []"
    by (simp add: minutely_state_def new_sstate_def register_crontab_def empty_store_def)
  moreover have "wu_pool (sc_utils utc_scheduler) = Some 0"
    by (simp add: utc_scheduler_def new_scheduler_def new_worker_utils_def)
  moreover have "distinct (map pci_identifier (ss_items minutely_state))" by (simp add: minutely_facts)
  ultimately show ?thesis
    using tick_adds_due_jobs [OF minutely_facts(1), of utc_scheduler 0] minutely_unseen
    by (auto simp: minutely_facts micro_def)
qed

lemma backfill_runs_missed_times_witness:
  "\<exists>j. st_jobs (ss_store (backfill_one utc_scheduler (\<lambda>t. []) 180000000000 minutely_item minutely_state)) = [j] \<and>
     run_of j = (''a'', 120000000)"
proof -
  have o: "backfill (pci_options minutely_item)" "backfill_period (pci_options minutely_item) = 600000000000"
    by (simp_all add: minutely_item_def)
  have e: "st_jobs (ss_store minutely_state) = []"
    by (simp add: minutely_state_def new_sstate_def register_crontab_def empty_store_def)
  have "last_execution (pci_identifier minutely_item) (ss_store minutely_state) = Some 120000000"
    by (simp add: minutely_facts minutely_log)
  from backfill_runs_missed_times [OF minutely_facts(1,6) o(1) this refl refl, of "\<lambda>t. []"]
  show ?thesis using minutely_not_now e by (auto simp: o minutely_facts minutely_times micro_def)
qed

lemma racing_schedulers_duplicate_witness:
  "\<exists>s1 s2 s3 s4 r3 r4 a b.
     record_scheduled_task minutely_item [] 180000000000 minutely_state = (s1, Inr ()) \<and>
     record_scheduled_task minutely_item [] 180000000000 s1 = (s2, Inr ()) \<and>
     add_job_to_queue utc_scheduler minutely_item 180000000000 s2 = (s3, r3) \<and>
     add_job_to_queue utc_scheduler minutely_item 180000000000 s3 = (s4, r4) \<and>
     st_jobs (ss_store s4) = st_jobs (ss_store minutely_state) @ [a, b] \<and> run_of a = run_of b"
proof -
  obtain s1 r1 where 1: "record_scheduled_task minutely_item [] 180000000000 minutely_state = (s1, r1)" by force
  obtain s2 r2 where 2: "record_scheduled_task minutely_item [] 180000000000 s1 = (s2, r2)" by force
  obtain s3 r3 where 3: "add_job_to_queue utc_scheduler minutely_item 180000000000 s2 = (s3, r3)" by force
  obtain s4 r4 where 4: "add_job_to_queue utc_scheduler minutely_item 180000000000 s3 = (s4, r4)" by force
  have "is_task_already_scheduled utc_scheduler minutely_item [] minutely_state = (minutely_state, Inr False)"
    using minutely_unseen by (simp add: minutely_facts)
  from racing_schedulers_duplicate [OF minutely_facts(1,6) this 1 2 3 4] 1 2 3 4 show ?thesis by auto
qed

end
