(* ===== verification/Transition.thy ===== *)
theory Transition
  imports KT_Prelude
begin

text \<open>
  The interface of a transition system with an invariant: what has to be shown of the first
  states and of each step, and that it then holds of every reachable state.
\<close>

locale invariant_system =
  fixes init :: "'s \<Rightarrow> bool"
    and step :: "'s \<Rightarrow> 's \<Rightarrow> bool"
    and inv :: "'s \<Rightarrow> bool"
  assumes init_inv: "init s \<Longrightarrow> inv s"
    and step_inv: "inv s \<Longrightarrow> step s s' \<Longrightarrow> inv s'"
begin

lemma steps_inv: "rtranclp step s s' \<Longrightarrow> inv s \<Longrightarrow> inv s'"
  by (induction rule: rtranclp_induct) (auto intro: step_inv)

lemma reachable_inv: "init s \<Longrightarrow> rtranclp step s s' \<Longrightarrow> inv s'"
  using steps_inv init_inv by blast

end

section \<open>Refinement\<close>

text \<open>
  The interface of a functional refinement: every step of an implementation, seen through an
  abstraction, is a step of a specification with the same label.  Then every run is.
\<close>

fun spec_run :: "('l \<Rightarrow> 'a \<Rightarrow> 'a \<Rightarrow> bool) \<Rightarrow> 'l list \<Rightarrow> 'a \<Rightarrow> 'a \<Rightarrow> bool" where
  "spec_run step [] a a' = (a = a')"
| "spec_run step (l # ls) a a' = (\<exists>b. step l a b \<and> spec_run step ls b a')"

locale refinement =
  fixes spec_step :: "'l \<Rightarrow> 'a \<Rightarrow> 'a \<Rightarrow> bool"
    and impl_step :: "'l \<Rightarrow> 'c \<Rightarrow> 'c"
    and inv :: "'c \<Rightarrow> bool"
    and abs :: "'c \<Rightarrow> 'a"
  assumes inv_kept: "inv c \<Longrightarrow> inv (impl_step l c)"
    and simulated: "inv c \<Longrightarrow> spec_step l (abs c) (abs (impl_step l c))"
begin

lemma run_simulated: "inv c \<Longrightarrow> spec_run spec_step ls (abs c) (abs (fold impl_step ls c))"
proof (induction ls arbitrary: c)
  case (Cons l ls)
  have "spec_step l (abs c) (abs (impl_step l c))" by (rule simulated [OF Cons.prems])
  moreover have "spec_run spec_step ls (abs (impl_step l c)) (abs (fold impl_step ls (impl_step l c)))"
    by (rule Cons.IH [OF inv_kept [OF Cons.prems]])
  ultimately show ?case by auto
qed simp

end

end
