(* ===== verification/Queue_Protocol.thy ===== *)
theory Queue_Protocol
  imports Job_Store_Spec Transition
begin

text \<open>
  Many workers on one job store: every client runs its statements in any order, a worker holds
  the jobs it was given until it completes or fails them or dies.  As long as the sweep of stale
  locks and the administrative functions only meet locks younger than four hours, two jobs of one
  queue are never held at the same time, and no job is held twice.
\<close>

section \<open>The system\<close>

type_synonym claims = "(string \<times> int) set"
type_synonym system = "store \<times> claims"

text \<open>The locks of the jobs that are being worked on are not stale.\<close>

definition timely :: "int \<Rightarrow> system \<Rightarrow> bool" where
  "timely now sys \<longleftrightarrow>
     (\<forall>(w, i) \<in> snd sys. \<forall>j \<in> set (st_jobs (fst sys)). j_id j = i \<longrightarrow>
        \<not> stale now (j_locked_at j) \<and>
        (\<forall>n r. j_queue j = Some n \<and> st_queues (fst sys) n = Some r \<longrightarrow> \<not> stale now (q_locked_at r)))"

inductive system_step :: "(int \<Rightarrow> int) \<Rightarrow> system \<Rightarrow> system \<Rightarrow> bool" for backoff where
  step_add: "add_job now s st = Inr (st', row) \<Longrightarrow> system_step backoff (st, C) (st', C)"
| step_remove: "system_step backoff (st, C) (fst (remove_job now k st), C)"
| step_take: "get_job held pg now w ts fl st = (st', Some row) \<Longrightarrow>
     system_step backoff (st, C) (st', insert (w, j_id row) C)"
| step_complete: "(w, i) \<in> C \<Longrightarrow> system_step backoff (st, C) (complete_job w i st, C - {(w, i)})"
| step_fail: "(w, i) \<in> C \<Longrightarrow>
     system_step backoff (st, C) (fail_job backoff now w i msg st, C - {(w, i)})"
| step_die: "system_step backoff (st, C) (st, C - {(w, i)})"
| step_reset: "timely now (st, C) \<Longrightarrow> system_step backoff (st, C) (reset_locked_at pg now st, C)"
| step_complete_jobs: "timely now (st, C) \<Longrightarrow>
     system_step backoff (st, C) (fst (complete_jobs now ids st), C)"
| step_permanently_fail: "timely now (st, C) \<Longrightarrow>
     system_step backoff (st, C) (fst (permanently_fail_jobs now ids msg st), C)"
| step_reschedule: "timely now (st, C) \<Longrightarrow>
     system_step backoff (st, C) (fst (reschedule_jobs now ids r p a m st), C)"

inductive_cases system_stepE: "system_step backoff (st, C) sys"

section \<open>The invariant\<close>

text \<open>A held job is locked by its holder, and so is its queue.\<close>

definition holds :: "store \<Rightarrow> string \<Rightarrow> job_row \<Rightarrow> bool" where
  "holds st w j \<longleftrightarrow> j \<in> set (st_jobs st) \<and> j_locked_by j = Some w \<and>
     (\<forall>n. j_queue j = Some n \<longrightarrow> (\<exists>r. st_queues st n = Some r \<and> q_locked_by r = Some w))"

definition exclusive :: "store \<Rightarrow> claims \<Rightarrow> bool" where
  "exclusive st C \<longleftrightarrow>
     (\<forall>w i w' i' j j'. (w, i) \<in> C \<and> (w', i') \<in> C \<and> j \<in> set (st_jobs st) \<and> j' \<in> set (st_jobs st) \<and>
        j_id j = i \<and> j_id j' = i' \<and> j_queue j \<noteq> None \<and> j_queue j = j_queue j' \<longrightarrow> w = w' \<and> i = i')"

definition system_inv :: "system \<Rightarrow> bool" where
  "system_inv sys \<longleftrightarrow>
     store_ok (fst sys) \<and>
     (\<forall>w i. (w, i) \<in> snd sys \<longrightarrow> (\<exists>j. j_id j = i \<and> holds (fst sys) w j)) \<and>
     exclusive (fst sys) (snd sys)"

text \<open>
  What a statement has to keep for the jobs that stay held: the row with its owner and queue, and
  the owner of the queue's row where there still is one.
\<close>

definition keeps_row :: "store \<Rightarrow> store \<Rightarrow> job_row \<Rightarrow> bool" where
  "keeps_row st st' j \<longleftrightarrow>
     (\<exists>j' \<in> set (st_jobs st'). j_id j' = j_id j \<and> j_locked_by j' = j_locked_by j \<and> j_queue j' = j_queue j)"

definition keeps_locks :: "string \<Rightarrow> (string \<rightharpoonup> queue_row) \<Rightarrow> (string \<rightharpoonup> queue_row) \<Rightarrow> bool" where
  "keeps_locks n Q Q' \<longleftrightarrow>
     (\<forall>r r'. Q n = Some r \<and> Q' n = Some r' \<longrightarrow> q_locked_by r' = q_locked_by r)"

lemma queue_row_exists:
  "queues_ok st \<Longrightarrow> j \<in> set (st_jobs st) \<Longrightarrow> j_queue j = Some n \<Longrightarrow> \<exists>r. st_queues st n = Some r"
  using jobs_in_pos [of j "st_jobs st" n]
  by (auto simp: queues_ok_def counts_agree_def dest!: spec [where x = n] split: option.splits)

lemma same_id:
  "store_ok st \<Longrightarrow> j \<in> set (st_jobs st) \<Longrightarrow> j' \<in> set (st_jobs st) \<Longrightarrow> j_id j = j_id j' \<Longrightarrow> j = j'"
  using id_unique [of "st_jobs st" j j'] by (auto dest: store_okD simp: ids_ok_def)

text \<open>The invariant is kept by every step that keeps the rows of the jobs that stay held.\<close>

lemma system_inv_keeps:
  assumes inv: "system_inv (st, C)" and ok: "store_ok st'" and sub: "C' \<subseteq> C"
    and row: "\<And>w i j. (w, i) \<in> C' \<Longrightarrow> j_id j = i \<Longrightarrow> holds st w j \<Longrightarrow> keeps_row st st' j"
    and locks: "\<And>w i j n. (w, i) \<in> C' \<Longrightarrow> j_id j = i \<Longrightarrow> holds st w j \<Longrightarrow> j_queue j = Some n \<Longrightarrow>
                  keeps_locks n (st_queues st) (st_queues st')"
  shows "system_inv (st', C')"
proof -
  have old: "\<exists>j. j_id j = i \<and> holds st w j \<and>
      (\<exists>j' \<in> set (st_jobs st'). j_id j' = i \<and> j_locked_by j' = Some w \<and> j_queue j' = j_queue j)"
    if "(w, i) \<in> C'" for w i
  proof -
    have "(w, i) \<in> C" using sub that by blast
    then obtain j where j: "j_id j = i" "holds st w j" using inv by (auto simp: system_inv_def)
    then show ?thesis using row [OF that j] by (fastforce simp: keeps_row_def holds_def)
  qed
  have "\<exists>j'. j_id j' = i \<and> holds st' w j'" if c: "(w, i) \<in> C'" for w i
  proof -
    obtain j j' where j: "j_id j = i" "holds st w j" "j' \<in> set (st_jobs st')" "j_id j' = i"
        "j_locked_by j' = Some w" "j_queue j' = j_queue j"
      using old [OF c] by blast
    have "\<exists>r. st_queues st' n = Some r \<and> q_locked_by r = Some w" if n: "j_queue j' = Some n" for n
    proof -
      obtain r' where r': "st_queues st' n = Some r'"
        using queue_row_exists [OF store_okD(3) [OF ok] j(3) n] by blast
      have q: "j_queue j = Some n" using j(6) n by simp
      then obtain r where r: "st_queues st n = Some r" "q_locked_by r = Some w"
        using j(2) unfolding holds_def by blast
      have "keeps_locks n (st_queues st) (st_queues st')" by (rule locks [OF c j(1,2) q])
      then have "q_locked_by r' = Some w" using r r' by (simp add: keeps_locks_def)
      then show ?thesis using r' by blast
    qed
    then show ?thesis using j by (auto simp: holds_def)
  qed
  note held = this
  have source: "\<exists>j \<in> set (st_jobs st). j_id j = i \<and> j_queue k = j_queue j"
    if c: "(w, i) \<in> C'" and k: "k \<in> set (st_jobs st')" "j_id k = i" for w i k
  proof -
    obtain j a where j: "j_id j = i" "holds st w j" "a \<in> set (st_jobs st')" "j_id a = i"
        "j_queue a = j_queue j"
      using old [OF c] by blast
    have "k = a" using same_id [OF ok k(1) j(3)] k(2) j(4) by simp
    then show ?thesis using j by (auto simp: holds_def)
  qed
  have "exclusive st' C'"
    unfolding exclusive_def
  proof (intro allI impI, elim conjE)
    fix w i w' i' k k'
    assume c: "(w, i) \<in> C'" "(w', i') \<in> C'"
      and k: "k \<in> set (st_jobs st')" "k' \<in> set (st_jobs st')" "j_id k = i" "j_id k' = i'"
      and q: "j_queue k \<noteq> None" "j_queue k = j_queue k'"
    obtain j where j: "j_id j = i" "j \<in> set (st_jobs st)" "j_queue k = j_queue j"
      using source [OF c(1) k(1,3)] by blast
    obtain j' where j': "j_id j' = i'" "j' \<in> set (st_jobs st)" "j_queue k' = j_queue j'"
      using source [OF c(2) k(2,4)] by blast
    have "exclusive st C" using inv by (simp add: system_inv_def)
    then show "w = w' \<and> i = i'"
      using c sub j j' q unfolding exclusive_def by (metis subsetD)
  qed
  with held ok show ?thesis by (simp add: system_inv_def)
qed

section \<open>What the statements keep\<close>

lemma keeps_row_refl: "j \<in> set (st_jobs st) \<Longrightarrow> keeps_row st st j"
  by (auto simp: keeps_row_def)

lemma keeps_locks_refl: "keeps_locks n Q Q"
  by (auto simp: keeps_locks_def)

lemma keeps_row_update:
  assumes "j \<in> set (st_jobs st)"
    and "P j \<Longrightarrow> j_id (f j) = j_id j \<and> j_locked_by (f j) = j_locked_by j \<and> j_queue (f j) = j_queue j"
  shows "keeps_row st (update_jobs now P f st) j"
proof -
  have "(if P j then touch now j (f j) else j) \<in> set (st_jobs (update_jobs now P f st))"
    using assms(1) by (auto simp: update_jobs_def)
  then show ?thesis unfolding keeps_row_def by (rule bexI [rotated]) (use assms(2) in auto)
qed

lemma keeps_row_jobs: "st_jobs st' = st_jobs st'' \<Longrightarrow> keeps_row st st' j = keeps_row st st'' j"
  by (simp add: keeps_row_def)

lemma keeps_locks_increase: "keeps_locks n (st_queues st) (st_queues (increase_count q st))"
  by (auto simp: keeps_locks_def increase_count_def split: option.splits if_splits)

lemma decrease_count_old:
  "st_queues (decrease_count q st) n = Some r' \<Longrightarrow>
     \<exists>r. st_queues st n = Some r \<and> q_locked_by r = q_locked_by r' \<and> q_locked_at r = q_locked_at r'"
  by (auto simp: decrease_count_def split: option.splits if_splits)

lemma fold_decrease_old:
  "st_queues (fold (\<lambda>j. decrease_count (j_queue j)) ds st) n = Some r' \<Longrightarrow>
     \<exists>r. st_queues st n = Some r \<and> q_locked_by r = q_locked_by r' \<and> q_locked_at r = q_locked_at r'"
proof (induction ds arbitrary: st)
  case (Cons d ds)
  then obtain r where "st_queues (decrease_count (j_queue d) st) n = Some r"
      "q_locked_by r = q_locked_by r'" "q_locked_at r = q_locked_at r'" by auto
  then show ?case using decrease_count_old [of "j_queue d" st n r] by auto
qed auto

lemma keeps_locks_delete: "keeps_locks n (st_queues st) (st_queues (delete_jobs P st))"
  unfolding keeps_locks_def delete_jobs_def by (auto dest!: fold_decrease_old)

lemma keeps_locks_move:
  "keeps_locks n (st_queues st) (st_queues (move_count old new st))"
  by (auto simp: keeps_locks_def move_count_def increase_count_def decrease_count_def
      split: option.splits if_splits)

lemma keeps_locks_unlock:
  "q \<noteq> Some n \<Longrightarrow> keeps_locks n (st_queues st) (st_queues (unlock_queue w q st))"
  by (auto simp: keeps_locks_def unlock_queue_def split: option.splits)

lemma keeps_locks_lock:
  "q \<noteq> Some n \<Longrightarrow> keeps_locks n (st_queues st) (st_queues (lock_queue w now q st))"
  by (auto simp: keeps_locks_def lock_queue_def split: option.splits)

lemma keeps_locks_via:
  "keeps_locks n Q Q1 \<Longrightarrow> (\<And>r'. Q' n = Some r' \<Longrightarrow> \<exists>r. Q1 n = Some r \<and> q_locked_by r = q_locked_by r')
     \<Longrightarrow> keeps_locks n Q Q'"
  unfolding keeps_locks_def by metis

lemma insert_keeps:
  assumes "st_queues st1 = st_queues st"
  shows "keeps_locks n (st_queues st) (st_queues (fst (insert_job row st1)))"
    "j \<in> set (st_jobs st1) \<Longrightarrow> keeps_row st (fst (insert_job row st1)) j"
  using keeps_locks_increase [of n "st1\<lparr>st_jobs := st_jobs st1 @ [row\<lparr>j_id := st_next_id st1\<rparr>],
      st_next_id := st_next_id st1 + 1\<rparr>" "j_queue row"] assms
  by (auto simp: insert_job_def Let_def keeps_row_def)

lemma held_locked: "store_ok st \<Longrightarrow> holds st w j \<Longrightarrow> j_locked_at j \<noteq> None"
  using store_okD(4) by (fastforce simp: holds_def locks_ok_def)

text \<open>Statements of clients that hold no job leave the held jobs alone.\<close>

lemma add_keeps:
  assumes "store_ok st" "add_job now s st = Inr (st', row)" "holds st w j"
  shows "keeps_row st st' j \<and> keeps_locks n (st_queues st) (st_queues st')"
proof -
  have j: "j \<in> set (st_jobs st)" "j_locked_at j \<noteq> None"
    using assms(3) held_locked [OF assms(1,3)] by (auto simp: holds_def)
  from assms(2) show ?thesis
  proof (cases rule: add_job_cases)
    case plain
    then show ?thesis using j insert_keeps [of "notify st" st] by simp
  next
    case fresh
    then show ?thesis using j insert_keeps [of "notify st" st] by simp
  next
    case (replace k old)
    have "\<not> j_key j = Some k"
      using key_unique [of "st_jobs st" j old k] find_key_Some [OF replace(2)] j replace(3)
        store_okD(2) [OF assms(1)] by (auto simp: keys_ok_def)
    moreover have "keeps_row st st' j = keeps_row (burn_id (notify st))
        (update_jobs now (\<lambda>j. j_key j = Some k) (replace_row s (row_of_spec now s)) (burn_id (notify st))) j"
      by (simp add: replace(4) keeps_row_def)
    moreover have "keeps_row (burn_id (notify st))
        (update_jobs now (\<lambda>j. j_key j = Some k) (replace_row s (row_of_spec now s)) (burn_id (notify st))) j"
      using j calculation(1) by (intro keeps_row_update) auto
    ultimately show ?thesis
      using replace(4)
        keeps_locks_move [of n "update_jobs now (\<lambda>j. j_key j = Some k)
          (replace_row s (row_of_spec now s)) (burn_id (notify st))"] by simp
  next
    case (locked k)
    let ?f = "\<lambda>j. j\<lparr>j_key := None, j_attempts := j_max_attempts j\<rparr>"
    let ?u = "update_jobs now (\<lambda>j. j_key j = Some k) ?f (burn_id (notify st))"
    have "keeps_row (burn_id (notify st)) ?u j" using j by (intro keeps_row_update) auto
    then have "keeps_row st st' j"
      by (auto simp: keeps_row_def locked(3) insert_job_def Let_def)
    moreover have "keeps_locks n (st_queues st) (st_queues st')"
      unfolding locked(3) by (rule insert_keeps) simp
    ultimately show ?thesis by blast
  next
    case (dedupe k)
    have "keeps_row (burn_id (notify st)) st' j" unfolding dedupe using j by (intro keeps_row_update) auto
    then show ?thesis by (simp add: keeps_row_def dedupe keeps_locks_refl)
  qed
qed

lemma remove_keeps:
  assumes "store_ok st" "holds st w j"
  shows "keeps_row st (fst (remove_job now k st)) j \<and>
    keeps_locks n (st_queues st) (st_queues (fst (remove_job now k st)))"
proof -
  have j: "j \<in> set (st_jobs st)" "j_locked_at j \<noteq> None"
    using assms(2) held_locked [OF assms] by (auto simp: holds_def)
  then show ?thesis
    by (auto simp: remove_job_def Let_def keeps_locks_refl keeps_locks_delete
        intro!: keeps_row_refl keeps_row_update split: option.splits)
       (auto simp: keeps_row_def)
qed

section \<open>Every step keeps the invariant\<close>

lemma system_invD:
  assumes "system_inv (st, C)"
  shows "store_ok st" "(w, i) \<in> C \<Longrightarrow> \<exists>j. j_id j = i \<and> holds st w j" "exclusive st C"
  using assms by (auto simp: system_inv_def)

lemma holds_queue_locked:
  "store_ok st \<Longrightarrow> holds st w j \<Longrightarrow> j_queue j = Some n \<Longrightarrow> \<not> queue_free h st (Some n)"
  using store_okD(4) by (fastforce simp: holds_def queue_free_def locks_ok_def ranI)

lemma one_holder:
  assumes "store_ok st" "holds st w j" "holds st w' j'" "j_id j = j_id j'"
  shows "w = w' \<and> j = j'"
  using same_id [OF assms(1), of j j'] assms by (auto simp: holds_def)

text \<open>A job is held by at most one worker.\<close>

lemma holder_unique:
  "system_inv (st, C) \<Longrightarrow> (w, i) \<in> C \<Longrightarrow> (w', i) \<in> C \<Longrightarrow> w = w'"
  using one_holder system_invD by metis

lemma take_inv:
  assumes inv: "system_inv (st, C)" and got: "get_job held pg now w ts fl st = (st', Some row)"
  shows "system_inv (st', insert (w, j_id row) C)"
proof -
  note ok = system_invD(1) [OF inv]
  have ok': "store_ok st'" using get_job_ok [OF ok, of held pg now w ts fl] got by simp
  obtain j where j: "j \<in> set (st_jobs st)" "runnable held now ts fl st j"
      "st' = update_jobs pg (\<lambda>j'. j_id j' = j_id j) (claim w now) (lock_queue w now (j_queue j) st)"
      "row = touch pg j (claim w now j)"
    using got by (cases rule: get_job_cases [of held pg now w ts fl st]) auto
  have free: "j_locked_at j = None" "queue_free held st (j_queue j)"
    using j(2) by (auto simp: runnable_def)
  have other: "j_id k \<noteq> j_id j \<and> (\<forall>n. j_queue k = Some n \<longrightarrow> j_queue j \<noteq> Some n)"
    if "holds st v k" for v k
  proof
    show "j_id k \<noteq> j_id j"
    proof
      assume "j_id k = j_id j"
      moreover have "k \<in> set (st_jobs st)" using that by (simp add: holds_def)
      ultimately have "k = j" using same_id [OF ok _ j(1)] by blast
      then show False using held_locked [OF ok that] free by simp
    qed
    show "\<forall>n. j_queue k = Some n \<longrightarrow> j_queue j \<noteq> Some n"
      using holds_queue_locked [OF ok that] free(2) by auto
  qed
  have inv': "system_inv (st', C)"
  proof (rule system_inv_keeps [OF inv ok' subset_refl])
    fix v i k assume "holds st v k"
    then have "k \<in> set (st_jobs (lock_queue w now (j_queue j) st))" "j_id k \<noteq> j_id j"
      using other by (auto simp: holds_def)
    then have "keeps_row (lock_queue w now (j_queue j) st) st' k"
      unfolding j(3) by (intro keeps_row_update) auto
    then show "keeps_row st st' k" by (simp add: keeps_row_def)
  next
    fix v i k n assume "holds st v k" "j_queue k = Some n"
    then have "j_queue j \<noteq> Some n" using other by blast
    then show "keeps_locks n (st_queues st) (st_queues st')"
      by (simp add: j(3) keeps_locks_lock)
  qed
  have row: "row \<in> set (st_jobs st')" "j_id row = j_id j" "j_locked_by row = Some w" "j_queue row = j_queue j"
    using j(1) by (auto simp: j(3,4) update_jobs_def claim_def)
  have "holds st' w row"
    using row free(2)
    by (auto simp: holds_def j(3) lock_queue_def queue_free_def split: option.splits)
  moreover have fresh: "i' \<noteq> j_id j \<and> j_queue k \<noteq> j_queue row"
    if a: "(w', i') \<in> C" "k \<in> set (st_jobs st')" "j_id k = i'" "j_queue k \<noteq> None" for w' i' k
  proof -
    obtain h where h: "j_id h = i'" "holds st w' h" using system_invD(2) [OF inv a(1)] by blast
    obtain h' where h': "h' \<in> set (st_jobs st')" "j_id h' = j_id h" "j_queue h' = j_queue h"
      using h(2) other [OF h(2)]
        keeps_row_update [of h "lock_queue w now (j_queue j) st" "\<lambda>j'. j_id j' = j_id j" "claim w now" pg]
      by (auto simp: keeps_row_def j(3) holds_def)
    have "h' = k" using same_id [OF ok' h'(1) a(2)] h' h a(3) by simp
    then show ?thesis using other [OF h(2)] h' h a(4) row(2,4) by auto
  qed
  moreover have "exclusive st' (insert (w, j_id row) C)"
    unfolding exclusive_def
  proof (intro allI impI, elim conjE)
    fix v i v' i' k k'
    assume c: "(v, i) \<in> insert (w, j_id row) C" "(v', i') \<in> insert (w, j_id row) C"
      and k: "k \<in> set (st_jobs st')" "k' \<in> set (st_jobs st')" "j_id k = i" "j_id k' = i'"
      and q: "j_queue k \<noteq> None" "j_queue k = j_queue k'"
    have new: "l = row" if "l \<in> set (st_jobs st')" "j_id l = j_id row" for l
      using same_id [OF ok' that(1) row(1) that(2)] .
    consider "(v, i) \<in> C" "(v', i') \<in> C" | "(v, i) = (w, j_id row)" "(v', i') \<in> C"
      | "(v, i) \<in> C" "(v', i') = (w, j_id row)" | "(v, i) = (w, j_id row)" "(v', i') = (w, j_id row)"
      using c by blast
    then show "v = v' \<and> i = i'"
    proof cases
      case 1
      then show ?thesis using system_invD(3) [OF inv'] k q unfolding exclusive_def by blast
    next
      case 2
      then show ?thesis using fresh [of v' i' k'] new [of k] k q by auto
    next
      case 3
      then show ?thesis using fresh [of v i k] new [of k'] k q by auto
    qed auto
  qed
  moreover have "\<exists>k. j_id k = i \<and> holds st' v k" if "(v, i) \<in> C" for v i
    using system_invD(2) [OF inv' that] .
  ultimately show ?thesis using ok' by (auto simp: system_inv_def)
qed

lemma exclusive_ids:
  "exclusive st C \<Longrightarrow> (w, i) \<in> C \<Longrightarrow> (w', i') \<in> C \<Longrightarrow> j \<in> set (st_jobs st) \<Longrightarrow>
     j' \<in> set (st_jobs st) \<Longrightarrow> j_id j = i \<Longrightarrow> j_id j' = i' \<Longrightarrow> j_queue j \<noteq> None \<Longrightarrow>
     j_queue j = j_queue j' \<Longrightarrow> w = w' \<and> i = i'"
  unfolding exclusive_def by blast

text \<open>The other held jobs are other jobs, of other queues.\<close>

lemma others_apart:
  assumes inv: "system_inv (st, C)" and c: "(w, i) \<in> C" and j: "j_id j = i" "holds st w j"
    and o: "(v, m) \<in> C - {(w, i)}" "j_id k = m" "holds st v k"
  shows "j_id k \<noteq> i \<and> (j_queue k \<noteq> None \<longrightarrow> j_queue j \<noteq> j_queue k)"
proof
  have js: "j \<in> set (st_jobs st)" "k \<in> set (st_jobs st)" using j(2) o(3) by (auto simp: holds_def)
  show "j_id k \<noteq> i"
    using o j one_holder [OF system_invD(1) [OF inv] o(3) j(2)] by auto
  show "j_queue k \<noteq> None \<longrightarrow> j_queue j \<noteq> j_queue k"
    using exclusive_ids [OF system_invD(3) [OF inv] c _ js(1,2) j(1) o(2)] o(1) by auto
qed

lemma complete_inv:
  assumes inv: "system_inv (st, C)" and c: "(w, i) \<in> C"
  shows "system_inv (complete_job w i st, C - {(w, i)})"
proof -
  note ok = system_invD(1) [OF inv]
  obtain j where j: "j_id j = i" "holds st w j" using system_invD(2) [OF inv c] by blast
  then have f: "find_job i st = Some j"
    using find_job_iff [OF store_okD(1) [OF ok]] by (simp add: holds_def)
  let ?st1 = "unlock_queue w (j_queue j) st"
  have eq: "complete_job w i st = delete_jobs (\<lambda>j'. j_id j' = i) ?st1"
    by (simp add: complete_job_def f)
  note other = others_apart [OF inv c j]
  show ?thesis
  proof (rule system_inv_keeps [OF inv complete_job_ok [OF ok]])
    fix v m k assume k: "(v, m) \<in> C - {(w, i)}" "j_id k = m" "holds st v k"
    then show "keeps_row st (complete_job w i st) k"
      using other [OF k] by (auto simp: eq keeps_row_def holds_def)
  next
    fix v m k n assume k: "(v, m) \<in> C - {(w, i)}" "j_id k = m" "holds st v k" "j_queue k = Some n"
    then have "keeps_locks n (st_queues st) (st_queues ?st1)"
      using other [OF k(1-3)] by (intro keeps_locks_unlock) auto
    then show "keeps_locks n (st_queues st) (st_queues (complete_job w i st))"
      unfolding eq by (rule keeps_locks_via) (auto simp: delete_jobs_def dest!: fold_decrease_old)
  qed blast
qed

lemma fail_inv:
  assumes inv: "system_inv (st, C)" and c: "(w, i) \<in> C"
  shows "system_inv (fail_job backoff now w i msg st, C - {(w, i)})"
proof -
  note ok = system_invD(1) [OF inv]
  obtain j where j: "j_id j = i" "holds st w j" using system_invD(2) [OF inv c] by blast
  then have f: "find_job i st = Some j" "j_locked_by j = Some w"
    using find_job_iff [OF store_okD(1) [OF ok]] by (auto simp: holds_def)
  let ?u = "update_jobs now (\<lambda>j'. j_id j' = i \<and> j_locked_by j' = Some w) (fail_row backoff now msg) st"
  have eq: "fail_job backoff now w i msg st = unlock_queue w (j_queue j) ?u"
    by (simp add: fail_job_def f)
  note other = others_apart [OF inv c j]
  show ?thesis
  proof (rule system_inv_keeps [OF inv fail_job_ok [OF ok]])
    fix v m k assume k: "(v, m) \<in> C - {(w, i)}" "j_id k = m" "holds st v k"
    then have "keeps_row st ?u k"
      using other [OF k] by (intro keeps_row_update) (auto simp: holds_def)
    then show "keeps_row st (fail_job backoff now w i msg st) k" by (simp add: eq keeps_row_def)
  next
    fix v m k n assume k: "(v, m) \<in> C - {(w, i)}" "j_id k = m" "holds st v k" "j_queue k = Some n"
    then have "keeps_locks n (st_queues ?u) (st_queues (unlock_queue w (j_queue j) ?u))"
      using other [OF k(1-3)] by (intro keeps_locks_unlock) auto
    then show "keeps_locks n (st_queues st) (st_queues (fail_job backoff now w i msg st))"
      by (simp add: eq)
  qed blast
qed

text \<open>The sweep and the administrative functions spare the locks that are not stale.\<close>

lemma timelyD:
  assumes "timely now (st, C)" "(w, i) \<in> C" "j_id j = i" "holds st w j"
  shows "\<not> stale now (j_locked_at j)" "\<not> admin_free now ids j"
    "j_queue j = Some n \<Longrightarrow> st_queues st n = Some r \<Longrightarrow> \<not> stale now (q_locked_at r)"
  using assms by (auto simp: timely_def holds_def admin_free_def)

lemma reset_inv:
  assumes inv: "system_inv (st, C)" and t: "timely now (st, C)"
  shows "system_inv (reset_locked_at pg now st, C)"
proof (rule system_inv_keeps [OF inv reset_locked_at_ok [OF system_invD(1) [OF inv]] subset_refl])
  let ?f = "\<lambda>j. j\<lparr>j_locked_at := None, j_locked_by := None\<rparr>"
  fix w i k assume k: "(w, i) \<in> C" "j_id k = i" "holds st w k"
  have "keeps_row st (update_jobs pg (\<lambda>j. stale now (j_locked_at j)) ?f st) k"
    using timelyD(1) [OF t k] k(3) by (intro keeps_row_update) (auto simp: holds_def)
  then show "keeps_row st (reset_locked_at pg now st) k"
    by (simp add: keeps_row_def reset_locked_at_def Let_def)
next
  fix w i k n assume k: "(w, i) \<in> C" "j_id k = i" "holds st w k" "j_queue k = Some n"
  then show "keeps_locks n (st_queues st) (st_queues (reset_locked_at pg now st))"
    using timelyD(3) [OF t k(1-4)] by (auto simp: keeps_locks_def reset_locked_at_def Let_def)
qed

lemma admin_inv:
  assumes inv: "system_inv (st, C)" and t: "timely now (st, C)"
  shows "system_inv (fst (complete_jobs now ids st), C)"
    "system_inv (fst (permanently_fail_jobs now ids msg st), C)"
    "system_inv (fst (reschedule_jobs now ids r p a m st), C)"
proof -
  note ok = admin_ok [OF system_invD(1) [OF inv]]
  show "system_inv (fst (complete_jobs now ids st), C)"
  proof (rule system_inv_keeps [OF inv ok(1) subset_refl])
    fix w i k assume k: "(w, i) \<in> C" "j_id k = i" "holds st w k"
    then show "keeps_row st (fst (complete_jobs now ids st)) k"
      using timelyD(2) [OF t k] by (auto simp: complete_jobs_def keeps_row_def holds_def)
  qed (simp add: complete_jobs_def keeps_locks_delete)
  show "system_inv (fst (permanently_fail_jobs now ids msg st), C)"
  proof (rule system_inv_keeps [OF inv ok(2) subset_refl])
    fix w i k assume k: "(w, i) \<in> C" "j_id k = i" "holds st w k"
    then show "keeps_row st (fst (permanently_fail_jobs now ids msg st)) k"
      using timelyD(2) [OF t k] unfolding permanently_fail_jobs_def Let_def fst_conv
      by (intro keeps_row_update) (auto simp: holds_def)
  qed (simp add: permanently_fail_jobs_def Let_def keeps_locks_refl)
  show "system_inv (fst (reschedule_jobs now ids r p a m st), C)"
  proof (rule system_inv_keeps [OF inv ok(3) subset_refl])
    fix w i k assume k: "(w, i) \<in> C" "j_id k = i" "holds st w k"
    then show "keeps_row st (fst (reschedule_jobs now ids r p a m st)) k"
      using timelyD(2) [OF t k] unfolding reschedule_jobs_def Let_def fst_conv
      by (intro keeps_row_update) (auto simp: holds_def)
  qed (simp add: reschedule_jobs_def Let_def keeps_locks_refl)
qed

lemma idle_inv:
  assumes inv: "system_inv (st, C)"
  shows "add_job now s st = Inr (st', row) \<Longrightarrow> system_inv (st', C)"
    "system_inv (fst (remove_job now k st), C)"
    "system_inv (st, C - D)"
proof -
  note ok = system_invD(1) [OF inv]
  show "add_job now s st = Inr (st', row) \<Longrightarrow> system_inv (st', C)"
    using add_keeps [OF ok] add_job_ok [OF ok]
    by (intro system_inv_keeps [OF inv _ subset_refl]) blast+
  show "system_inv (fst (remove_job now k st), C)"
    using remove_keeps [OF ok] remove_job_ok [OF ok]
    by (intro system_inv_keeps [OF inv _ subset_refl]) blast+
  show "system_inv (st, C - D)"
    using ok by (intro system_inv_keeps [OF inv]) (auto simp: keeps_row_refl holds_def keeps_locks_refl)
qed

lemma system_step_inv:
  "system_inv sys \<Longrightarrow> system_step backoff sys sys' \<Longrightarrow> system_inv sys'"
  by (cases sys)
     (auto elim!: system_stepE intro: idle_inv take_inv complete_inv fail_inv reset_inv admin_inv)

definition system_init :: "system \<Rightarrow> bool" where
  "system_init sys \<longleftrightarrow> sys = (empty_store, {})"

lemma system_init_inv: "system_init sys \<Longrightarrow> system_inv sys"
  using empty_store_ok by (simp add: system_init_def system_inv_def exclusive_def)

interpretation workers: invariant_system system_init "system_step backoff" system_inv for backoff
  by unfold_locales (auto intro: system_init_inv system_step_inv)

section \<open>Exclusion\<close>

definition reachable_system :: "(int \<Rightarrow> int) \<Rightarrow> system \<Rightarrow> bool" where
  "reachable_system backoff sys \<longleftrightarrow> rtranclp (system_step backoff) (empty_store, {}) sys"

lemma reachable_system_inv: "reachable_system backoff sys \<Longrightarrow> system_inv sys"
  unfolding reachable_system_def by (rule workers.reachable_inv) (simp_all add: system_init_def)

text \<open>
  C1: however the statements of the workers and of other clients interleave, a job that a worker
  holds is in the store and locked in its name, no other worker holds it, and two held jobs with
  the same queue name are the same job: the jobs of a queue run one at a time.
\<close>

theorem queue_jobs_run_one_at_a_time:
  assumes "reachable_system backoff (st, C)" "(w, i) \<in> C"
  shows "\<exists>j. find_job i st = Some j \<and> j_locked_by j = Some w \<and>
    (\<forall>w'. (w', i) \<in> C \<longrightarrow> w' = w) \<and>
    (\<forall>w' i' j'. (w', i') \<in> C \<and> find_job i' st = Some j' \<and> j_queue j \<noteq> None \<and> j_queue j' = j_queue j
        \<longrightarrow> w' = w \<and> i' = i)"
proof -
  have inv: "system_inv (st, C)" by (rule reachable_system_inv [OF assms(1)])
  note f = find_job_iff [OF store_okD(1) [OF system_invD(1) [OF inv]]]
  obtain j where j: "j_id j = i" "holds st w j" using system_invD(2) [OF inv assms(2)] by blast
  have js: "j \<in> set (st_jobs st)" "j_locked_by j = Some w" using j(2) by (auto simp: holds_def)
  show ?thesis
  proof (intro exI [of _ j] conjI allI impI)
    show "find_job i st = Some j" using f js(1) j(1) by blast
    show "j_locked_by j = Some w" by (rule js(2))
  next
    fix w' assume "(w', i) \<in> C"
    then show "w' = w" by (rule holder_unique [OF inv _ assms(2)])
  next
    fix w' i' j'
    assume a: "(w', i') \<in> C \<and> find_job i' st = Some j' \<and> j_queue j \<noteq> None \<and> j_queue j' = j_queue j"
    then have "j' \<in> set (st_jobs st)" "j_id j' = i'" using f by auto
    with a have "w' = w \<and> i' = i"
      using exclusive_ids [OF system_invD(3) [OF inv] _ assms(2) _ js(1) _ j(1)] by auto
    then show "w' = w" "i' = i" by auto
  qed
qed

text \<open>One worker holds a queued job while another job of the queue waits.\<close>

lemma one_at_a_time_witness:
  "\<exists>st C j. reachable_system (\<lambda>_. 1) (st, C) \<and> (''w'', 1) \<in> C \<and> find_job 1 st = Some j \<and>
     j_locked_by j = Some ''w''"
proof -
  have add: "system_step (\<lambda>_. 1) (st, C) (fst (insert_job (row_of_spec 0 (queued ''q'')) (notify st)), C)"
    for st C
    by (rule step_add [of 0 "queued ''q''" _ _ "snd (insert_job (row_of_spec 0 (queued ''q'')) (notify st))"])
       (simp add: add_job_def check_spec_def queued_def plain_spec_def Let_def)
  let ?s1 = "fst (insert_job (row_of_spec 0 (queued ''q'')) (notify empty_store))"
  let ?s2 = "fst (insert_job (row_of_spec 0 (queued ''q'')) (notify ?s1))"
  have "\<exists>st' row. get_job none_held 1 1 ''w'' None None ?s2 = (st', Some row) \<and> j_id row = 1"
    by (simp add: queued_def add_defs) (simp add: take_defs)
  then obtain st' row where g: "get_job none_held 1 1 ''w'' None None ?s2 = (st', Some row)"
    "j_id row = 1" by blast
  have one: "rtranclp (system_step (\<lambda>_. 1)) (empty_store, {}) (?s1, {})"
    using add [of empty_store "{}"] by (rule r_into_rtranclp)
  have "rtranclp (system_step (\<lambda>_. 1)) (empty_store, {}) (?s2, {})"
    using one add [of ?s1 "{}"] by (rule rtranclp.rtrancl_into_rtrancl)
  then have "reachable_system (\<lambda>_. 1) (st', insert (''w'', j_id row) {})"
    unfolding reachable_system_def
    by (rule rtranclp.rtrancl_into_rtrancl) (rule step_take [OF g(1)])
  then have r: "reachable_system (\<lambda>_. 1) (st', {(''w'', 1)})" by (simp add: g(2))
  then show ?thesis using queue_jobs_run_one_at_a_time [OF r, of "''w''" 1] by auto
qed

end
