(* ===== verification/Worker_Facts.thy ===== *)
theory Worker_Facts
  imports Worker Job_Source
begin

text \<open>
  What a worker does with a job it was given, when its loops end and how, and what its
  configuration leaves out.
\<close>

section \<open>Frames\<close>

lemma emit_frame [simp, kt_frame]:
  "ws_store (emit wk ty i e st) = ws_store st" "ws_script (emit wk ty i e st) = ws_script st"
  "ws_active (emit wk ty i e st) = ws_active st" "ws_now (emit wk ty i e st) = ws_now st"
  "ws_node_now (emit wk ty i e st) = ws_node_now st" "ws_backoff (emit wk ty i e st) = ws_backoff st"
  "ws_reset_timer (emit wk ty i e st) = ws_reset_timer st"
  "ws_pool_closed (emit wk ty i e st) = ws_pool_closed st"
  "ws_cancelled (emit wk ty i e st) = ws_cancelled st" "ws_errors (emit wk ty i e st) = ws_errors st"
  "next_env (emit wk ty i e st) = next_env st" "worker_now wk (emit wk ty i e st) = worker_now wk st"
  "pool_result (emit wk ty i e st) = pool_result st" "call_result (emit wk ty i e st) = call_result st"
  by (simp_all add: emit_def next_env_def worker_now_def pool_result_def call_result_def)

lemma release_frame [simp, kt_frame]:
  "ws_store (release wk st) = ws_store st" "ws_script (release wk st) = ws_script st"
  "ws_backoff (release wk st) = ws_backoff st" "ws_now (release wk st) = ws_now st"
  "ws_active (release wk st) = False"
  by (auto simp: release_def set_active_def cancel_reset_locked_timer_def Let_def)

lemma wait_frame [simp, kt_frame]:
  "ws_store (wait wk st) = ws_store st" "ws_backoff (wait wk st) = ws_backoff st"
  "ws_script (wait wk st) = tl (ws_script st)"
  by (auto simp: wait_def Let_def)

lemma wait_active: "ws_active (wait wk st) = (ws_active st \<and> \<not> es_release (next_env st))"
  by (auto simp: wait_def Let_def)

section \<open>A job is settled by its outcome\<close>

text \<open>
  C9: a job whose task ran and whose statement reached the database is gone when the task
  succeeded, and when it failed it is unlocked with the task's error and the worker reports that
  error; no other job changes with it, and the worker has no active job any more.
\<close>

theorem process_job_settles:
  assumes "map_of (wk_handlers wk) (j_task job) = Some h"
    and "h (j_payload job) job (emit wk JobStart (Some (j_id job)) None (st\<lparr>ws_active_job := Some (j_id job)\<rparr>))
           = (mid, Returned err)"
    and "store_ok (ws_store mid)" "find_job (j_id job) (ws_store mid) = Some row"
    and "j_locked_by row = Some (wk_id wk)" "call_result mid = DbWorks"
    and "process_job wk job st = (st', res)"
  shows "ws_active_job st' = None \<and> store_ok (ws_store st') \<and>
     (case err of
        None \<Rightarrow> res = Returned None \<and> find_job (j_id job) (ws_store st') = None
      | Some e \<Rightarrow> res = Returned (Some (TaskFailed e)) \<and>
          (\<exists>new. find_job (j_id job) (ws_store st') = Some new \<and> j_locked_by new = None \<and>
             j_last_error new = Some e)) \<and>
     (\<forall>i. i \<noteq> j_id job \<longrightarrow> find_job i (ws_store st') = find_job i (ws_store mid))"
proof (cases err)
  case None
  then have "ws_store st' = complete_job (wk_id wk) (j_id job) (ws_store mid)" "res = Returned None"
      "ws_active_job st' = None"
    using assms(1,2,6,7) by (auto simp: process_job_def finish_job_def worker_complete_job_def statement_def Let_def)
  then show ?thesis
    using pg.settled [OF assms(3-5), where err = None and s' = "ws_store st'"] None by simp
next
  case (Some e)
  then have st': "ws_store st' = fail_job (ws_backoff mid) (ws_now mid) (wk_id wk) (j_id job) e (ws_store mid)"
      "res = Returned (Some (TaskFailed e))" "ws_active_job st' = None"
    using assms(1,2,6,7)
    by (auto simp: process_job_def finish_job_def worker_fail_job_def statement_def Let_def split: if_splits)
  have "find_job (j_id job) (ws_store st') =
      Some (touch (ws_now mid) row (fail_row (ws_backoff mid) (ws_now mid) e row))"
    using find_job_fail [OF assms(3,4)] assms(5) by (simp add: st'(1))
  then have "\<exists>new. find_job (j_id job) (ws_store st') = Some new \<and> j_locked_by new = None \<and>
             j_last_error new = Some e"
    by (simp add: fail_row_def)
  moreover have "store_ok (ws_store st') \<and>
      (\<forall>i. i \<noteq> j_id job \<longrightarrow> find_job i (ws_store st') = find_job i (ws_store mid))"
    using pg.settled [OF assms(3-5), where err = "Some e" and s' = "ws_store st'"] st'(1) by simp
  ultimately show ?thesis using st' Some by simp
qed

text \<open>A store with one job, taken by worker w.\<close>

definition one_job :: store where
  "one_job = fst (insert_job (row_of_spec 0 (plain_spec ''t'' None)) empty_store)"

definition always_ok :: handler where "always_ok payload job st = (st, Returned None)"
definition always_fails :: handler where "always_fails payload job st = (st, Returned (Some ''boom''))"

definition test_worker :: "(string \<times> handler) list \<Rightarrow> worker" where
  "test_worker hs = (new_worker ''w'' ''s'' [])\<lparr>wk_handlers := hs\<rparr>"

lemma one_job_ok: "store_ok one_job"
  unfolding one_job_def by (rule insert_job_ok [OF empty_store_ok]) (simp_all add: plain_spec_def)

lemma one_job_taken:
  obtains db row where "get_job none_held 5 5 ''w'' None None one_job = (db, Some row)" "store_ok db"
    "find_job (j_id row) db = Some row" "j_locked_by row = Some ''w''" "j_task row = ''t''"
proof -
  have "\<exists>db row. get_job none_held 5 5 ''w'' None None one_job = (db, Some row) \<and>
     find_job (j_id row) db = Some row \<and> j_locked_by row = Some ''w'' \<and> j_task row = ''t''"
    by (simp add: one_job_def add_defs) (simp add: take_defs find_job_def)
  then obtain db row where g: "get_job none_held 5 5 ''w'' None None one_job = (db, Some row)"
     "find_job (j_id row) db = Some row" "j_locked_by row = Some ''w''" "j_task row = ''t''"
    by blast
  moreover have "store_ok db" using get_job_ok [OF one_job_ok, of none_held 5 5 "''w''" None None] g(1) by simp
  ultimately show thesis using that by blast
qed

lemma process_job_settles_witness:
  "\<exists>st job st'. process_job (test_worker [(''t'', always_ok)]) job st = (st', Returned None) \<and>
     find_job (j_id job) (ws_store st) \<noteq> None \<and> find_job (j_id job) (ws_store st') = None"
proof -
  obtain db row where g: "store_ok db" "find_job (j_id row) db = Some row" "j_locked_by row = Some ''w''"
      "j_task row = ''t''" by (rule one_job_taken)
  let ?wk = "test_worker [(''t'', always_ok)]"
  let ?st = "new_state db 5 5 (\<lambda>_. 1) []"
  let ?mid = "emit ?wk JobStart (Some (j_id row)) None (?st\<lparr>ws_active_job := Some (j_id row)\<rparr>)"
  obtain st' res where p: "process_job ?wk row ?st = (st', res)" by (metis surj_pair)
  have "map_of (wk_handlers ?wk) (j_task row) = Some always_ok" "wk_id ?wk = ''w''"
    by (simp_all add: test_worker_def new_worker_def g(4))
  moreover have "always_ok (j_payload row) row ?mid = (?mid, Returned None)" by (simp add: always_ok_def)
  moreover have "store_ok (ws_store ?mid)" "find_job (j_id row) (ws_store ?mid) = Some row"
      "call_result ?mid = DbWorks"
    using g by (simp_all add: new_state_def call_result_def pool_result_def next_env_def quiet_def)
  ultimately have "res = Returned None \<and> find_job (j_id row) (ws_store st') = None"
    using process_job_settles [of ?wk row always_ok ?st ?mid None row st' res] p g(3) by simp
  moreover have "ws_store ?st = db" by (simp add: new_state_def)
  ultimately show ?thesis using p g(2) by (intro exI [of _ ?st] exI [of _ row] exI [of _ st']) simp
qed

section \<open>An interrupted job stays locked\<close>

lemma interrupted_keeps_store:
  assumes "map_of (wk_handlers wk) (j_task job) = Some h"
    and "h (j_payload job) job (emit wk JobStart (Some (j_id job)) None (st\<lparr>ws_active_job := Some (j_id job)\<rparr>))
           = (mid, how)"
    and "(\<exists>m. how = Panicked m) \<or> call_result mid \<noteq> DbWorks"
    and "process_job wk job st = (st', res)"
  shows "res \<noteq> Returned None \<and> ws_store st' = ws_store mid \<and> ws_active_job st' = None"
proof (cases how)
  case (Panicked m)
  then show ?thesis using assms by (auto simp: process_job_def Let_def)
next
  case (Returned err)
  then have "call_result mid \<noteq> DbWorks" using assms(3) by simp
  then have "\<exists>e. snd (finish_job wk job err mid) = Some e" "ws_store (fst (finish_job wk job err mid)) = ws_store mid"
    by (cases err; cases "call_result mid";
        auto simp: finish_job_def worker_complete_job_def worker_fail_job_def statement_def Let_def)+
  then show ?thesis using assms(1,2,4) Returned
    by (cases "finish_job wk job err mid") (auto simp: process_job_def Let_def)
qed

lemma locked_not_taken:
  assumes "get_job held pg now w ts fl st = (db, Some row')" "ids_ok st" "find_job i st = Some row"
    and "j_locked_at row \<noteq> None"
    and "\<And>q. j_queue row = Some q \<Longrightarrow> \<exists>r. st_queues st q = Some r \<and> q_locked_at r \<noteq> None"
  shows "j_id row' \<noteq> i \<and> (j_queue row \<noteq> None \<longrightarrow> j_queue row' \<noteq> j_queue row)"
proof -
  obtain j where j: "j \<in> set (st_jobs st)" "runnable held now ts fl st j" "row' = touch pg j (claim w now j)"
    using assms(1) by (cases rule: get_job_cases [of held pg now w ts fl st]) auto
  have "j_locked_at j = None" "queue_free held st (j_queue j)" using j(2) by (auto simp: runnable_def)
  moreover have "j_id row' = j_id j" "j_queue row' = j_queue j" by (simp_all add: j(3) claim_def)
  moreover have "j \<noteq> row" using \<open>j_locked_at j = None\<close> assms(4) by auto
  then have "j_id j \<noteq> i" using assms(3) j(1) find_job_iff [OF assms(2)] by (metis option.inject)
  moreover have "\<not> queue_free held st (j_queue row)" if "j_queue row \<noteq> None"
    using assms(5) that by (auto simp: queue_free_def)
  ultimately show ?thesis by metis
qed

lemma find_job_reset:
  assumes "ids_ok st"
  shows "find_job i (reset_locked_at pg now st) =
    map_option (\<lambda>j. if stale now (j_locked_at j) then touch pg j (j\<lparr>j_locked_at := None, j_locked_by := None\<rparr>) else j)
      (find_job i st)"
proof -
  have "find_job i (s\<lparr>st_queues := Q\<rparr>) = find_job i s" for s :: store and Q by (simp add: find_job_def)
  then show ?thesis by (simp add: reset_locked_at_def Let_def find_job_update [OF assms])
qed

text \<open>
  C19: a task that panics, or whose worker's context or pool ends while it runs, leaves its job
  locked: neither its success nor its failure is recorded, and the store is as the task left it.  No request
  of any worker is given that job or another one of its queue, until a sweep more than four hours
  after the job was locked unlocks it, with the attempt used up; an earlier sweep leaves it.
\<close>

theorem interrupted_job_stays_locked:
  assumes "map_of (wk_handlers wk) (j_task job) = Some h"
    and "h (j_payload job) job (emit wk JobStart (Some (j_id job)) None (st\<lparr>ws_active_job := Some (j_id job)\<rparr>))
           = (mid, how)"
    and "(\<exists>m. how = Panicked m) \<or> ws_cancelled mid \<or> ws_pool_closed mid"
    and "store_ok (ws_store mid)" "find_job (j_id job) (ws_store mid) = Some row" "j_locked_at row = Some l"
    and "\<And>q. j_queue row = Some q \<Longrightarrow> \<exists>r. st_queues (ws_store mid) q = Some r \<and> q_locked_at r \<noteq> None"
    and "process_job wk job st = (st', res)"
  shows "res \<noteq> Returned None \<and> ws_store st' = ws_store mid \<and> ws_active_job st' = None \<and>
    (\<forall>held pg now w ts fl db row'. get_job held pg now w ts fl (ws_store st') = (db, Some row') \<longrightarrow>
       j_id row' \<noteq> j_id job \<and> (j_queue row \<noteq> None \<longrightarrow> j_queue row' \<noteq> j_queue row)) \<and>
    (\<forall>pg now. \<exists>new. find_job (j_id job) (reset_locked_at pg now (ws_store st')) = Some new \<and>
       j_attempts new = j_attempts row \<and>
       j_locked_at new = (if l < now - hours4 then None else Some l))"
proof -
  have "call_result mid \<noteq> DbWorks \<or> (\<exists>m. how = Panicked m)"
    using assms(3) by (auto simp: call_result_def pool_result_def)
  then have s: "res \<noteq> Returned None" "ws_store st' = ws_store mid" "ws_active_job st' = None"
    using interrupted_keeps_store [OF assms(1,2) _ assms(8)] by auto
  have ids: "ids_ok (ws_store mid)" using store_okD [OF assms(4)] by auto
  have "\<forall>held pg now w ts fl db row'. get_job held pg now w ts fl (ws_store st') = (db, Some row') \<longrightarrow>
       j_id row' \<noteq> j_id job \<and> (j_queue row \<noteq> None \<longrightarrow> j_queue row' \<noteq> j_queue row)"
    using locked_not_taken [OF _ ids assms(5) _ assms(7)] assms(6) unfolding s(2) by simp
  moreover have "\<forall>pg now. \<exists>new. find_job (j_id job) (reset_locked_at pg now (ws_store st')) = Some new \<and>
       j_attempts new = j_attempts row \<and> j_locked_at new = (if l < now - hours4 then None else Some l)"
    using assms(5,6) by (auto simp: s(2) find_job_reset [OF ids] stale_def)
  ultimately show ?thesis using s by blast
qed

definition always_panics :: handler where "always_panics payload job st = (st, Panicked ''boom'')"

lemma interrupted_job_witness:
  "\<exists>job db st'. process_job (test_worker [(''t'', always_panics)]) job (new_state db 5 5 (\<lambda>_. 1) []) = (st', Panicked ''boom'') \<and>
     find_job (j_id job) (ws_store st') \<noteq> None \<and>
     (\<forall>held pg now w ts fl db' row'. get_job held pg now w ts fl (ws_store st') = (db', Some row') \<longrightarrow> j_id row' \<noteq> j_id job)"
proof -
  obtain db row where g: "get_job none_held 5 5 ''w'' None None one_job = (db, Some row)" "store_ok db"
      "find_job (j_id row) db = Some row" "j_task row = ''t''" by (rule one_job_taken)
  let ?wk = "test_worker [(''t'', always_panics)]"
  let ?st = "new_state db 5 5 (\<lambda>_. 1) []"
  let ?mid = "emit ?wk JobStart (Some (j_id row)) None (?st\<lparr>ws_active_job := Some (j_id row)\<rparr>)"
  have h: "map_of (wk_handlers ?wk) (j_task row) = Some always_panics"
    by (simp add: test_worker_def new_worker_def g(4))
  have p: "always_panics (j_payload row) row ?mid = (?mid, Panicked ''boom'')" by (simp add: always_panics_def)
  have m: "ws_store ?mid = db" by (simp add: new_state_def)
  have l: "j_locked_at row = Some 5" "j_queue row = None"
    using g(1) get_job_result [OF one_job_ok, where held = none_held and pg = 5 and now = 5 and w = "''w''"
        and ts = None and fl = None]
    by (auto simp: claim_def one_job_def add_defs)
  obtain st' res where r: "process_job ?wk row ?st = (st', res)" by (metis surj_pair)
  have "res = Panicked ''boom''" using r h p by (auto simp: process_job_def Let_def)
  moreover note interrupted_job_stays_locked [OF h p _ _ _ l(1) _ r, unfolded m]
  ultimately show ?thesis using g(2,3) l(2) r by (intro exI [of _ row] exI [of _ db] exI [of _ st']) auto
qed

section \<open>Running once ends\<close>

text \<open>The attempts that are left in a store.\<close>

definition attempts_left :: "store \<Rightarrow> nat" where
  "attempts_left st = sum_list (map (\<lambda>j. nat (j_max_attempts j - j_attempts j)) (st_jobs st))"

lemma attempts_left_update:
  assumes "\<And>j. P j \<Longrightarrow> nat (j_max_attempts (f j) - j_attempts (f j)) \<le> nat (j_max_attempts j - j_attempts j)"
  shows "attempts_left (update_jobs now P f st) \<le> attempts_left st"
  unfolding attempts_left_def update_jobs_def by (auto intro!: sum_list_mono assms)

lemma attempts_left_delete: "attempts_left (delete_jobs P st) \<le> attempts_left st"
proof -
  have "sum_list (map g (filter Q xs)) \<le> sum_list (map g xs)" for g :: "job_row \<Rightarrow> nat" and Q xs
    by (induction xs) auto
  then show ?thesis by (simp add: attempts_left_def)
qed

lemma attempts_left_frame [simp]:
  "attempts_left (lock_queue w now q st) = attempts_left st"
  "attempts_left (unlock_queue w q st) = attempts_left st"
  by (simp_all add: attempts_left_def)

lemma attempts_left_complete: "attempts_left (complete_job w i st) \<le> attempts_left st"
  by (simp add: complete_job_def attempts_left_delete [THEN order_trans] split: option.split)

lemma attempts_left_fail: "attempts_left (fail_job b now w i m st) \<le> attempts_left st"
  by (auto simp: fail_job_def fail_row_def intro!: attempts_left_update split: option.split)

lemma sum_list_less:
  fixes f g :: "'a \<Rightarrow> nat"
  shows "x \<in> set xs \<Longrightarrow> f x < g x \<Longrightarrow> (\<And>y. f y \<le> g y) \<Longrightarrow> sum_list (map f xs) < sum_list (map g xs)"
proof (induction xs)
  case (Cons y ys)
  then show ?case using sum_list_mono [of ys f g] by (auto intro: add_less_le_mono add_le_less_mono)
qed simp

text \<open>Every job taken uses up an attempt.\<close>

lemma attempts_left_take:
  assumes "get_job held pg now w ts fl st = (st', Some row)"
  shows "attempts_left st' < attempts_left st"
proof -
  obtain j where j: "j \<in> set (st_jobs st)" "runnable held now ts fl st j"
      "st' = update_jobs pg (\<lambda>j'. j_id j' = j_id j) (claim w now) (lock_queue w now (j_queue j) st)"
    using assms by (cases rule: get_job_cases [of held pg now w ts fl st]) auto
  let ?l = "\<lambda>j. nat (j_max_attempts j - j_attempts j)"
  let ?g = "\<lambda>j'. if j_id j' = j_id j then touch pg j' (claim w now j') else j'"
  have "?l (?g k) \<le> ?l k" for k by (auto simp: claim_def intro!: nat_mono)
  moreover have "?l (?g j) < ?l j" using j(2) by (simp add: claim_def runnable_def)
  ultimately have "sum_list (map (?l \<circ> ?g) (st_jobs st)) < sum_list (map ?l (st_jobs st))"
    using j(1) by (intro sum_list_less) auto
  then show ?thesis by (simp add: attempts_left_def j(3) update_jobs_def comp_def)
qed

text \<open>A handler that adds no attempts: it may do anything but queue work or reset jobs.\<close>

definition adds_no_attempts :: "worker \<Rightarrow> bool" where
  "adds_no_attempts wk \<longleftrightarrow>
     (\<forall>(t, h) \<in> set (wk_handlers wk). \<forall>p job st.
        attempts_left (ws_store (fst (h p job st))) \<le> attempts_left (ws_store st))"

lemma statement_attempts:
  "(\<And>st. attempts_left (f st) \<le> attempts_left (ws_store st)) \<Longrightarrow>
     attempts_left (ws_store (fst (statement wk r f st))) \<le> attempts_left (ws_store st)"
  by (auto simp: statement_def Let_def split: db_result.split)

lemma worker_finish_attempts:
  "attempts_left (ws_store (fst (worker_complete_job wk i st))) \<le> attempts_left (ws_store st)"
  "attempts_left (ws_store (fst (worker_fail_job wk i m st))) \<le> attempts_left (ws_store st)"
  unfolding worker_complete_job_def worker_fail_job_def
  by (rule statement_attempts, rule attempts_left_complete attempts_left_fail)+

lemma finish_job_attempts:
  "attempts_left (ws_store (fst (finish_job wk job err st))) \<le> attempts_left (ws_store st)"
  using worker_finish_attempts(1) [of wk "j_id job" "emit wk JobSuccess (Some (j_id job)) None st"]
    worker_finish_attempts(2) [of wk "j_id job"]
  by (auto simp: finish_job_def Let_def split: option.split prod.split) (metis emit_frame(1) fst_conv)+

lemma process_job_attempts:
  assumes "adds_no_attempts wk"
  shows "attempts_left (ws_store (fst (process_job wk job st))) \<le> attempts_left (ws_store st)"
proof (cases "map_of (wk_handlers wk) (j_task job)")
  case None
  then show ?thesis by (simp add: process_job_def)
next
  case (Some h)
  let ?st1 = "emit wk JobStart (Some (j_id job)) None (st\<lparr>ws_active_job := Some (j_id job)\<rparr>)"
  obtain mid e where h: "h (j_payload job) job ?st1 = (mid, e)" by (metis surj_pair)
  have "(j_task job, h) \<in> set (wk_handlers wk)" using Some by (rule map_of_SomeD)
  then have "attempts_left (ws_store (fst (h (j_payload job) job ?st1))) \<le> attempts_left (ws_store ?st1)"
    using assms unfolding adds_no_attempts_def by blast
  then have "attempts_left (ws_store mid) \<le> attempts_left (ws_store st)" by (simp add: h)
  then show ?thesis
    using finish_job_attempts [of wk job _ mid]
    by (auto simp: process_job_def Some h Let_def split: ended.split prod.split) (metis fst_conv order_trans)
qed

lemma worker_get_job_attempts:
  "worker_get_job wk st = (st', Inr (Some job)) \<Longrightarrow>
     attempts_left (ws_store st') < attempts_left (ws_store st)"
  by (auto simp: worker_get_job_def Let_def split: db_result.splits sum.splits prod.splits option.splits
      dest!: read_claimed_result dest: attempts_left_take)

lemma run_once_ends:
  "adds_no_attempts wk \<Longrightarrow> \<exists>r. run_once wk st = Some r"
proof (induction "attempts_left (ws_store st)" arbitrary: st rule: less_induct)
  case less
  show ?case
  proof (cases "worker_get_job wk st")
    case (Pair st1 r)
    show ?thesis
    proof (cases r)
      case (Inl e)
      then show ?thesis by (subst run_once.simps) (simp add: Pair)
    next
      case (Inr oj)
      show ?thesis
      proof (cases oj)
        case None
        then show ?thesis using Inr by (subst run_once.simps) (simp add: Pair)
      next
        case (Some job)
        obtain st2 e where p: "process_job wk job st1 = (st2, e)" by (metis surj_pair)
        have "attempts_left (ws_store st2) < attempts_left (ws_store st)"
          using process_job_attempts [OF less.prems, of job st1] worker_get_job_attempts Pair Inr Some p
          by (metis le_less_trans fst_conv)
        then have "\<exists>r. run_once wk st2 = Some r" using less.hyps less.prems by blast
        then show ?thesis using Inr Some by (subst run_once.simps) (simp add: Pair p split: ended.split)
      qed
    qed
  qed
qed

text \<open>
  C10: \<open>RunOnce\<close> ends, whatever the database and other goroutines do meanwhile and whatever the
  task handlers return, as long as the handlers do not themselves give jobs new attempts: every
  round uses up one attempt of the store.
\<close>

theorem run_once_returns:
  "adds_no_attempts wk \<Longrightarrow> \<exists>r. run_once wk st = Some r"
  by (rule run_once_ends)

lemma run_once_returns_witness:
  "\<exists>r. run_once (test_worker [(''t'', always_fails)]) (new_state one_job 5 5 (\<lambda>_. 3000000) []) = Some r"
  by (rule run_once_returns)
     (simp add: adds_no_attempts_def test_worker_def new_worker_def always_fails_def)

lemma worker_get_job_none:
  assumes "worker_get_job wk asked = (st', Inr None)"
  shows "ws_store st' = ws_store asked \<and>
    (\<exists>flags. forbidden_flags wk (emit wk WorkerGetJobStart None None asked) = Inr flags \<and>
       (\<forall>j \<in> set (st_jobs (ws_store asked)). \<not> runnable (es_held (next_env asked)) (worker_now wk asked)
          (nonempty (map fst (wk_handlers wk))) (nonempty flags) (ws_store asked) j))"
proof -
  let ?asked = "emit wk WorkerGetJobStart None None asked"
  from assms obtain flags where f: "forbidden_flags wk ?asked = Inr flags" "ws_store st' = ws_store asked"
    and g: "get_job (es_held (next_env ?asked)) (ws_now ?asked) (worker_now wk ?asked) (wk_id wk)
              (nonempty (map fst (wk_handlers wk))) (nonempty flags) (ws_store ?asked)
            = (fst (get_job (es_held (next_env ?asked)) (ws_now ?asked) (worker_now wk ?asked) (wk_id wk)
              (nonempty (map fst (wk_handlers wk))) (nonempty flags) (ws_store ?asked)), None)"
    by (auto simp: worker_get_job_def Let_def dest: read_claimed_result
        split: db_result.splits sum.splits prod.splits option.splits)
  have "\<forall>j \<in> set (st_jobs (ws_store asked)). \<not> runnable (es_held (next_env asked)) (worker_now wk asked)
      (nonempty (map fst (wk_handlers wk))) (nonempty flags) (ws_store asked) j"
    using g by (cases rule: get_job_cases [of "es_held (next_env ?asked)" "ws_now ?asked" "worker_now wk ?asked"
        "wk_id wk" "nonempty (map fst (wk_handlers wk))" "nonempty flags" "ws_store ?asked"]) auto
  then show ?thesis using f by auto
qed

text \<open>
  One round of \<open>RunOnce\<close>: a job is got and processed, unless the context has ended, no job is
  got, or the task panics.
\<close>

definition job_round :: "worker \<Rightarrow> wstate \<Rightarrow> wstate option" where
  "job_round wk st =
     (if ws_cancelled st then None
      else case worker_get_job wk st of
        (st1, Inr (Some job)) \<Rightarrow>
          (case process_job wk job st1 of (st2, Returned e) \<Rightarrow> Some st2 | (st2, Panicked m) \<Rightarrow> None)
      | (st1, r) \<Rightarrow> None)"

text \<open>The states \<open>RunOnce\<close> can come to, by rounds, from the one it starts in.\<close>

abbreviation job_rounds :: "worker \<Rightarrow> wstate \<Rightarrow> wstate \<Rightarrow> bool" where
  "job_rounds wk \<equiv> rtranclp (\<lambda>a b. job_round wk a = Some b)"

lemma run_once_job_round: "job_round wk a = Some b \<Longrightarrow> run_once wk a = run_once wk b"
  by (subst run_once.simps)
     (auto simp: job_round_def split: if_splits prod.splits sum.splits option.splits ended.splits)

lemma run_once_rounds: "job_rounds wk a b \<Longrightarrow> run_once wk a = run_once wk b"
  by (induction rule: rtranclp_induct) (simp_all add: run_once_job_round)

lemma run_once_last_request:
  "run_once wk st = Some r \<Longrightarrow> snd r = Returned None \<Longrightarrow>
     \<exists>asked. job_rounds wk st asked \<and> \<not> ws_cancelled asked \<and> worker_get_job wk asked = (fst r, Inr None)"
proof (induction rule: run_once.raw_induct [rotated, consumes 1, case_names step])
  case (step once wk st r)
  obtain st1 r1 where g: "worker_get_job wk st = (st1, r1)" by (metis surj_pair)
  show ?case
  proof (cases "\<exists>job. r1 = Inr (Some job)")
    case True
    then obtain job where job: "r1 = Inr (Some job)" by blast
    obtain st2 e where p: "process_job wk job st1 = (st2, e)" by (metis surj_pair)
    have e: "\<not> ws_cancelled st" "\<exists>x. e = Returned x" "once wk st2 = Some r"
      using step.prems step.hyps by (auto simp: g job p split: if_splits ended.splits)
    then have "job_round wk st = Some st2" by (auto simp: job_round_def g job p)
    then show ?thesis using step.IH [OF e(3) step.prems]
      by (meson converse_rtranclp_into_rtranclp)
  next
    case False
    then show ?thesis
      using step.hyps step.prems g
      by (intro exI [of _ st]) (auto split: if_splits sum.splits option.splits)
  qed
qed

text \<open>
  C11: \<open>RunOnce\<close> returns without an error exactly when, after some rounds of getting and
  processing a job, a request of it in a context that goes on is answered with no job; it returns
  what that request left, the store as the rounds left it, and in that store no row is runnable for
  the worker's tasks at the time of that request.
\<close>

theorem run_once_drains:
  "(run_once wk st = Some (st', Returned None)) =
     (\<exists>asked. job_rounds wk st asked \<and> \<not> ws_cancelled asked \<and> worker_get_job wk asked = (st', Inr None)) \<and>
   (\<forall>asked. worker_get_job wk asked = (st', Inr None) \<longrightarrow> ws_store st' = ws_store asked \<and>
      (\<exists>flags. forbidden_flags wk (emit wk WorkerGetJobStart None None asked) = Inr flags \<and>
         (\<forall>j \<in> set (st_jobs (ws_store st')). \<not> runnable (es_held (next_env asked)) (worker_now wk asked)
            (nonempty (map fst (wk_handlers wk))) (nonempty flags) (ws_store st') j)))"
proof (intro conjI allI impI iffI)
  assume "run_once wk st = Some (st', Returned None)"
  from run_once_last_request [OF this]
  show "\<exists>asked. job_rounds wk st asked \<and> \<not> ws_cancelled asked \<and> worker_get_job wk asked = (st', Inr None)" by simp
next
  assume "\<exists>asked. job_rounds wk st asked \<and> \<not> ws_cancelled asked \<and> worker_get_job wk asked = (st', Inr None)"
  then obtain asked where a: "job_rounds wk st asked" "\<not> ws_cancelled asked" "worker_get_job wk asked = (st', Inr None)"
    by blast
  from a(2,3) have "run_once wk asked = Some (st', Returned None)" by (subst run_once.simps) simp
  then show "run_once wk st = Some (st', Returned None)" using run_once_rounds [OF a(1)] by simp
next
  fix asked assume l: "worker_get_job wk asked = (st', Inr None)"
  from worker_get_job_none [OF l] show "ws_store st' = ws_store asked" by blast
  from worker_get_job_none [OF l] show "\<exists>flags. forbidden_flags wk (emit wk WorkerGetJobStart None None asked) = Inr flags \<and>
      (\<forall>j \<in> set (st_jobs (ws_store st')). \<not> runnable (es_held (next_env asked)) (worker_now wk asked)
         (nonempty (map fst (wk_handlers wk))) (nonempty flags) (ws_store st') j)" by auto
qed

lemma run_once_drains_witness:
  "\<exists>st'. run_once (test_worker []) (new_state empty_store 5 5 (\<lambda>_. 1) []) = Some (st', Returned None) \<and>
     (\<exists>asked. job_rounds (test_worker []) (new_state empty_store 5 5 (\<lambda>_. 1) []) asked \<and>
        worker_get_job (test_worker []) asked = (st', Inr None) \<and> ws_store st' = ws_store asked)"
proof -
  let ?st = "new_state empty_store 5 5 (\<lambda>_. 1) []"
  have g: "\<not> ws_cancelled ?st" "\<exists>st'. worker_get_job (test_worker []) ?st = (st', Inr None)"
    by (simp_all add: worker_get_job_def new_state_def empty_store_def get_job_def next_env_def quiet_def
          forbidden_flags_def test_worker_def new_worker_def emit_def call_result_def pool_result_def Let_def)
  then obtain st' where g2: "worker_get_job (test_worker []) ?st = (st', Inr None)" by blast
  have "run_once (test_worker []) ?st = Some (st', Returned None)"
    using run_once_drains [of "test_worker []" ?st st'] g(1) g2 by blast
  moreover have "ws_store st' = ws_store ?st"
    using run_once_drains [of "test_worker []" ?st st'] g2 by blast
  ultimately show ?thesis using g2 by (intro exI [of _ st'] conjI exI [of _ ?st]) simp_all
qed

section \<open>Giving up\<close>

text \<open>The worker's task always fails, its jobs are in no queue, and nothing else happens.\<close>

definition failing_worker :: "worker \<Rightarrow> string \<Rightarrow> bool" where
  "failing_worker wk m \<longleftrightarrow>
     (\<exists>t h. wk_handlers wk = [(t, h)] \<and> (\<forall>p job st. h p job st = (st, Returned (Some m)))) \<and>
     wk_continuous wk \<and> wk_forbidden wk = None \<and> wk_forbidden_fn wk = None"

definition waiting_ids :: "worker \<Rightarrow> wstate \<Rightarrow> int set" where
  "waiting_ids wk st =
     {i. \<exists>j. find_job i (ws_store st) = Some j \<and> j_queue j = None \<and>
        runnable none_held (worker_now wk st) (Some (map fst (wk_handlers wk))) None (ws_store st) j}"

definition undisturbed :: "worker \<Rightarrow> wstate \<Rightarrow> bool" where
  "undisturbed wk st \<longleftrightarrow> store_ok (ws_store st) \<and> ws_active st \<and> \<not> ws_cancelled st \<and> \<not> ws_pool_closed st \<and> ws_script st = [] \<and>
     (\<forall>j \<in> set (st_jobs (ws_store st)). j_queue j = None)"

lemma finite_waiting: "finite (waiting_ids wk st)"
proof -
  have "waiting_ids wk st \<subseteq> j_id ` set (st_jobs (ws_store st))"
    by (auto simp: waiting_ids_def find_job_def find_Some_iff)
  then show ?thesis using finite_subset by blast
qed

lemma runnable_unqueued:
  "j_queue j = None \<Longrightarrow> now \<le> now' \<Longrightarrow> runnable none_held now ts fl st j \<Longrightarrow> runnable none_held now' ts fl st' j"
  by (auto simp: runnable_def queue_free_def)

lemma wait_quiet:
  "ws_script st = [] \<Longrightarrow> wait wk st = st"
  by (simp add: wait_def next_env_def quiet_def Let_def)

lemma update_jobs_queues:
  "(\<And>j. j_queue (f j) = j_queue j) \<Longrightarrow> \<forall>j \<in> set (st_jobs st). j_queue j = None \<Longrightarrow>
     \<forall>j \<in> set (st_jobs (update_jobs now P f st)). j_queue j = None"
  by (auto simp: update_jobs_def)

lemma get_job_unqueued:
  "\<forall>j \<in> set (st_jobs st). j_queue j = None \<Longrightarrow>
     \<forall>j \<in> set (st_jobs (fst (get_job held pg now w ts fl st))). j_queue j = None"
  by (cases rule: get_job_cases [of held pg now w ts fl st])
     (auto simp: claim_def update_jobs_def)

lemma fail_job_unqueued:
  "\<forall>j \<in> set (st_jobs st). j_queue j = None \<Longrightarrow>
     \<forall>j \<in> set (st_jobs (fail_job b now w i m st)). j_queue j = None"
  by (auto simp: fail_job_def fail_row_def update_jobs_def split: option.split)

text \<open>One round of the loop: a job is taken and fails, and the others still wait.\<close>

lemma failing_round:
  assumes fw: "failing_worker wk m" and u: "undisturbed wk st" and w: "waiting_ids wk st \<noteq> {}"
  shows "\<exists>st' i. do_next wk st = (st', Returned (Some (JobProcessingFailed (TaskFailed m)))) \<and> undisturbed wk st' \<and>
           waiting_ids wk st - {i} \<subseteq> waiting_ids wk st' \<and> ws_errors st' = ws_errors st"
proof -
  obtain t h where h: "wk_handlers wk = [(t, h)]" "\<And>p job st. h p job st = (st, Returned (Some m))"
    using fw by (auto simp: failing_worker_def)
  have ok: "store_ok (ws_store st)" and q: "\<forall>j \<in> set (st_jobs (ws_store st)). j_queue j = None"
    and act: "ws_active st" "ws_script st = []" "\<not> ws_cancelled st" "\<not> ws_pool_closed st"
    using u by (auto simp: undisturbed_def)
  let ?now = "worker_now wk st"
  obtain db r where g: "get_job none_held (ws_now st) ?now (wk_id wk) (Some [t]) None (ws_store st) = (db, r)"
    by (metis surj_pair)
  obtain w0 j0 where w0: "find_job w0 (ws_store st) = Some j0" "runnable none_held ?now (Some [t]) None (ws_store st) j0"
    using w h(1) by (auto simp: waiting_ids_def)
  have "j0 \<in> set (st_jobs (ws_store st))" using w0(1) by (auto simp: find_job_def find_Some_iff)
  with g w0(2) get_job_result [OF ok, where held = none_held and pg = "ws_now st" and now = ?now
      and w = "wk_id wk" and ts = "Some [t]" and fl = None]
  obtain row j where r: "r = Some row" "j \<in> set (st_jobs (ws_store st))"
      "runnable none_held ?now (Some [t]) None (ws_store st) j" "row = touch (ws_now st) j (claim (wk_id wk) ?now j)"
      "find_job (j_id j) db = Some row" "\<And>i. i \<noteq> j_id j \<Longrightarrow> find_job i db = find_job i (ws_store st)"
    by (cases r) (auto simp: g)
  let ?db' = "fail_job (ws_backoff st) (ws_now st) (wk_id wk) (j_id row) m db"
  have row: "j_id row = j_id j" "j_task row = t" "j_locked_by row = Some (wk_id wk)"
    using r(3,4) by (auto simp: claim_def runnable_def)
  have okdb: "store_ok db" using get_job_ok [OF ok] g by (metis fst_conv)
  let ?st1 = "(emit wk WorkerGetJobStart None None st)\<lparr>ws_store := db\<rparr>"
  have get: "worker_get_job wk st = (?st1, Inr (Some row))"
    using g r(1) act(2) fw h(1)
    by (simp add: worker_get_job_def forbidden_flags_def failing_worker_def nonempty_def Let_def
        wait_quiet next_env_def quiet_def call_result_def pool_result_def act(3,4))
  have "\<exists>st'. process_job wk row ?st1 = (st', Returned (Some (TaskFailed m))) \<and> ws_store st' = ?db' \<and>
      ws_active st' = ws_active st \<and> ws_script st' = ws_script st \<and> ws_cancelled st' = ws_cancelled st \<and>
      ws_pool_closed st' = ws_pool_closed st \<and>
      ws_errors st' = ws_errors st \<and> worker_now wk st' = ?now"
    using act(2-4) by (cases "j_max_attempts row \<le> j_attempts row")
      (simp_all add: process_job_def finish_job_def call_result_def pool_result_def h row(2) worker_fail_job_def statement_def Let_def
        wait_quiet next_env_def quiet_def worker_now_def)
  then obtain st' where p: "process_job wk row ?st1 = (st', Returned (Some (TaskFailed m)))" "ws_store st' = ?db'"
      "ws_active st' = ws_active st" "ws_script st' = ws_script st" "ws_cancelled st' = ws_cancelled st"
      "ws_pool_closed st' = ws_pool_closed st"
      "ws_errors st' = ws_errors st" "worker_now wk st' = ?now" by blast
  have "do_next wk st = (st', Returned (Some (JobProcessingFailed (TaskFailed m))))"
    using act(1) h(1) get p(1) by (simp add: do_next_def)
  moreover have "undisturbed wk st'"
    unfolding undisturbed_def
  proof (intro conjI)
    show "store_ok (ws_store st')" using fail_job_ok [OF okdb] p(2) by simp
    have "\<forall>j \<in> set (st_jobs db). j_queue j = None"
      using get_job_unqueued [OF q, of none_held "ws_now st" ?now "wk_id wk" "Some [t]" None] g by simp
    then show "\<forall>j \<in> set (st_jobs (ws_store st')). j_queue j = None"
      unfolding p(2) by (rule fail_job_unqueued)
  qed (use p act in auto)
  moreover have "waiting_ids wk st - {j_id j} \<subseteq> waiting_ids wk st'"
  proof
    fix i assume i: "i \<in> waiting_ids wk st - {j_id j}"
    then obtain k where k: "find_job i (ws_store st) = Some k" "j_queue k = None"
        "runnable none_held ?now (Some [t]) None (ws_store st) k" by (auto simp: waiting_ids_def h(1))
    have "find_job i (ws_store st') = find_job i db"
      using find_job_fail_other [OF okdb, of i "j_id row"] i row(1) by (simp add: p(2))
    then have "find_job i (ws_store st') = Some k" using r(6) [of i] i k(1) by simp
    moreover have "runnable none_held ?now (Some [t]) None (ws_store st') k"
      using runnable_unqueued [OF k(2) order_refl k(3)] .
    ultimately show "i \<in> waiting_ids wk st'" using k(2) by (auto simp: waiting_ids_def h(1) p(8))
  qed
  ultimately show ?thesis using p(7) by blast
qed

lemma sleep_undisturbed:
  assumes "undisturbed wk st" "0 \<le> d"
  shows "undisturbed wk (sleep wk d st) \<and> waiting_ids wk st \<subseteq> waiting_ids wk (sleep wk d st) \<and>
    ws_errors (sleep wk d st) = ws_errors st"
proof -
  have "wait wk st = st" using assms(1) by (simp add: undisturbed_def wait_quiet)
  then have s: "sleep wk d st = st\<lparr>ws_now := ws_now st + d div 1000, ws_node_now := ws_node_now st + d div 1000\<rparr>"
    by (simp add: sleep_def Let_def)
  have le: "worker_now wk st \<le> worker_now wk (sleep wk d st)"
    using assms(2) by (simp add: s worker_now_def)
  have "waiting_ids wk st \<subseteq> waiting_ids wk (sleep wk d st)"
  proof
    fix i assume "i \<in> waiting_ids wk st"
    then obtain k where k: "find_job i (ws_store st) = Some k" "j_queue k = None"
        "runnable none_held (worker_now wk st) (Some (map fst (wk_handlers wk))) None (ws_store st) k"
      by (auto simp: waiting_ids_def)
    have "runnable none_held (worker_now wk (sleep wk d st)) (Some (map fst (wk_handlers wk))) None
        (ws_store (sleep wk d st)) k"
      by (rule runnable_unqueued [OF k(2) le k(3)])
    moreover have "find_job i (ws_store (sleep wk d st)) = Some k" using k(1) by (simp add: s)
    ultimately show "i \<in> waiting_ids wk (sleep wk d st)" using k(2) by (auto simp: waiting_ids_def)
  qed
  moreover have "undisturbed wk (sleep wk d st)" using assms(1) by (simp add: s undisturbed_def)
  ultimately show ?thesis by (simp add: s)
qed

lemma failing_loop:
  assumes fw: "failing_worker wk m"
  shows "undisturbed wk st \<Longrightarrow> ws_errors st + n = max_contiguous_errors \<Longrightarrow> 0 < n \<Longrightarrow>
     n \<le> card (waiting_ids wk st) \<Longrightarrow>
     \<exists>st'. run_loop wk st = Some (st', Returned (Some (FailedInARow max_contiguous_errors
         (JobProcessingFailed (TaskFailed m))))) \<and> \<not> ws_active st'"
proof (induction n arbitrary: st)
  case (Suc n)
  let ?st = "st\<lparr>ws_nudged := False\<rparr>"
  have u: "undisturbed wk ?st" "waiting_ids wk ?st = waiting_ids wk st"
    using Suc.prems(1) by (auto simp: undisturbed_def waiting_ids_def worker_now_def)
  have "waiting_ids wk ?st \<noteq> {}" using Suc.prems(4) u(2) by auto
  from failing_round [OF fw u(1) this] obtain st1 i where
      r: "do_next wk ?st = (st1, Returned (Some (JobProcessingFailed (TaskFailed m))))" "undisturbed wk st1"
      "waiting_ids wk ?st - {i} \<subseteq> waiting_ids wk st1" "ws_errors st1 = ws_errors st" by auto
  have act: "ws_active st" "\<not> ws_cancelled st" "ws_active st1" "\<not> ws_cancelled st1"
    using Suc.prems(1) r(2) by (auto simp: undisturbed_def)
  show ?case
  proof (cases "n = 0")
    case True
    then have "ws_errors st1 + 1 = max_contiguous_errors" using Suc.prems(2) r(4) by simp
    then show ?thesis
      using act by (subst run_loop.simps) (simp add: r(1) Let_def)
  next
    case False
    let ?st2 = "st1\<lparr>ws_errors := ws_errors st1 + 1\<rparr>"
    let ?st3 = "sleep wk error_retry_delay ?st2"
    have u2: "undisturbed wk ?st2" "waiting_ids wk ?st2 = waiting_ids wk st1"
      using r(2) by (auto simp: undisturbed_def waiting_ids_def worker_now_def)
    have s: "undisturbed wk ?st3" "waiting_ids wk st1 \<subseteq> waiting_ids wk ?st3" "ws_errors ?st3 = ws_errors st + 1"
      using sleep_undisturbed [OF u2(1), of error_retry_delay] u2(2) r(4)
      by (auto simp: error_retry_delay_def)
    have "card (waiting_ids wk st) - 1 \<le> card (waiting_ids wk st - {i})"
      by (simp add: card_Diff_singleton_if)
    also have "\<dots> \<le> card (waiting_ids wk ?st3)"
      using r(3) s(2) u(2) finite_waiting by (intro card_mono) auto
    finally have "n \<le> card (waiting_ids wk ?st3)" using Suc.prems(4) by simp
    then have "\<exists>st'. run_loop wk ?st3 = Some (st', Returned (Some (FailedInARow max_contiguous_errors
         (JobProcessingFailed (TaskFailed m))))) \<and> \<not> ws_active st'"
      using Suc.IH [OF s(1)] s(3) Suc.prems(2) False by simp
    moreover have "run_loop wk st = run_loop wk ?st3"
      using act r(1,4) Suc.prems(2) False by (subst run_loop.simps) (simp add: Let_def)
    ultimately show ?thesis by simp
  qed
qed simp

text \<open>
  The loop counts failed jobs as failures to get jobs: when ten jobs whose task fails are
  waiting, a continuous worker stops after them with the error of ten failures in a row to acquire
  a job, although the database answered every statement.
\<close>

theorem ten_failing_jobs_stop_worker:
  assumes "failing_worker wk m" "undisturbed wk st" "10 \<le> card (waiting_ids wk st)"
  shows "\<exists>st'. run delay wk st = Some (st', Returned (Some (FailedInARow 10 (JobProcessingFailed (TaskFailed m)))))
           \<and> \<not> ws_active st'"
proof -
  let ?st = "(set_active delay True st)\<lparr>ws_errors := 0\<rparr>"
  have "set_active delay True st = st" using assms(2) by (simp add: undisturbed_def set_active_def Let_def)
  then have "undisturbed wk ?st" "waiting_ids wk ?st = waiting_ids wk st"
    using assms(2) by (auto simp: undisturbed_def waiting_ids_def worker_now_def)
  then have "\<exists>st'. run_loop wk ?st = Some (st', Returned (Some (FailedInARow max_contiguous_errors
         (JobProcessingFailed (TaskFailed m))))) \<and> \<not> ws_active st'"
    using assms(3) by (intro failing_loop [OF assms(1), of _ 10]) (auto simp: max_contiguous_errors_def)
  moreover have "run delay wk st = run_loop wk ?st"
    using assms(1) by (simp add: run_def failing_worker_def Let_def)
  ultimately show ?thesis by (simp add: max_contiguous_errors_def)
qed

definition jobs_added :: "nat \<Rightarrow> store" where
  "jobs_added n = ((\<lambda>st. fst (insert_job (row_of_spec 0 (plain_spec ''t'' None)) st)) ^^ n) empty_store"

lemma jobs_added_rows:
  "st_jobs (jobs_added n) = map (\<lambda>i. (row_of_spec 0 (plain_spec ''t'' None))\<lparr>j_id := i\<rparr>) [1..int n]
     \<and> st_next_id (jobs_added n) = int n + 1"
proof (induction n)
  case 0
  then show ?case by (simp add: jobs_added_def empty_store_def)
next
  case (Suc n)
  have "[1..int (Suc n)] = [1..int n] @ [int n + 1]"
    using upto_rec2 [of 1 "int n + 1"] by (simp add: ac_simps)
  then show ?case
    using Suc by (simp add: jobs_added_def insert_job_def Let_def ac_simps)
qed

lemma jobs_added_ok: "store_ok (jobs_added n)"
proof (induction n)
  case 0
  then show ?case by (simp add: jobs_added_def empty_store_ok)
next
  case (Suc n)
  then show ?case using insert_job_ok [of "jobs_added n"] by (simp add: jobs_added_def plain_spec_def)
qed

lemma find_job_added:
  "i \<in> {1..int n} \<Longrightarrow> find_job i (jobs_added n) = Some ((row_of_spec 0 (plain_spec ''t'' None))\<lparr>j_id := i\<rparr>)"
  using find_job_iff [OF store_okD(1) [OF jobs_added_ok [of n]]] jobs_added_rows [of n] by auto

lemma ten_failing_jobs_witness:
  "\<exists>st'. run 0 (test_worker [(''t'', always_fails)]) (new_state (jobs_added 10) 5 5 (\<lambda>_. 3000000) [])
     = Some (st', Returned (Some (FailedInARow 10 (JobProcessingFailed (TaskFailed ''boom'')))))"
proof -
  let ?wk = "test_worker [(''t'', always_fails)]"
  let ?st = "new_state (jobs_added 10) 5 5 (\<lambda>_. 3000000) []"
  have "failing_worker ?wk ''boom''"
    by (simp add: failing_worker_def test_worker_def new_worker_def always_fails_def)
  moreover have "undisturbed ?wk ?st"
    using jobs_added_ok jobs_added_rows [of 10]
    by (auto simp: undisturbed_def new_state_def row_of_spec_def plain_spec_def)
  moreover have "{1..10} \<subseteq> waiting_ids ?wk ?st"
    using find_job_added [of _ 10]
    by (auto simp: waiting_ids_def new_state_def worker_now_def test_worker_def new_worker_def
        runnable_def queue_free_def row_of_spec_def plain_spec_def coalesce_def none_held_def)
  then have "10 \<le> card (waiting_ids ?wk ?st)"
    using card_mono [OF finite_waiting, of "{1..10}" ?wk ?st] by simp
  ultimately show ?thesis using ten_failing_jobs_stop_worker [of ?wk "''boom''" ?st 0] by blast
qed

section \<open>What the worker leaves out\<close>

text \<open>
  The sweep of stale locks is armed when a worker becomes active, and a new worker is active
  from the start, so starting it arms nothing: only a worker that was released and is started
  again gets a sweep.
\<close>

theorem new_worker_never_sweeps:
  "ws_reset_timer (set_active d True (new_state db now node_now backoff script)) = None \<and>
   set_active d True (new_state db now node_now backoff script) = new_state db now node_now backoff script \<and>
   ws_reset_timer (set_active d True (release wk (new_state db now node_now backoff script))) = Some d"
  by (simp add: set_active_def new_state_def release_def schedule_reset_locked_def emit_def
      cancel_reset_locked_timer_def Let_def)

lemma fold_opts_node_time:
  "\<forall>opt \<in> set opts. \<forall>w. wk_use_node_time (opt w) = wk_use_node_time w \<Longrightarrow>
     wk_use_node_time (fold (\<lambda>opt w. opt w) opts w) = wk_use_node_time w"
  by (induction opts arbitrary: w) auto

lemma register_tasks_node_time:
  "wk_use_node_time (fst (fold (\<lambda>(t, h). register_task t h) tasks ws)) = wk_use_node_time (fst ws)"
  by (induction tasks arbitrary: ws) (auto simp: register_task_def Let_def)

text \<open>
  A worker made from options never uses the node's clock, whatever \<open>UseNodeTime\<close> says, and
  runs continuously exactly when the last argument says so, whatever \<open>Continuous\<close> says.
\<close>

theorem make_new_worker_ignores_options:
  "wk_use_node_time (fst (make_new_worker i schema tasks options continuous st)) = False \<and>
   wk_continuous (fst (make_new_worker i schema tasks options continuous st)) = continuous"
proof -
  have "wk_use_node_time (new_worker i schema opts) = False"
    if "\<forall>opt \<in> set opts. \<forall>w. wk_use_node_time (opt w) = wk_use_node_time w" for opts
    unfolding new_worker_def using fold_opts_node_time [OF that] by simp
  then show ?thesis
    using register_tasks_node_time
    by (auto simp: make_new_worker_def Let_def case_prod_unfold with_poll_interval_def
        with_worker_id_def with_no_prepared_statements_def with_forbidden_flags_def
        with_forbidden_flags_fn_def split: option.splits)
qed

text \<open>
  A job that arrives while the worker is being released is taken and then dropped: it stays
  locked in the name of a worker that is not active, with one attempt used, and no error is
  reported.
\<close>

theorem released_worker_keeps_job_locked:
  assumes "ws_active st" "\<not> ws_cancelled st" "\<not> ws_pool_closed st" "wk_handlers wk \<noteq> []" "next_env st = quiet\<lparr>es_release := True\<rparr>"
    and "wk_forbidden wk = None" "wk_forbidden_fn wk = None" "store_ok (ws_store st)"
    and "get_job none_held (ws_now st) (worker_now wk st) (wk_id wk)
           (Some (map fst (wk_handlers wk))) None (ws_store st) = (db, Some row)"
  shows "\<exists>st'. do_next wk st = (st', Returned None) \<and> \<not> ws_active st' \<and>
    find_job (j_id row) (ws_store st') = Some row \<and> j_locked_by row = Some (wk_id wk)"
proof -
  have "find_job (j_id row) db = Some row" "j_locked_by row = Some (wk_id wk)"
    using get_job_result [OF assms(8), where held = none_held and pg = "ws_now st"
        and now = "worker_now wk st" and w = "wk_id wk" and ts = "Some (map fst (wk_handlers wk))"
        and fl = None] assms(9) by (auto simp: claim_def)
  then show ?thesis
    using assms(1-7,9)
    by (auto simp: do_next_def call_result_def pool_result_def worker_get_job_def forbidden_flags_def nonempty_def wait_active
        Let_def quiet_def)
qed

lemma released_worker_witness:
  "\<exists>st' row. do_next (test_worker [(''t'', always_ok)])
       (new_state one_job 5 5 (\<lambda>_. 1) [quiet\<lparr>es_release := True\<rparr>]) = (st', Returned None) \<and> \<not> ws_active st' \<and>
     find_job (j_id row) (ws_store st') = Some row \<and> j_locked_by row = Some ''w''"
proof -
  let ?wk = "test_worker [(''t'', always_ok)]"
  let ?st = "new_state one_job 5 5 (\<lambda>_. 1) [quiet\<lparr>es_release := True\<rparr>]"
  have c: "ws_active ?st" "\<not> ws_cancelled ?st" "\<not> ws_pool_closed ?st" "wk_handlers ?wk \<noteq> []" "next_env ?st = quiet\<lparr>es_release := True\<rparr>"
    "wk_forbidden ?wk = None" "wk_forbidden_fn ?wk = None" "store_ok (ws_store ?st)"
    using one_job_ok by (simp_all add: new_state_def test_worker_def new_worker_def next_env_def)
  have w: "ws_now ?st = 5" "worker_now ?wk ?st = 5" "wk_id ?wk = ''w''" "map fst (wk_handlers ?wk) = [''t'']"
    "ws_store ?st = one_job"
    by (simp_all add: new_state_def test_worker_def new_worker_def worker_now_def)
  have "\<exists>db row. get_job none_held 5 5 ''w'' (Some [''t'']) None one_job = (db, Some row)"
    by (simp add: one_job_def add_defs) (simp add: take_defs)
  then obtain db row where "get_job none_held (ws_now ?st) (worker_now ?wk ?st) (wk_id ?wk)
           (Some (map fst (wk_handlers ?wk))) None (ws_store ?st) = (db, Some row)"
    unfolding w by blast
  from released_worker_keeps_job_locked [OF c this] show ?thesis by (auto simp: w(3))
qed

end
