(* ===== verification/Job_Helpers.thy ===== *)
theory Job_Helpers
  imports Worker_Utils
begin

text \<open>
  What a task handler may call: pkg/worker/helpers.go (the worker's own AddJob variants),
  pkg/worker/helpers_factory.go (helpers made from options, which work in a transaction) and the
  classification of connection errors of pkg/worker/lib.go.
\<close>

section \<open>Connection errors\<close>

definition connection_error_patterns :: "string list" where
  "connection_error_patterns =
     [''connection reset by peer'', ''broken pipe'', ''connection refused'', ''connection lost'',
      ''connection closed'', ''connection timeout'', ''server closed the connection'',
      ''connection bad'', ''connection dead'']"

definition is_connection_error :: "string option \<Rightarrow> bool" where
  "is_connection_error err =
     (case err of None \<Rightarrow> False
      | Some m \<Rightarrow> list_ex (\<lambda>p. contains_sub (to_lower m) p) connection_error_patterns)"

text \<open>
  \<open>withPgClientErrorHandling\<close>: the connection errors it logs are what the third component
  collects.
\<close>

definition with_pg_client_error_handling ::
  "nat list \<Rightarrow> nat option \<Rightarrow> db_result \<Rightarrow> ('s \<Rightarrow> 's \<times> string option) \<Rightarrow> 's
     \<Rightarrow> 's \<times> utils_error option \<times> string list" where
  "with_pg_client_error_handling closed pool r fn s =
     (case acquire closed pool r of
        Some e \<Rightarrow> (s, Some e, [])
      | None \<Rightarrow>
          (case fn s of
             (s', None) \<Rightarrow> (s', None, [])
           | (s', Some m) \<Rightarrow>
               (s', Some (CallbackFailed m), if is_connection_error (Some m) then [m] else [])))"

section \<open>Transactions\<close>

text \<open>
  What the database does with the transaction: errors of acquiring, of \<open>begin\<close>, of \<open>commit\<close>.  A
  commit with an error has not taken place; one that has, and whose answer is lost, is left out.
\<close>

record tx_env =
  tx_acquire :: "string option"
  tx_begin :: "string option"
  tx_commit :: "string option"

definition tx_works :: tx_env where
  "tx_works = \<lparr>tx_acquire = None, tx_begin = None, tx_commit = None\<rparr>"

text \<open>A rolled back transaction leaves only the sequence advanced.\<close>

definition rolled_back :: "store \<Rightarrow> store \<Rightarrow> store" where
  "rolled_back st st' = st\<lparr>st_next_id := st_next_id st'\<rparr>"

definition with_pg_client_from_client ::
  "tx_env \<Rightarrow> (store \<Rightarrow> store \<times> utils_error option) \<Rightarrow> store \<Rightarrow> store \<times> utils_error option" where
  "with_pg_client_from_client e callback st =
     (case tx_begin e of
        Some m \<Rightarrow> (st, Some (BeginFailed m))
      | None \<Rightarrow>
          (case callback st of
             (st', Some err) \<Rightarrow> (rolled_back st st', Some err)
           | (st', None) \<Rightarrow>
               (case tx_commit e of
                  Some m \<Rightarrow> (rolled_back st st', Some (CommitFailed m))
                | None \<Rightarrow> (st', None))))"

definition with_pg_client_from_pool ::
  "tx_env \<Rightarrow> (store \<Rightarrow> store \<times> utils_error option) \<Rightarrow> store \<Rightarrow> store \<times> utils_error option" where
  "with_pg_client_from_pool e callback st =
     (case tx_acquire e of
        Some m \<Rightarrow> (st, Some (AcquireFailed m))
      | None \<Rightarrow> with_pg_client_from_client e callback st)"

section \<open>The AddJob function of the helpers\<close>

text \<open>\<open>SharedOptions\<close>; the reading of its time provider, or of the real clock.\<close>

record shared_options =
  so_schema :: "string option"
  so_use_node_time :: "bool option"
  so_time :: "int option"

text \<open>The layout \<open>2006-01-02T15:04:05Z07:00\<close> has no fraction of a second.\<close>

definition whole_second :: "int \<Rightarrow> int" where
  "whole_second t = t - t mod 1000000"

definition helper_run_at :: "shared_options option \<Rightarrow> int \<Rightarrow> job_spec \<Rightarrow> int option" where
  "helper_run_at options clock s =
     (let node = (case options of None \<Rightarrow> False
                  | Some so \<Rightarrow> (case so_use_node_time so of None \<Rightarrow> False | Some b \<Rightarrow> b));
          time = (case options of None \<Rightarrow> clock
                  | Some so \<Rightarrow> (case so_time so of None \<Rightarrow> clock | Some t \<Rightarrow> t))
      in case s_run_at s of
           Some t \<Rightarrow> Some (whole_second t)
         | None \<Rightarrow> if node then Some (whole_second time) else None)"

text \<open>The statement names seven parameters; the flags and the key mode keep their defaults.\<close>

definition helper_spec ::
  "shared_options option \<Rightarrow> int \<Rightarrow> string \<Rightarrow> string \<Rightarrow> job_spec \<Rightarrow> job_spec" where
  "helper_spec options clock identifier body s =
     (plain_spec identifier (Some body))
       \<lparr>s_queue := s_queue s, s_run_at := helper_run_at options clock s,
        s_max_attempts := s_max_attempts s, s_key := s_key s, s_priority := s_priority s\<rparr>"

definition make_add_job_with_options ::
  "shared_options option
     \<Rightarrow> ((store \<Rightarrow> store \<times> utils_error option) \<Rightarrow> store \<Rightarrow> store \<times> utils_error option)
     \<Rightarrow> int \<Rightarrow> int \<Rightarrow> string \<Rightarrow> payload \<Rightarrow> job_spec list \<Rightarrow> store \<Rightarrow> store \<times> utils_error option" where
  "make_add_job_with_options options with_pg_client clock now identifier payload specs =
     (let s = (case specs of [] \<Rightarrow> empty_task_spec | s # _ \<Rightarrow> s) in
      with_pg_client (\<lambda>st.
        case payload of
          NotJson m \<Rightarrow> (st, Some (MarshalFailed m))
        | Json body \<Rightarrow>
            (case add_job now (helper_spec options clock identifier body s) st of
               Inl e \<Rightarrow> (st, Some (AddJobFailed (add_error_text e)))
             | Inr (st', row) \<Rightarrow> (st', None))))"

definition make_add_job ::
  "((store \<Rightarrow> store \<times> utils_error option) \<Rightarrow> store \<Rightarrow> store \<times> utils_error option)
     \<Rightarrow> int \<Rightarrow> int \<Rightarrow> string \<Rightarrow> payload \<Rightarrow> job_spec list \<Rightarrow> store \<Rightarrow> store \<times> utils_error option" where
  "make_add_job = make_add_job_with_options None"

section \<open>The worker's own variants\<close>

definition worker_add_job_with_task_spec ::
  "worker \<Rightarrow> string \<Rightarrow> payload \<Rightarrow> job_spec list \<Rightarrow> wstate \<Rightarrow> wstate \<times> worker_error option" where
  "worker_add_job_with_task_spec wk identifier payload specs st =
     (case payload of
        NotJson m \<Rightarrow> (st, Some (PayloadFailed m))
      | Json body \<Rightarrow>
          (let st' = wait wk st in
           case pool_result st of
             AcquireFails m \<Rightarrow> (st', Some (NoConnection m))
           | QueryFails m \<Rightarrow> (st', Some (StatementFailed m))
           | DbWorks \<Rightarrow>
               (case add_job (ws_now st) (spec_call identifier body specs) (ws_store st) of
                  Inl e \<Rightarrow> (st', Some (StatementFailed (add_error_text e)))
                | Inr (db, row) \<Rightarrow> (st'\<lparr>ws_store := db\<rparr>, None))))"

definition with_key :: "string \<Rightarrow> string \<Rightarrow> job_spec list \<Rightarrow> job_spec" where
  "with_key key mode specs =
     (case specs of [] \<Rightarrow> empty_task_spec | s # _ \<Rightarrow> s)\<lparr>s_key := Some key, s_key_mode := Some mode\<rparr>"

definition worker_add_job_with_replace ::
  "worker \<Rightarrow> string \<Rightarrow> payload \<Rightarrow> string \<Rightarrow> job_spec list \<Rightarrow> wstate \<Rightarrow> wstate \<times> worker_error option" where
  "worker_add_job_with_replace wk identifier payload key specs =
     worker_add_job_with_task_spec wk identifier payload [with_key key ''replace'' specs]"

definition worker_add_job_with_preserve_run_at ::
  "worker \<Rightarrow> string \<Rightarrow> payload \<Rightarrow> string \<Rightarrow> job_spec list \<Rightarrow> wstate \<Rightarrow> wstate \<times> worker_error option" where
  "worker_add_job_with_preserve_run_at wk identifier payload key specs =
     worker_add_job_with_task_spec wk identifier payload [with_key key ''preserve_run_at'' specs]"

definition worker_add_job_with_unsafe_dedupe ::
  "worker \<Rightarrow> string \<Rightarrow> payload \<Rightarrow> string \<Rightarrow> job_spec list \<Rightarrow> wstate \<Rightarrow> wstate \<times> worker_error option" where
  "worker_add_job_with_unsafe_dedupe wk identifier payload key specs =
     worker_add_job_with_task_spec wk identifier payload [with_key key ''unsafe_dedupe'' specs]"

text \<open>
  \<open>AddJobWithOptions\<close> puts the queue name into the text of the statement, as an SQL
  expression; \<open>eval_text\<close> and \<open>eval_time\<close> are PostgreSQL evaluating one.
\<close>

record job_options =
  jo_queue_name :: "string option"
  jo_run_at :: "string option"
  jo_max_attempts :: "int option"

definition queue_expression :: "job_options \<Rightarrow> string" where
  "queue_expression o' = (case jo_queue_name o' of None \<Rightarrow> ''public.gen_random_uuid()::text'' | Some q \<Rightarrow> q)"

definition run_at_expression :: "job_options \<Rightarrow> string" where
  "run_at_expression o' = (case jo_run_at o' of None \<Rightarrow> ''now()''
     | Some t \<Rightarrow> CHR 0x27 # t @ CHR 0x27 # ''::timestamptz'')"

definition worker_add_job_with_options ::
  "(string \<Rightarrow> (string, string option) result) \<Rightarrow> (string \<Rightarrow> (string, int) result)
     \<Rightarrow> worker \<Rightarrow> string \<Rightarrow> payload \<Rightarrow> job_options list \<Rightarrow> wstate \<Rightarrow> wstate \<times> worker_error option" where
  "worker_add_job_with_options eval_text eval_time wk identifier payload options st =
     (case payload of
        NotJson m \<Rightarrow> (st, Some (PayloadFailed m))
      | Json body \<Rightarrow>
          (case options of
             [] \<Rightarrow> worker_add_job wk identifier body st
           | o' # _ \<Rightarrow>
               (let st' = wait wk st in
                case pool_result st of
                  AcquireFails m \<Rightarrow> (st', Some (NoConnection m))
                | QueryFails m \<Rightarrow> (st', Some (StatementFailed m))
                | DbWorks \<Rightarrow>
                    (case (eval_text (queue_expression o'), eval_time (run_at_expression o')) of
                       (Inr q, Inr t) \<Rightarrow>
                         (case add_job (ws_now st)
                                 ((plain_spec identifier (Some body))\<lparr>s_queue := q, s_run_at := Some t,
                                    s_max_attempts := Some (coalesce (jo_max_attempts o') 25)\<rparr>)
                                 (ws_store st) of
                            Inl e \<Rightarrow> (st', Some (StatementFailed (add_error_text e)))
                          | Inr (db, row) \<Rightarrow> (st'\<lparr>ws_store := db\<rparr>, None))
                     | (Inl m, _) \<Rightarrow> (st', Some (StatementFailed m))
                     | (_, Inl m) \<Rightarrow> (st', Some (StatementFailed m))))))"

section \<open>What the helpers add\<close>

lemma whole_second_bounds: "whole_second t \<le> t \<and> t < whole_second t + 1000000"
proof -
  have "0 \<le> t mod 1000000" "t mod 1000000 < 1000000" by simp_all
  then show ?thesis unfolding whole_second_def by linarith
qed

lemma transaction_atomic:
  assumes "with_pg_client_from_pool e callback st = (st', Some err)"
  shows "st_jobs st' = st_jobs st \<and> st_queues st' = st_queues st \<and> st_notified st' = st_notified st"
  using assms
  by (auto simp: with_pg_client_from_pool_def with_pg_client_from_client_def rolled_back_def
      split: option.splits prod.splits)

lemma transaction_commits:
  assumes "with_pg_client_from_pool e callback st = (st', None)"
  shows "callback st = (st', None)"
  using assms
  by (auto simp: with_pg_client_from_pool_def with_pg_client_from_client_def
      split: option.splits prod.splits)

definition second_before :: "int option \<Rightarrow> int \<Rightarrow> bool" where
  "second_before wanted run_at \<longleftrightarrow>
     (case wanted of None \<Rightarrow> True | Some t \<Rightarrow> run_at \<le> t \<and> t < run_at + 1000000)"

lemma find_job_of_key:
  "store_ok st \<Longrightarrow> find_key k st = Some row \<Longrightarrow> find_job (j_id row) st = Some row"
  using find_key_Some [of k st row] by (auto simp: find_job_iff dest: store_okD)

text \<open>
  C30: a job added through the helpers is added in one transaction: on an error no table has
  changed.  On success its row has the given task, payload, queue, priority, attempts and key,
  but never a flag, whatever flags and key mode were asked for; and it may run up to a second
  before the requested time.
\<close>

theorem helper_add_job_spec:
  assumes "store_ok st"
    and "make_add_job_with_options options (with_pg_client_from_pool e) clock now identifier
           (Json body) [s] st = (st', res)"
  shows "case res of
      Some err \<Rightarrow> st_jobs st' = st_jobs st \<and> st_queues st' = st_queues st
    | None \<Rightarrow> \<exists>row. find_job (j_id row) st' = Some row \<and>
        row_has_spec now (s\<lparr>s_identifier := identifier, s_payload := Some body, s_flags := None\<rparr>) row \<and>
        second_before (s_run_at s) (j_run_at row)"
proof (cases res)
  case (Some err)
  then show ?thesis
    using transaction_atomic assms(2) by (auto simp: make_add_job_with_options_def)
next
  case None
  let ?h = "helper_spec options clock identifier body s"
  obtain row where a: "add_job now ?h st = Inr (st', row)"
    using transaction_commits [OF assms(2) [unfolded make_add_job_with_options_def None Let_def, simplified]]
    by (auto split: sum.splits)
  have mode: "s_key_mode ?h = Some ''replace''" by (simp add: helper_spec_def plain_spec_def)
  then have row: "find_job (j_id row) st' = Some row" "row_has_spec now ?h row"
    using add_job_returns_row [OF assms(1) a] by auto
  have "j_run_at row = coalesce (s_run_at ?h) now"
  proof (cases "s_key ?h")
    case None
    then have "insert_job (row_of_spec now ?h) (notify st) = (st', row)"
      using a by (auto simp: add_job_def Let_def split: option.splits)
    from insert_job_result [OF this] show ?thesis by (simp add: row_of_spec_def)
  next
    case (Some k)
    then show ?thesis using add_job_key_result [OF assms(1) Some _ a] mode
      by (auto split: option.splits)
  qed
  then have "second_before (s_run_at s) (j_run_at row)"
    using whole_second_bounds
    by (auto simp: second_before_def helper_spec_def helper_run_at_def coalesce_def plain_spec_def
        split: option.split)
  moreover have "row_has_spec now (s\<lparr>s_identifier := identifier, s_payload := Some body, s_flags := None\<rparr>) row"
    using row(2) by (simp add: row_has_spec_def helper_spec_def plain_spec_def)
  ultimately show ?thesis using row(1) None by auto
qed

lemma helper_add_job_spec_witness:
  "\<exists>st' row. make_add_job_with_options None (with_pg_client_from_pool tx_works) 0 7 ''t'' (Json ''1'')
       [empty_task_spec\<lparr>s_flags := Some [''slow''], s_run_at := Some 1999999\<rparr>] empty_store = (st', None) \<and>
     find_job (j_id row) st' = Some row \<and> j_flags row = None \<and> j_run_at row \<le> 1999999"
proof -
  let ?s = "empty_task_spec\<lparr>s_flags := Some [''slow''], s_run_at := Some 1999999\<rparr>"
  obtain st' where m: "make_add_job_with_options None (with_pg_client_from_pool tx_works) 0 7 ''t''
      (Json ''1'') [?s] empty_store = (st', None)"
    by (simp add: make_add_job_with_options_def with_pg_client_from_pool_def
        with_pg_client_from_client_def tx_works_def helper_spec_def empty_task_spec_def add_defs)
  show ?thesis
    using helper_add_job_spec [OF empty_store_ok m] m
    by (auto simp: second_before_def row_has_spec_def flags_object_def)
qed

end
