(* ===== verification/Job_Lifecycle.thy ===== *)
theory Job_Lifecycle
  imports Job_Source Transition
begin

text \<open>
  The life of a job, as a specification that the job store refines: a job that is not held waits
  or is gone, a worker takes a waiting job, and a held job ends, is given back, or expires.  All
  else the tables hold (queues, keys, flags, priorities, times) is abstracted away.
\<close>

section \<open>The specification\<close>

datatype phase = Idle | HeldBy string

text \<open>What each statement may do to the phases of the jobs, by id.\<close>

fun life_step :: "db_op \<Rightarrow> (int \<rightharpoonup> phase) \<Rightarrow> (int \<rightharpoonup> phase) \<Rightarrow> bool" where
  "life_step (AddJob now s) m m' \<longleftrightarrow> m' = m \<or> (\<exists>i. m i = None \<and> m' = m(i \<mapsto> Idle))"
| "life_step (RemoveJob now k) m m' \<longleftrightarrow> m' = m \<or> (\<exists>i. m i = Some Idle \<and> m' = m(i := None))"
| "life_step (GetJob held pg now w ts fl) m m' \<longleftrightarrow>
     m' = m \<or> (\<exists>i. m i = Some Idle \<and> m' = m(i \<mapsto> HeldBy w))"
| "life_step (CompleteJob w i) m m' \<longleftrightarrow> m' = m(i := None)"
| "life_step (FailJob now w i msg) m m' \<longleftrightarrow> m' = (if m i = Some (HeldBy w) then m(i \<mapsto> Idle) else m)"
| "life_step (ResetLocked pg now) m m' \<longleftrightarrow>
     (\<forall>i. m' i = m i \<or> (\<exists>w. m i = Some (HeldBy w) \<and> m' i = Some Idle))"
| "life_step (CompleteJobs now ids) m m' \<longleftrightarrow> (\<forall>i. m' i = m i \<or> i \<in> set ids \<and> m' i = None)"
| "life_step (PermanentlyFailJobs now ids msg) m m' \<longleftrightarrow> m' = m"
| "life_step (RescheduleJobs now ids r p a mx) m m' \<longleftrightarrow> m' = m"

section \<open>The abstraction\<close>

definition phase_of :: "job_row \<Rightarrow> phase" where
  "phase_of j = (case j_locked_by j of None \<Rightarrow> Idle | Some w \<Rightarrow> HeldBy w)"

definition phases :: "store \<Rightarrow> int \<rightharpoonup> phase" where
  "phases st i = map_option phase_of (find_job i st)"

lemma phases_jobs: "st_jobs st' = st_jobs st \<Longrightarrow> phases st' = phases st"
  by (simp add: phases_def find_job_def fun_eq_iff)

lemma phases_update:
  assumes "ids_ok st" "\<forall>j. j_id (f j) = j_id j \<and> j_locked_by (f j) = j_locked_by j"
  shows "phases (update_jobs now P f st) = phases st"
proof
  fix i
  show "phases (update_jobs now P f st) i = phases st i"
    using assms(2) by (cases "find_job i st") (simp_all add: phases_def find_job_update [OF assms(1)] phase_of_def)
qed

lemma phases_unchanged:
  assumes "ids_ok st" "\<forall>j. j_id (f j) = j_id j \<and> j_locked_by (f j) = j_locked_by j"
    and "st_jobs st' = st_jobs (update_jobs now P f st)"
  shows "phases st' = phases st"
  using phases_update [OF assms(1,2), of now P] phases_jobs [OF assms(3)] by simp

lemma phases_insert:
  assumes "ids_ok st"
  shows "phases (fst (insert_job row st)) = (phases st)(st_next_id st \<mapsto> phase_of row)"
    and "phases st (st_next_id st) = None"
proof -
  have none: "find (\<lambda>j. j_id j = st_next_id st) (st_jobs st) = None"
    using assms by (auto simp: ids_ok_def find_None_iff)
  have "find P (xs @ ys) = (case find P xs of None \<Rightarrow> find P ys | Some x \<Rightarrow> Some x)"
    for P and xs ys :: "job_row list"
    by (induction xs) auto
  then show "phases (fst (insert_job row st)) = (phases st)(st_next_id st \<mapsto> phase_of row)"
    using none
    by (auto simp: phases_def find_job_def insert_job_def Let_def fun_eq_iff phase_of_def split: option.split)
  show "phases st (st_next_id st) = None" using none by (simp add: phases_def find_job_def)
qed

lemma phases_at: "ids_ok st \<Longrightarrow> j \<in> set (st_jobs st) \<Longrightarrow> phases st (j_id j) = Some (phase_of j)"
  by (simp add: phases_def find_job_iff [THEN iffD2])

section \<open>Each statement is a step of the specification\<close>

lemma insert_is_step:
  assumes "ids_ok st" "phases st = m" "phase_of row = Idle" "st' = fst (insert_job row st)"
  shows "\<exists>i. m i = None \<and> phases st' = m(i \<mapsto> Idle)"
  using phases_insert(1) [OF assms(1), of row] phases_insert(2) [OF assms(1)] assms(2-4) by auto

lemma add_is_step:
  assumes "store_ok st" "add_job now s st = Inr (st', row)"
  shows "life_step (AddJob now s) (phases st) (phases st')"
proof -
  have ids: "ids_ok (notify st)" "ids_ok (burn_id (notify st))"
    using store_okD(1) [OF assms(1)] by (auto simp: ids_ok_def burn_id_def)
  have same: "phases (notify st) = phases st" "phases (burn_id (notify st)) = phases st"
    by (rule phases_jobs, simp)+
  have idle: "phase_of (row_of_spec now s) = Idle" by (simp add: phase_of_def row_of_spec_def)
  from assms(2) show ?thesis
  proof (cases rule: add_job_cases)
    case plain
    then show ?thesis using insert_is_step [OF ids(1) same(1) idle] by simp
  next
    case fresh
    then show ?thesis using insert_is_step [OF ids(1) same(1) idle] by simp
  next
    case (replace k old)
    have "phases st' = phases (burn_id (notify st))"
      by (rule phases_unchanged [OF ids(2), of "replace_row s (row_of_spec now s)" _ now "\<lambda>j. j_key j = Some k"])
         (simp_all add: replace(4) replace_row_def)
    then show ?thesis using same by simp
  next
    case (locked k)
    let ?st = "update_jobs now (\<lambda>j. j_key j = Some k) (\<lambda>j. j\<lparr>j_key := None, j_attempts := j_max_attempts j\<rparr>)
       (burn_id (notify st))"
    have "phases ?st = phases st" using phases_update [OF ids(2)] same(2) by simp
    moreover have "ids_ok ?st"
      using update_jobs_ok [OF burn_id_ok [OF notify_ok [OF assms(1)]] tame_clear_key(1)]
      by (rule store_okD)
    ultimately show ?thesis using insert_is_step [OF _ _ idle locked(3)] by simp
  next
    case (dedupe k)
    then show ?thesis using phases_update [OF ids(2)] same(2) by simp
  qed
qed

lemma remove_is_step:
  assumes "store_ok st"
  shows "life_step (RemoveJob now k) (phases st) (phases (fst (remove_job now k st)))"
proof (cases "\<exists>key old. k = Some key \<and> find_key key st = Some old")
  case False
  then show ?thesis by (auto simp: remove_job_def split: option.splits)
next
  case True
  then obtain key old where k: "k = Some key" "find_key key st = Some old" by blast
  note ids = store_okD(1) [OF assms]
  have old: "old \<in> set (st_jobs st)" "j_key old = Some key" using find_key_Some [OF k(2)] by auto
  show ?thesis
  proof (cases "j_locked_at old")
    case None
    then have idle: "phases st (j_id old) = Some Idle"
      using phases_at [OF ids old(1)] store_okD(4) [OF assms] old(1) by (auto simp: locks_ok_def phase_of_def)
    have P: "(j_key j = Some key \<and> j_locked_at j = None) \<longleftrightarrow> j_id j = j_id old" if "j \<in> set (st_jobs st)" for j
      using that old None id_unique [of "st_jobs st" j old] key_unique [of "st_jobs st" j old key]
        ids store_okD(2) [OF assms] by (auto simp: ids_ok_def keys_ok_def)
    have "phases (delete_jobs (\<lambda>j. j_key j = Some key \<and> j_locked_at j = None) st) i =
        ((phases st)(j_id old := None)) i" for i
    proof (cases "find_job i st")
      case None
      then show ?thesis by (simp add: phases_def find_job_delete_where [OF ids])
    next
      case (Some j)
      then have "j \<in> set (st_jobs st)" "j_id j = i" using ids by (auto simp: find_job_iff)
      then show ?thesis using P Some by (simp add: phases_def find_job_delete_where [OF ids])
    qed
    then have "phases (fst (remove_job now k st)) = (phases st)(j_id old := None)"
      using None k by (simp add: remove_job_def fun_eq_iff)
    then show ?thesis using idle by auto
  next
    case (Some t)
    then have "phases (fst (remove_job now k st)) = phases st"
      using k phases_update [OF ids] by (simp add: remove_job_def Let_def)
    then show ?thesis by simp
  qed
qed

lemma get_is_step:
  assumes "store_ok st"
  shows "life_step (GetJob held pg now w ts fl) (phases st) (phases (fst (get_job held pg now w ts fl st)))"
proof (cases "get_job held pg now w ts fl st")
  case (Pair st' r)
  show ?thesis
  proof (cases r)
    case None
    then show ?thesis using get_job_result [OF assms, where held = held and pg = pg and now = now and w = w and ts = ts and fl = fl] Pair by simp
  next
    case (Some row)
    then obtain j where j: "j \<in> set (st_jobs st)" "runnable held now ts fl st j"
        "row = touch pg j (claim w now j)" "find_job (j_id j) st' = Some row"
        "\<forall>i. i \<noteq> j_id j \<longrightarrow> find_job i st' = find_job i st"
      using get_job_result [OF assms, where held = held and pg = pg and now = now and w = w and ts = ts and fl = fl] Pair by auto
    have "phases st (j_id j) = Some Idle"
      using phases_at [OF store_okD(1) [OF assms] j(1)] store_okD(4) [OF assms] j(1,2)
      by (auto simp: runnable_def locks_ok_def phase_of_def)
    moreover have "phases st' = (phases st)(j_id j \<mapsto> HeldBy w)"
      using j(3-5) by (auto simp: fun_eq_iff phases_def phase_of_def claim_def)
    ultimately show ?thesis using Pair by auto
  qed
qed

lemma fail_is_step:
  assumes "store_ok st"
  shows "life_step (FailJob now w i msg) (phases st) (phases (fail_job backoff now w i msg st))"
proof -
  have other: "phases (fail_job backoff now w i msg st) k = phases st k" if "k \<noteq> i" for k
    using find_job_fail_other [OF assms that] by (simp add: phases_def)
  have "phases (fail_job backoff now w i msg st) i =
      (if phases st i = Some (HeldBy w) then Some Idle else phases st i)"
  proof (cases "find_job i st")
    case None
    then show ?thesis by (simp add: phases_def fail_job_def)
  next
    case (Some j)
    then show ?thesis using find_job_fail [OF assms Some]
      by (auto simp: phases_def phase_of_def fail_row_def split: option.splits)
  qed
  moreover have "m' = (if m i = Some (HeldBy w) then m(i \<mapsto> Idle) else m)"
    if "m' i = (if m i = Some (HeldBy w) then Some Idle else m i)" "\<And>k. k \<noteq> i \<Longrightarrow> m' k = m k"
    for m m' :: "int \<rightharpoonup> phase"
  proof
    fix k
    show "m' k = (if m i = Some (HeldBy w) then m(i \<mapsto> Idle) else m) k"
      using that by (cases "k = i") simp_all
  qed
  ultimately show ?thesis using other by simp
qed

lemma reset_is_step:
  assumes "store_ok st"
  shows "life_step (ResetLocked pg now) (phases st) (phases (reset_locked_at pg now st))"
proof -
  let ?f = "\<lambda>j. j\<lparr>j_locked_at := None, j_locked_by := None\<rparr>"
  note ids = store_okD(1) [OF assms]
  have r: "phases (reset_locked_at pg now st) = phases (update_jobs pg (\<lambda>j. stale now (j_locked_at j)) ?f st)"
    by (rule phases_jobs) (simp add: reset_locked_at_def Let_def)
  show ?thesis
  proof (simp only: life_step.simps r, rule allI)
    fix i
    let ?m = "phases (update_jobs pg (\<lambda>j. stale now (j_locked_at j)) ?f st)"
    show "?m i = phases st i \<or> (\<exists>w. phases st i = Some (HeldBy w) \<and> ?m i = Some Idle)"
    proof (cases "find_job i st")
      case None
      then show ?thesis by (simp add: phases_def find_job_update [OF ids])
    next
      case (Some j)
      then have "j \<in> set (st_jobs st)" using ids by (simp add: find_job_iff)
      then have "j_locked_by j \<noteq> None" if "stale now (j_locked_at j)"
        using that store_okD(4) [OF assms] by (auto simp: locks_ok_def stale_def split: option.splits)
      then show ?thesis using Some by (auto simp: phases_def find_job_update [OF ids] phase_of_def)
    qed
  qed
qed

lemma complete_jobs_is_step:
  assumes "store_ok st"
  shows "life_step (CompleteJobs now ids) (phases st) (phases (fst (complete_jobs now ids st)))"
proof -
  note ok = store_okD(1) [OF assms]
  have "phases (delete_jobs (admin_free now ids) st) i = phases st i \<or>
      i \<in> set ids \<and> phases (delete_jobs (admin_free now ids) st) i = None" for i
  proof (cases "find_job i st")
    case None
    then show ?thesis by (simp add: phases_def find_job_delete_where [OF ok])
  next
    case (Some j)
    then have "j_id j = i" using ok by (simp add: find_job_iff)
    then show ?thesis using Some by (simp add: phases_def find_job_delete_where [OF ok] admin_free_def)
  qed
  then show ?thesis by (simp add: complete_jobs_def)
qed

section \<open>The job store refines it\<close>

interpretation lifecycle: refinement life_step "exec_op backoff" store_ok phases for backoff
proof unfold_locales
  fix st op
  assume ok: "store_ok st"
  show "store_ok (exec_op backoff op st)" using ok by (rule exec_op_ok)
  note ids = store_okD(1) [OF ok]
  show "life_step op (phases st) (phases (exec_op backoff op st))"
  proof (cases op)
    case (AddJob now s)
    then show ?thesis using add_is_step [OF ok] by (auto simp del: life_step.simps split: sum.split) simp
  next
    case (RemoveJob now k)
    then show ?thesis using remove_is_step [OF ok] by (simp del: life_step.simps)
  next
    case (GetJob held pg now w ts fl)
    then show ?thesis using get_is_step [OF ok] by (simp del: life_step.simps)
  next
    case (CompleteJob w i)
    then show ?thesis by (auto simp: phases_def fun_eq_iff find_job_complete [OF ok])
  next
    case (FailJob now w i msg)
    then show ?thesis using fail_is_step [OF ok] by (simp del: life_step.simps)
  next
    case (ResetLocked pg now)
    then show ?thesis using reset_is_step [OF ok] by (simp del: life_step.simps)
  next
    case (CompleteJobs now ids)
    then show ?thesis using complete_jobs_is_step [OF ok] by (simp del: life_step.simps)
  next
    case (PermanentlyFailJobs now ids msg)
    then show ?thesis using phases_update [OF store_okD(1) [OF ok]]
      by (simp add: permanently_fail_jobs_def Let_def)
  next
    case (RescheduleJobs now ids r p a mx)
    then show ?thesis using phases_update [OF store_okD(1) [OF ok]]
      by (simp add: reschedule_jobs_def Let_def)
  qed
qed

text \<open>
  C5: seen through the phases of its jobs, every sequence of statements is a run of the
  specification: only an idle job is taken, only its holder gives a job back, a job leaves a
  holder otherwise only by completion or by the expiry of its lock.
\<close>

theorem store_refines_lifecycle:
  "spec_run life_step ops (phases empty_store) (phases (fold (exec_op backoff) ops empty_store))"
  by (rule lifecycle.run_simulated [OF empty_store_ok])

end
