(* ===== verification/Event_Bus.thy ===== *)
theory Event_Bus
  imports Worker Transition "HOL-Library.Sublist"
begin

text \<open>
  The event bus (pkg/events/events.go) and its ready-made handlers (pkg/events/integration.go).

  The bus is a buffered channel that a goroutine drains into the handlers.  Each operation is a
  step of the bus; where several cases of a \<open>select\<close> are ready, which one Go takes is an
  argument of the step.  Handlers are numbers; \<open>bus_calls\<close> records, in order, each event given to
  \<open>handleEvent\<close> with the handlers it starts.  A panic is \<open>None\<close>.
\<close>

section \<open>Events\<close>

text \<open>\<open>EvInt\<close> is an int64, \<open>EvGoInt\<close> an int: a type assertion tells them apart.\<close>

datatype ev_value =
    EvStr string | EvInt int | EvGoInt int | EvBool bool | EvMap "(string \<times> ev_value) list" | EvNil

type_synonym ev_data = "(string \<times> ev_value) list"

definition event_name :: "event_type \<Rightarrow> string" where
  "event_name ty = (case ty of
     PoolCreate \<Rightarrow> ''pool:create'' | PoolListenConnecting \<Rightarrow> ''pool:listen:connecting''
   | PoolListenSuccess \<Rightarrow> ''pool:listen:success'' | PoolListenError \<Rightarrow> ''pool:listen:error''
   | PoolError \<Rightarrow> ''pool:error'' | PoolRelease \<Rightarrow> ''pool:release''
   | PoolGracefulShutdown \<Rightarrow> ''pool:gracefulShutdown''
   | PoolShutdownError \<Rightarrow> ''pool:gracefulShutdown:error'' | WorkerCreate \<Rightarrow> ''worker:create''
   | WorkerRelease \<Rightarrow> ''worker:release'' | WorkerStop \<Rightarrow> ''worker:stop''
   | WorkerGetJobStart \<Rightarrow> ''worker:getJob:start'' | WorkerGetJobError \<Rightarrow> ''worker:getJob:error''
   | WorkerGetJobEmpty \<Rightarrow> ''worker:getJob:empty'' | WorkerFatalError \<Rightarrow> ''worker:fatalError''
   | JobStart \<Rightarrow> ''job:start'' | JobSuccess \<Rightarrow> ''job:success'' | JobError \<Rightarrow> ''job:error''
   | JobFailed \<Rightarrow> ''job:failed'' | JobComplete \<Rightarrow> ''job:complete''
   | GracefulShutdown \<Rightarrow> ''gracefulShutdown'' | Stop \<Rightarrow> ''stop'')"

record bus_event =
  be_type :: string
  be_time :: int
  be_data :: ev_data
  be_error :: "string option"

text \<open>What receiving from a closed, empty channel gives.\<close>

definition zero_event :: bus_event where
  "zero_event = \<lparr>be_type = [], be_time = 0, be_data = [], be_error = None\<rparr>"

section \<open>The bus\<close>

datatype loop_state = Looping | Draining | Stopped

record bus =
  bus_handlers :: "(string \<times> nat list) list"
  bus_chan :: "bus_event list"
  bus_cap :: nat
  bus_cancelled :: bool
  bus_closed :: bool
  bus_loop :: loop_state
  bus_calls :: "(bus_event \<times> nat list) list"
  bus_dropped :: "bus_event list"

definition new_event_bus :: "nat \<Rightarrow> bus" where
  "new_event_bus buffer_size =
     \<lparr>bus_handlers = [], bus_chan = [], bus_cap = buffer_size, bus_cancelled = False, bus_closed = False,
      bus_loop = Looping, bus_calls = [], bus_dropped = []\<rparr>"

definition default_event_bus :: bus where
  "default_event_bus = new_event_bus 1000"

definition handlers_of :: "string \<Rightarrow> bus \<Rightarrow> nat list" where
  "handlers_of ty b = (case map_of (bus_handlers b) ty of None \<Rightarrow> [] | Some hs \<Rightarrow> hs)"

definition subscribe :: "string \<Rightarrow> nat \<Rightarrow> bus \<Rightarrow> bus" where
  "subscribe ty h b = b\<lparr>bus_handlers := AList.update ty (handlers_of ty b @ [h]) (bus_handlers b)\<rparr>"

text \<open>
  The function \<open>Subscribe\<close> returns compares the address of the loop's variable with that of its
  own parameter.
\<close>

datatype address = LoopVariable nat | Parameter nat

definition unsubscribe :: "string \<Rightarrow> nat \<Rightarrow> bus \<Rightarrow> bus" where
  "unsubscribe ty h b =
     (let hs = handlers_of ty b in
      case find (\<lambda>i. LoopVariable i = Parameter h) [0..<length hs] of
        None \<Rightarrow> b
      | Some i \<Rightarrow> b\<lparr>bus_handlers := AList.update ty (take i hs @ drop (i + 1) hs) (bus_handlers b)\<rparr>)"

text \<open>
  \<open>Emit\<close> and \<open>EmitError\<close>.  Sending on a closed channel is always ready, and panics; with room
  in the buffer the send is ready, with the context cancelled the return is.  A bus of size zero,
  whose sends would meet the loop when it waits, drops every event here.
\<close>

definition bus_emit :: "bool \<Rightarrow> bus_event \<Rightarrow> bus \<Rightarrow> bus option" where
  "bus_emit pick_send ev b =
     (let send_ready = bus_closed b \<or> length (bus_chan b) < bus_cap b in
      if send_ready \<and> (\<not> bus_cancelled b \<or> pick_send) then
        (if bus_closed b then None else Some (b\<lparr>bus_chan := bus_chan b @ [ev]\<rparr>))
      else if bus_cancelled b then Some b
      else Some (b\<lparr>bus_dropped := bus_dropped b @ [ev]\<rparr>))"

definition emit_event :: "bool \<Rightarrow> int \<Rightarrow> string \<Rightarrow> ev_data \<Rightarrow> bus \<Rightarrow> bus option" where
  "emit_event pick now ty data =
     bus_emit pick \<lparr>be_type = ty, be_time = now, be_data = data, be_error = None\<rparr>"

definition emit_error :: "bool \<Rightarrow> int \<Rightarrow> string \<Rightarrow> string \<Rightarrow> ev_data \<Rightarrow> bus \<Rightarrow> bus option" where
  "emit_error pick now ty err data =
     bus_emit pick \<lparr>be_type = ty, be_time = now, be_data = data, be_error = Some err\<rparr>"

definition handle_event :: "bus_event \<Rightarrow> bus \<Rightarrow> bus" where
  "handle_event ev b = b\<lparr>bus_calls := bus_calls b @ [(ev, handlers_of (be_type ev) b)]\<rparr>"

definition receive :: "bus \<Rightarrow> bus" where
  "receive b =
     (case bus_chan b of
        [] \<Rightarrow> handle_event zero_event b
      | ev # evs \<Rightarrow> handle_event ev (b\<lparr>bus_chan := evs\<rparr>))"

text \<open>One round of the loops of \<open>processEvents\<close>; without a ready case it waits.\<close>

definition process_events_round :: "bool \<Rightarrow> bus \<Rightarrow> bus" where
  "process_events_round pick_receive b =
     (let receive_ready = bus_chan b \<noteq> [] \<or> bus_closed b in
      case bus_loop b of
        Stopped \<Rightarrow> b
      | Looping \<Rightarrow>
          if receive_ready \<and> (\<not> bus_cancelled b \<or> pick_receive) then receive b
          else if bus_cancelled b then b\<lparr>bus_loop := Draining\<rparr>
          else b
      | Draining \<Rightarrow> if receive_ready then receive b else b\<lparr>bus_loop := Stopped\<rparr>)"

text \<open>\<open>Close\<close>: cancel, close the channel, wait for the loop to stop.\<close>

definition cancel_bus :: "bus \<Rightarrow> bus" where
  "cancel_bus b = b\<lparr>bus_cancelled := True\<rparr>"

definition close_chan :: "bus \<Rightarrow> bus option" where
  "close_chan b = (if bus_closed b then None else Some (b\<lparr>bus_closed := True\<rparr>))"

definition wait_returns :: "bus \<Rightarrow> bool" where
  "wait_returns b \<longleftrightarrow> bus_loop b = Stopped"

text \<open>\<open>Close\<close> with the rounds the loop makes before the channel is closed and after.\<close>

definition close_bus :: "bool list \<Rightarrow> bool list \<Rightarrow> bus \<Rightarrow> bus option" where
  "close_bus before after b =
     (case close_chan (fold process_events_round before (cancel_bus b)) of
        None \<Rightarrow> None
      | Some b' \<Rightarrow> Some (fold process_events_round after b'))"

record bus_stats =
  bs_event_types :: nat
  bs_chan_length :: nat
  bs_chan_capacity :: nat
  bs_handler_counts :: "(string \<times> nat) list"

definition get_stats :: "bus \<Rightarrow> bus_stats" where
  "get_stats b =
     \<lparr>bs_event_types = length (bus_handlers b), bs_chan_length = length (bus_chan b),
      bs_chan_capacity = bus_cap b,
      bs_handler_counts = map (\<lambda>(ty, hs). (ty, length hs)) (bus_handlers b)\<rparr>"

section \<open>Emitters and event data\<close>

definition null_emit :: "bus option \<Rightarrow> bus option" where
  "null_emit b = b"

text \<open>\<open>BusEmitter\<close>: a nil bus takes nothing.\<close>

definition bus_emitter_emit :: "bool \<Rightarrow> int \<Rightarrow> string \<Rightarrow> ev_data \<Rightarrow> bus option \<Rightarrow> bus option option" where
  "bus_emitter_emit pick now ty data e =
     (case e of None \<Rightarrow> Some None | Some b \<Rightarrow> map_option Some (emit_event pick now ty data b))"

definition bus_emitter_error ::
  "bool \<Rightarrow> int \<Rightarrow> string \<Rightarrow> string \<Rightarrow> ev_data \<Rightarrow> bus option \<Rightarrow> bus option option" where
  "bus_emitter_error pick now ty err data e =
     (case e of None \<Rightarrow> Some None | Some b \<Rightarrow> map_option Some (emit_error pick now ty err data b))"

definition with_additional :: "ev_data \<Rightarrow> ev_data \<Rightarrow> ev_data" where
  "with_additional additional data = fold (\<lambda>(k, v). AList.update k v) additional data"

definition worker_event_data :: "string \<Rightarrow> ev_data \<Rightarrow> ev_data" where
  "worker_event_data worker_id additional =
     with_additional additional [(''workerId'', EvStr worker_id)]"

definition job_event_data :: "string \<Rightarrow> int \<Rightarrow> string \<Rightarrow> ev_data \<Rightarrow> ev_data" where
  "job_event_data worker_id job_id task additional =
     with_additional additional
       [(''workerId'', EvStr worker_id), (''jobId'', EvInt job_id), (''taskIdentifier'', EvStr task)]"

definition pool_event_data :: "string \<Rightarrow> ev_data \<Rightarrow> ev_data" where
  "pool_event_data pool_id additional = with_additional additional [(''poolId'', EvStr pool_id)]"

text \<open>The line \<open>LoggingHandler\<close> writes for an event, if any.\<close>

datatype log_line =
    LogCompleted int string
  | LogJobFailed int string "string option"
  | LogFatal string "string option"
  | LogDebug string ev_data

definition data_int :: "string \<Rightarrow> ev_data \<Rightarrow> int option" where
  "data_int k d = (case map_of d k of Some (EvInt i) \<Rightarrow> Some i | _ \<Rightarrow> None)"

definition data_str :: "string \<Rightarrow> ev_data \<Rightarrow> string option" where
  "data_str k d = (case map_of d k of Some (EvStr s) \<Rightarrow> Some s | _ \<Rightarrow> None)"

definition logging_handler :: "bus_event \<Rightarrow> log_line option" where
  "logging_handler ev =
     (let d = be_data ev; ty = be_type ev in
      if ty = event_name JobSuccess then
        (case (data_int ''jobId'' d, data_str ''workerId'' d) of
           (Some i, Some w) \<Rightarrow> Some (LogCompleted i w) | _ \<Rightarrow> None)
      else if ty = event_name JobError \<or> ty = event_name JobFailed then
        (case (data_int ''jobId'' d, data_str ''workerId'' d) of
           (Some i, Some w) \<Rightarrow> Some (LogJobFailed i w (be_error ev)) | _ \<Rightarrow> None)
      else if ty = event_name WorkerFatalError then
        (case data_str ''workerId'' d of Some w \<Rightarrow> Some (LogFatal w (be_error ev)) | None \<Rightarrow> None)
      else Some (LogDebug ty d))"

text \<open>\<open>SetupDefaultHandlers\<close> subscribes two handlers to the types it lists.\<close>

definition listed_event_types :: "event_type list" where
  "listed_event_types =
     [PoolCreate, PoolListenConnecting, PoolListenSuccess, PoolListenError,
      PoolRelease, PoolGracefulShutdown, PoolShutdownError,
      WorkerCreate, WorkerRelease, WorkerStop, WorkerGetJobStart, WorkerGetJobError,
      WorkerGetJobEmpty, WorkerFatalError,
      JobStart, JobSuccess, JobError, JobFailed, JobComplete,
      GracefulShutdown, Stop]"

definition setup_default_handlers :: "nat \<Rightarrow> nat \<Rightarrow> bus \<Rightarrow> bus" where
  "setup_default_handlers logging metrics =
     fold (\<lambda>ty b. subscribe (event_name ty) metrics (subscribe (event_name ty) logging b)) listed_event_types"

section \<open>Delivery in order\<close>

datatype bus_op =
    EmitOp bool bus_event
  | ProcessOp bool
  | SubscribeOp string nat
  | UnsubscribeOp string nat
  | CancelOp

text \<open>A step of the bus before \<open>Close\<close>, when no send can panic.\<close>

fun bus_step :: "bus_op \<Rightarrow> bus \<Rightarrow> bus" where
  "bus_step (EmitOp p ev) b = (case bus_emit p ev b of None \<Rightarrow> b | Some b' \<Rightarrow> b')"
| "bus_step (ProcessOp p) b = process_events_round p b"
| "bus_step (SubscribeOp ty h) b = subscribe ty h b"
| "bus_step (UnsubscribeOp ty h) b = unsubscribe ty h b"
| "bus_step CancelOp b = cancel_bus b"

fun emitted :: "bus_op list \<Rightarrow> bus_event list" where
  "emitted [] = []"
| "emitted (EmitOp p ev # ops) = ev # emitted ops"
| "emitted (_ # ops) = emitted ops"

definition handled :: "bus \<Rightarrow> bus_event list" where
  "handled b = map fst (bus_calls b)"

text \<open>A bounded first-in-first-out queue that may lose what it is given.\<close>

type_synonym fifo = "nat \<times> bus_event list \<times> bus_event list"

fun fifo_step :: "bus_op \<Rightarrow> fifo \<Rightarrow> fifo \<Rightarrow> bool" where
  "fifo_step (EmitOp p ev) (n, q, d) a \<longleftrightarrow> a = (n, q, d) \<or> length q < n \<and> a = (n, q @ [ev], d)"
| "fifo_step (ProcessOp p) (n, q, d) a \<longleftrightarrow> a = (n, q, d) \<or> (\<exists>ev q'. q = ev # q' \<and> a = (n, q', d @ [ev]))"
| "fifo_step _ s a \<longleftrightarrow> a = s"

definition fifo_of :: "bus \<Rightarrow> fifo" where
  "fifo_of b = (bus_cap b, bus_chan b, handled b)"

definition bus_open :: "bus \<Rightarrow> bool" where
  "bus_open b \<longleftrightarrow> \<not> bus_closed b \<and> length (bus_chan b) \<le> bus_cap b"

lemma unsubscribe_nothing: "unsubscribe ty h b = b"
proof -
  have "find (\<lambda>i. LoopVariable i = Parameter h) [0..<length (handlers_of ty b)] = None"
    by (simp add: find_None_iff)
  then show ?thesis by (simp add: unsubscribe_def)
qed

lemma emit_open:
  "bus_open b \<Longrightarrow> \<exists>b'. bus_emit p ev b = Some b' \<and> bus_open b' \<and> bus_cap b' = bus_cap b \<and>
     bus_calls b' = bus_calls b \<and> bus_cancelled b' = bus_cancelled b \<and>
     (bus_chan b' = bus_chan b @ [ev] \<and> length (bus_chan b) < bus_cap b \<and> bus_dropped b' = bus_dropped b \<or>
      bus_chan b' = bus_chan b \<and> (bus_cancelled b \<or> bus_dropped b' = bus_dropped b @ [ev]))"
  by (auto simp: bus_emit_def bus_open_def Let_def)

lemma round_open:
  assumes "bus_open b"
  shows "bus_open (process_events_round p b) \<and> bus_cap (process_events_round p b) = bus_cap b \<and>
     bus_dropped (process_events_round p b) = bus_dropped b \<and>
     bus_cancelled (process_events_round p b) = bus_cancelled b \<and>
     (bus_chan (process_events_round p b) = bus_chan b \<and> handled (process_events_round p b) = handled b \<or>
      (\<exists>ev q. bus_chan b = ev # q \<and> bus_chan (process_events_round p b) = q \<and>
         handled (process_events_round p b) = handled b @ [ev]))"
  using assms
  by (auto simp: process_events_round_def bus_open_def receive_def handle_event_def handled_def Let_def
      split: loop_state.split list.split)

lemma step_open:
  assumes "bus_open b"
  shows "bus_open (bus_step op b) \<and> bus_cap (bus_step op b) = bus_cap b"
proof (cases op)
  case (EmitOp p ev)
  then show ?thesis using emit_open [OF assms, of p ev] by auto
next
  case (ProcessOp p)
  then show ?thesis using round_open [OF assms, of p] by simp
qed (use assms in \<open>simp_all add: bus_open_def subscribe_def cancel_bus_def unsubscribe_nothing\<close>)

lemma steps_open:
  "bus_open b \<Longrightarrow> bus_open (fold bus_step ops b) \<and> bus_cap (fold bus_step ops b) = bus_cap b"
  by (induction ops arbitrary: b) (simp_all add: step_open)

interpretation bus_fifo: refinement fifo_step bus_step bus_open fifo_of
proof unfold_locales
  fix b op
  assume b: "bus_open b"
  show "bus_open (bus_step op b)" using b by (simp add: step_open)
  show "fifo_step op (fifo_of b) (fifo_of (bus_step op b))"
  proof (cases op)
    case (EmitOp p ev)
    then show ?thesis using emit_open [OF b, of p ev] by (auto simp: fifo_of_def handled_def)
  next
    case (ProcessOp p)
    then show ?thesis using round_open [OF b, of p] by (auto simp: fifo_of_def)
  qed (simp_all add: fifo_of_def handled_def subscribe_def cancel_bus_def unsubscribe_nothing)
qed

lemma fifo_run_keeps_order:
  "spec_run fifo_step ops (n, q, d) (n', q', d') \<Longrightarrow> subseq (d @ q) es \<Longrightarrow>
     subseq (d' @ q') (es @ emitted ops)"
proof (induction ops arbitrary: n q d es)
  case (Cons op ops)
  then obtain m r c where s: "fifo_step op (n, q, d) (m, r, c)" "spec_run fifo_step ops (m, r, c) (n', q', d')"
    by (auto simp del: fifo_step.simps)
  show ?case
  proof (cases op)
    case (EmitOp p ev)
    then have "subseq (c @ r) (es @ [ev])"
      using s(1) Cons.prems(2) by (auto simp flip: append_assoc intro: list_emb_append_mono list_emb_prefix)
    from Cons.IH [OF s(2) this] show ?thesis by (simp add: EmitOp)
  next
    case (ProcessOp p)
    then have "subseq (c @ r) es" using s(1) Cons.prems(2) by auto
    from Cons.IH [OF s(2) this] show ?thesis by (simp add: ProcessOp)
  qed (use s Cons in auto)
qed simp

lemma nothing_lost:
  "bus_open b \<Longrightarrow> bus_dropped (fold bus_step ops b) = [] \<Longrightarrow> \<not> bus_cancelled (fold bus_step ops b) \<Longrightarrow>
     handled (fold bus_step ops b) @ bus_chan (fold bus_step ops b) = handled b @ bus_chan b @ emitted ops"
proof (induction ops rule: rev_induct)
  case (snoc op ops)
  have emitted_app: "emitted (xs @ ys) = emitted xs @ emitted ys" for xs ys
    by (induction xs rule: emitted.induct) auto
  let ?b = "fold bus_step ops b"
  have o: "bus_open ?b" using steps_open [OF snoc.prems(1)] by simp
  have "bus_dropped ?b = [] \<and> \<not> bus_cancelled ?b \<and>
      handled (bus_step op ?b) @ bus_chan (bus_step op ?b) = handled ?b @ bus_chan ?b @ emitted [op]"
  proof (cases op)
    case (EmitOp p ev)
    then show ?thesis using emit_open [OF o, of p ev] snoc.prems(2,3) by (auto simp: handled_def)
  next
    case (ProcessOp p)
    then show ?thesis using round_open [OF o, of p] snoc.prems(2,3) by auto
  qed (use snoc.prems in \<open>auto simp: subscribe_def handled_def cancel_bus_def unsubscribe_nothing\<close>)
  then show ?case using snoc.IH [OF snoc.prems(1)] by (simp add: emitted_app)
qed simp

text \<open>
  C22: whatever the order of emitting, handling, subscribing and cancelling, the events handled so
  far and those waiting are, in this order, some of the events emitted, in the order they were
  emitted, and never more wait than the buffer holds.  None is missing while the bus has neither
  warned of a full buffer nor been cancelled.
\<close>

theorem bus_delivers_in_order:
  "let b = fold bus_step ops (new_event_bus n) in
     subseq (handled b @ bus_chan b) (emitted ops) \<and> length (bus_chan b) \<le> n \<and>
     (bus_dropped b \<noteq> [] \<or> bus_cancelled b \<or> handled b @ bus_chan b = emitted ops)"
proof -
  let ?b = "fold bus_step ops (new_event_bus n)"
  have new: "bus_open (new_event_bus n)" "handled (new_event_bus n) = []" "bus_chan (new_event_bus n) = []"
    by (simp_all add: bus_open_def new_event_bus_def handled_def)
  have keep: "bus_open ?b" "bus_cap ?b = n"
    using steps_open [OF new(1), of ops] by (simp_all add: new_event_bus_def)
  have "spec_run fifo_step ops (n, [], []) (n, bus_chan ?b, handled ?b)"
    using bus_fifo.run_simulated [OF new(1), of ops] keep(2) new(2,3)
    by (simp add: fifo_of_def new_event_bus_def)
  from fifo_run_keeps_order [OF this, of "[]"] have "subseq (handled ?b @ bus_chan ?b) (emitted ops)" by simp
  moreover have "length (bus_chan ?b) \<le> n"
    using keep by (simp add: bus_open_def)
  ultimately show ?thesis using nothing_lost [OF new(1), of ops] new unfolding Let_def by auto
qed

lemma bus_delivers_in_order_witness:
  "let ev = \<lambda>ty. \<lparr>be_type = ty, be_time = 0, be_data = [], be_error = None\<rparr>;
       b = fold bus_step [EmitOp True (ev ''job:start''), ProcessOp True, EmitOp True (ev ''job:success'')]
             (new_event_bus 1)
   in handled b @ bus_chan b = [ev ''job:start'', ev ''job:success'']"
proof -
  let ?ev = "\<lambda>ty. \<lparr>be_type = ty, be_time = 0, be_data = [], be_error = None\<rparr>"
  let ?ops = "[EmitOp True (?ev ''job:start''), ProcessOp True, EmitOp True (?ev ''job:success'')]"
  have "bus_dropped (fold bus_step ?ops (new_event_bus 1)) = [] \<and> \<not> bus_cancelled (fold bus_step ?ops (new_event_bus 1))"
    by (simp add: new_event_bus_def bus_emit_def process_events_round_def receive_def handle_event_def Let_def)
  then show ?thesis using bus_delivers_in_order [of ?ops 1] unfolding Let_def emitted.simps by blast
qed

section \<open>Closing\<close>

lemma closed_round:
  "bus_closed b \<and> bus_loop b \<noteq> Stopped \<Longrightarrow>
     bus_closed (process_events_round p b) \<and> bus_loop (process_events_round p b) \<noteq> Stopped"
  by (cases "bus_loop b"; cases "bus_chan b")
     (auto simp: process_events_round_def receive_def handle_event_def Let_def)

interpretation closed_bus: invariant_system
    "\<lambda>b. bus_closed b \<and> bus_loop b \<noteq> Stopped" "\<lambda>b b'. \<exists>p. b' = process_events_round p b"
    "\<lambda>b. bus_closed b \<and> bus_loop b \<noteq> Stopped"
  by unfold_locales (use closed_round in blast)+

lemma rounds_are_steps: "rtranclp (\<lambda>b b'. \<exists>p. b' = process_events_round p b) b (fold process_events_round picks b)"
  by (induction picks arbitrary: b) (auto intro: converse_rtranclp_into_rtranclp)

lemma stopped_stays: "bus_loop b = Stopped \<Longrightarrow> bus_loop (fold process_events_round picks b) = Stopped"
  by (induction picks arbitrary: b) (auto simp: process_events_round_def)

text \<open>
  Close returns only when the goroutine that handles events happens to stop between the
  cancellation and the closing of the channel; otherwise that goroutine receives zero events from
  the closed channel for ever, and however long Close waits it does not return.
\<close>

theorem close_waits_for_ever:
  assumes "close_bus before after b = Some b'"
  shows "wait_returns b' \<longleftrightarrow> bus_loop (fold process_events_round before (cancel_bus b)) = Stopped"
proof -
  let ?c = "fold process_events_round before (cancel_bus b)"
  have b': "b' = fold process_events_round after (?c\<lparr>bus_closed := True\<rparr>)"
    using assms by (auto simp: close_bus_def close_chan_def split: if_splits)
  show ?thesis
  proof (cases "bus_loop ?c = Stopped")
    case True
    then show ?thesis using stopped_stays [of "?c\<lparr>bus_closed := True\<rparr>" after] by (simp add: b' wait_returns_def)
  next
    case False
    have "bus_closed b' \<and> bus_loop b' \<noteq> Stopped"
      unfolding b' by (rule closed_bus.reachable_inv [OF _ rounds_are_steps]) (use False in simp)
    then show ?thesis using False by (simp add: wait_returns_def)
  qed
qed

lemma close_waits_for_ever_witness:
  "\<not> wait_returns (the (close_bus [] (replicate 3 True) (new_event_bus 100))) \<and>
   wait_returns (the (close_bus [True, True] [] (new_event_bus 100)))"
proof -
  have r: "\<exists>b. close_bus before after (new_event_bus 100) = Some b" if "before = [] \<or> before = [True, True]" for before after
    using that by (auto simp: close_bus_def close_chan_def new_event_bus_def cancel_bus_def
        process_events_round_def)
  obtain b1 where b1: "close_bus [] (replicate 3 True) (new_event_bus 100) = Some b1" using r by blast
  obtain b2 where b2: "close_bus [True, True] [] (new_event_bus 100) = Some b2" using r by blast
  have "\<not> wait_returns b1" "wait_returns b2"
    using close_waits_for_ever [OF b1] close_waits_for_ever [OF b2]
    by (simp_all add: new_event_bus_def cancel_bus_def process_events_round_def)
  then show ?thesis by (simp add: b1 b2)
qed

section \<open>The logging handler\<close>

text \<open>The data the worker emits nests the ids, so the handler finds none of those it looks for.\<close>

definition nested_job_data :: "string \<Rightarrow> string \<Rightarrow> ev_data \<Rightarrow> ev_data" where
  "nested_job_data worker_id job_id rest =
     [(''worker'', EvMap [(''workerId'', EvStr worker_id)]), (''job'', EvMap ((''id'', EvStr job_id) # rest))]"

lemma logging_handler_silent:
  "ty \<in> {JobSuccess, JobError, JobFailed, WorkerFatalError} \<Longrightarrow>
     logging_handler \<lparr>be_type = event_name ty, be_time = t, be_data = nested_job_data w i rest, be_error = e\<rparr> = None"
  by (auto simp: logging_handler_def nested_job_data_def data_int_def data_str_def event_name_def)

section \<open>Subscribing\<close>

lemma handlers_of_subscribe [simp]:
  "handlers_of ty' (subscribe ty h b) = handlers_of ty' b @ (if ty' = ty then [h] else [])"
  by (auto simp: handlers_of_def subscribe_def update_conv' split: option.split)

lemma subscribe_frame [simp]:
  "bus_calls (subscribe ty h b) = bus_calls b" "handled (subscribe ty h b) = handled b"
  "bus_chan (subscribe ty h b) = bus_chan b"
  by (simp_all add: subscribe_def handled_def)

end
