(* ===== verification/Migrator.thy ===== *)
theory Migrator
  imports Go_Strings
begin

text \<open>
  The migrator (internal/migrate/migrator.go): finding the migration files, reading which ones
  have been applied, and applying the others, each in a transaction of its own.

  The database is the set of rows of the table \<open>migrations\<close>, when it exists, and the rest of its
  contents, on which \<open>run_sql\<close> runs the text of a migration.  What goes wrong outside the text is
  given by the number of the migration at which it does.
\<close>

section \<open>Migration files\<close>

record migration =
  mg_number :: int
  mg_filename :: string
  mg_content :: string

text \<open>An entry of the embedded directory: name, whether it is a directory, content.\<close>

type_synonym dir_entry = "string \<times> bool \<times> string"

text \<open>\<open>^(\d{6})\.sql$\<close>\<close>

definition migration_digits :: "string \<Rightarrow> string option" where
  "migration_digits name =
     (if length name = 10 \<and> list_all is_digit (take 6 name) \<and> drop 6 name = ''.sql''
      then Some (take 6 name) else None)"

fun scan_entries :: "dir_entry list \<Rightarrow> migration list" where
  "scan_entries [] = []"
| "scan_entries ((name, is_dir, content) # es) =
     (if is_dir then scan_entries es
      else case migration_digits name of
        None \<Rightarrow> scan_entries es
      | Some ds \<Rightarrow>
          (case atoi ds of
             None \<Rightarrow> scan_entries es
           | Some n \<Rightarrow> \<lparr>mg_number = n, mg_filename = name, mg_content = content\<rparr> # scan_entries es))"

text \<open>Six digits are always a number, so the branch for an error of \<open>Atoi\<close> is never taken.\<close>

definition load_migrations :: "dir_entry list \<Rightarrow> migration list" where
  "load_migrations entries = sort_key mg_number (scan_entries entries)"

section \<open>Substituting the schema\<close>

definition word_char :: "char \<Rightarrow> bool" where
  "word_char c \<longleftrightarrow> is_alpha c \<or> is_digit c \<or> c = CHR ''_''"

text \<open>
  \<open>ReplaceAllString\<close> expands \<open>$name\<close> in the replacement; the patterns have no groups, so \<open>$0\<close> is
  the match and every other name is empty.
\<close>

function expand_template :: "string \<Rightarrow> string \<Rightarrow> string" where
  "expand_template m [] = []"
| "expand_template m (c # cs) =
     (if c \<noteq> CHR ''$'' then c # expand_template m cs
      else if cs \<noteq> [] \<and> hd cs = CHR ''$'' then CHR ''$'' # expand_template m (tl cs)
      else
        (let braced = cs \<noteq> [] \<and> hd cs = CHR 0x7B; body = (if braced then tl cs else cs);
             name = takeWhile word_char body; rest = dropWhile word_char body in
         if name = [] \<or> braced \<and> (rest = [] \<or> hd rest \<noteq> CHR 0x7D) then CHR ''$'' # expand_template m cs
         else (if name = ''0'' then m else []) @ expand_template m (if braced then tl rest else rest)))"
  by pat_completeness auto
termination
proof (relation "measure (\<lambda>(m, s). length s)", goal_cases)
  case (5 m c cs braced body name rest)
  have "length (dropWhile word_char body) \<le> length body" by (rule length_dropWhile_le)
  moreover have "length body \<le> length cs" using 5 by auto
  ultimately show ?case using 5 by auto
qed auto

text \<open>Replacing every match of a pattern of fixed length; matches look at the character before.\<close>

function replace_all :: "(bool \<Rightarrow> string \<Rightarrow> bool) \<Rightarrow> string \<Rightarrow> string \<Rightarrow> bool \<Rightarrow> string \<Rightarrow> string" where
  "replace_all matches_here pat r after_word [] = []"
| "replace_all matches_here pat r after_word (c # cs) =
     (if matches_here after_word (c # cs)
      then expand_template pat r @
             replace_all matches_here pat r (word_char (last pat)) (drop (length pat - 1) cs)
      else c # replace_all matches_here pat r (word_char c) cs)"
  by pat_completeness auto
termination
  by (relation "measure (\<lambda>(f, p, r, b, s). length s)") auto

definition replace_placeholder :: "string \<Rightarrow> string \<Rightarrow> string" where
  "replace_placeholder schema =
     replace_all (\<lambda>w s. has_prefix s '':GRAPHILE_WORKER_SCHEMA'') '':GRAPHILE_WORKER_SCHEMA'' schema False"

text \<open>\<open>\bgraphile_worker\.\<close> and \<open>\bgraphile_worker\b\<close>\<close>

definition replace_qualifier :: "string \<Rightarrow> string \<Rightarrow> string" where
  "replace_qualifier schema =
     replace_all (\<lambda>w s. \<not> w \<and> has_prefix s ''graphile_worker.'') ''graphile_worker.''
       (schema @ ''.'') False"

definition replace_name :: "string \<Rightarrow> string \<Rightarrow> string" where
  "replace_name schema =
     replace_all (\<lambda>w s. \<not> w \<and> has_prefix s ''graphile_worker'' \<and>
         (length s = 15 \<or> \<not> word_char (s ! 15))) ''graphile_worker'' schema False"

definition migration_sql :: "string \<Rightarrow> migration \<Rightarrow> string" where
  "migration_sql schema m =
     replace_name schema (replace_qualifier schema (replace_placeholder schema (mg_content m)))"

section \<open>The database\<close>

record 'd migration_db =
  md_applied :: "int set option"
  md_data :: 'd

datatype migrate_error =
    MigrateAcquireFailed string
  | InstallFailed string
  | LatestFailed string
  | BeginTxFailed string
  | ExecFailed string string
  | RecordMigrationFailed string string
  | CommitTxFailed string string

datatype tx_fault = NoFault | BeginFault string | RecordFault string | CommitFault string

text \<open>
  \<open>getLatestMigration\<close> of a table without rows is pgx's error for a query without rows;
  \<open>latestID\<close> is nil only for a row that is null, which a primary key is not.
\<close>

definition get_latest_migration :: "'d migration_db \<Rightarrow> (migrate_error, int \<times> bool) result" where
  "get_latest_migration db =
     (case md_applied db of
        None \<Rightarrow> Inr (0, False)
      | Some ids \<Rightarrow> if ids = {} then Inl (LatestFailed ''no rows in result set'') else Inr (Max ids, True))"

definition install_schema :: "string option \<Rightarrow> 'd migration_db \<Rightarrow> 'd migration_db \<times> migrate_error option" where
  "install_schema fault db =
     (case fault of Some m \<Rightarrow> (db, Some (InstallFailed m)) | None \<Rightarrow> (db\<lparr>md_applied := Some {}\<rparr>, None))"

definition run_migration ::
  "(string \<Rightarrow> 'd \<Rightarrow> (string, 'd) result) \<Rightarrow> string \<Rightarrow> tx_fault \<Rightarrow> migration \<Rightarrow> 'd migration_db
     \<Rightarrow> (migrate_error, 'd migration_db) result" where
  "run_migration run_sql schema fault m db =
     (case run_sql (migration_sql schema m) (md_data db) of
        Inl e \<Rightarrow> Inl (ExecFailed (mg_filename m) e)
      | Inr d \<Rightarrow>
          (case fault of
             RecordFault e \<Rightarrow> Inl (RecordMigrationFailed (mg_filename m) e)
           | _ \<Rightarrow>
               if (case md_applied db of None \<Rightarrow> False | Some ids \<Rightarrow> mg_number m \<in> ids)
               then Inl (RecordMigrationFailed (mg_filename m) ''23505'')
               else Inr (db\<lparr>md_data := d, md_applied := map_option (insert (mg_number m)) (md_applied db)\<rparr>)))"

text \<open>The loop of \<open>Migrate\<close>; a rolled back transaction leaves the database as it was.\<close>

fun apply_migrations ::
  "(string \<Rightarrow> 'd \<Rightarrow> (string, 'd) result) \<Rightarrow> string \<Rightarrow> (int \<Rightarrow> tx_fault) \<Rightarrow> int \<Rightarrow> migration list
     \<Rightarrow> 'd migration_db \<Rightarrow> 'd migration_db \<times> migrate_error option" where
  "apply_migrations run_sql schema fault latest [] db = (db, None)"
| "apply_migrations run_sql schema fault latest (m # ms) db =
     (if mg_number m > latest then
        (case fault (mg_number m) of
           BeginFault e \<Rightarrow> (db, Some (BeginTxFailed e))
         | f \<Rightarrow>
             (case run_migration run_sql schema f m db of
                Inl e \<Rightarrow> (db, Some e)
              | Inr db' \<Rightarrow>
                  (case f of
                     CommitFault e \<Rightarrow> (db, Some (CommitTxFailed (mg_filename m) e))
                   | _ \<Rightarrow> apply_migrations run_sql schema fault latest ms db')))
      else apply_migrations run_sql schema fault latest ms db)"

definition new_migrator_schema :: "string \<Rightarrow> string \<Rightarrow> string" where
  "new_migrator_schema env_schema schema =
     (if schema \<noteq> [] then schema else if env_schema \<noteq> [] then env_schema else ''graphile_worker'')"

definition migrate ::
  "(string \<Rightarrow> 'd \<Rightarrow> (string, 'd) result) \<Rightarrow> string \<Rightarrow> dir_entry list \<Rightarrow> string option
     \<Rightarrow> string option \<Rightarrow> (int \<Rightarrow> tx_fault) \<Rightarrow> 'd migration_db \<Rightarrow> 'd migration_db \<times> migrate_error option" where
  "migrate run_sql schema entries acquire_fault install_fault fault db =
     (case acquire_fault of
        Some e \<Rightarrow> (db, Some (MigrateAcquireFailed e))
      | None \<Rightarrow>
          (case get_latest_migration db of
             Inl e \<Rightarrow> (db, Some e)
           | Inr (latest, schema_exists) \<Rightarrow>
               (case (if schema_exists then (db, None) else install_schema install_fault db) of
                  (db', Some e) \<Rightarrow> (db', Some e)
                | (db', None) \<Rightarrow>
                    apply_migrations run_sql schema fault (if schema_exists then latest else 0)
                      (load_migrations entries) db')))"

section \<open>What has been applied\<close>

text \<open>The migrations to apply, in order, and the contents after some of them.\<close>

definition pending :: "int \<Rightarrow> dir_entry list \<Rightarrow> migration list" where
  "pending latest entries = filter (\<lambda>m. mg_number m > latest) (load_migrations entries)"

fun run_all :: "(string \<Rightarrow> 'd \<Rightarrow> (string, 'd) result) \<Rightarrow> string \<Rightarrow> migration list \<Rightarrow> 'd \<Rightarrow> (string, 'd) result" where
  "run_all run_sql schema [] d = Inr d"
| "run_all run_sql schema (m # ms) d =
     (case run_sql (migration_sql schema m) d of Inl e \<Rightarrow> Inl e | Inr d' \<Rightarrow> run_all run_sql schema ms d')"

definition numbers :: "migration list \<Rightarrow> int set" where
  "numbers ms = mg_number ` set ms"

lemma load_sorted: "sorted (map mg_number (load_migrations entries))"
  by (simp add: load_migrations_def)

lemma pending_sorted: "sorted (map mg_number (pending latest entries))"
  unfolding pending_def using load_sorted by (rule sorted_filter)

lemma apply_migrations_prefix:
  assumes "md_applied db = Some ids" "\<forall>n \<in> ids. n \<le> latest"
    and "apply_migrations run_sql schema fault latest ms db = (db', err)"
    and "distinct (map mg_number ms)" "ms' = filter (\<lambda>m. mg_number m > latest) ms"
  shows "\<exists>k \<le> length ms'. md_applied db' = Some (ids \<union> numbers (take k ms')) \<and>
     run_all run_sql schema (take k ms') (md_data db) = Inr (md_data db') \<and>
     (err = None \<longleftrightarrow> k = length ms')"
proof -
  have "\<exists>k \<le> length (filter (\<lambda>m. mg_number m > latest) ms).
     md_applied db' = Some (ids \<union> numbers (take k (filter (\<lambda>m. mg_number m > latest) ms))) \<and>
     run_all run_sql schema (take k (filter (\<lambda>m. mg_number m > latest) ms)) (md_data db) = Inr (md_data db') \<and>
     (err = None \<longleftrightarrow> k = length (filter (\<lambda>m. mg_number m > latest) ms))"
    if "md_applied db = Some ids" "\<forall>n \<in> ids. n \<le> latest \<or> n \<notin> numbers ms"
      "apply_migrations run_sql schema fault latest ms db = (db', err)" "distinct (map mg_number ms)"
    for ids db
    using that
  proof (induction ms arbitrary: db ids)
    case (Cons m ms)
    show ?case
    proof (cases "mg_number m > latest")
      case False
      then have step: "apply_migrations run_sql schema fault latest ms db = (db', err)"
        using Cons.prems(3) by simp
      have "\<forall>n \<in> ids. n \<le> latest \<or> n \<notin> numbers ms" "distinct (map mg_number ms)"
        using Cons.prems(2,4) by (auto simp: numbers_def)
      from Cons.IH [OF Cons.prems(1) this(1) step this(2)] show ?thesis using False by simp
    next
      case True
      let ?ms = "filter (\<lambda>m. mg_number m > latest) ms"
      have stop: "\<exists>k \<le> length (m # ?ms). md_applied db = Some (ids \<union> numbers (take k (m # ?ms))) \<and>
         run_all run_sql schema (take k (m # ?ms)) (md_data db) = Inr (md_data db) \<and>
         (Some e = None \<longleftrightarrow> k = length (m # ?ms))" for e :: migrate_error
        by (intro exI [of _ 0]) (simp add: Cons.prems(1) numbers_def)
      show ?thesis
      proof (cases "err = None \<or> (\<exists>d. run_migration run_sql schema (fault (mg_number m)) m db = Inr d
          \<and> apply_migrations run_sql schema fault latest ms d = (db', err))")
        case False
        then have "db' = db" "err \<noteq> None"
          using Cons.prems(3) True by (auto split: tx_fault.splits sum.splits)
        then show ?thesis using stop True by auto
      next
        case run: True
        then obtain d where d: "run_migration run_sql schema (fault (mg_number m)) m db = Inr d"
            "apply_migrations run_sql schema fault latest ms d = (db', err)"
          using Cons.prems(3) True by (auto split: tx_fault.splits sum.splits)
        then obtain x where x: "run_sql (migration_sql schema m) (md_data db) = Inr x"
            "d = db\<lparr>md_data := x, md_applied := Some (insert (mg_number m) ids)\<rparr>"
          using Cons.prems(1) by (auto simp: run_migration_def split: sum.splits tx_fault.splits if_splits)
        have "\<forall>n \<in> insert (mg_number m) ids. n \<le> latest \<or> n \<notin> numbers ms"
          using Cons.prems(2,4) by (auto simp: numbers_def)
        then obtain k where k: "k \<le> length ?ms"
            "md_applied db' = Some (insert (mg_number m) ids \<union> numbers (take k ?ms))"
            "run_all run_sql schema (take k ?ms) x = Inr (md_data db')" "(err = None) = (k = length ?ms)"
          using Cons.IH [of d "insert (mg_number m) ids"] Cons.prems(4) d(2) x(2) by auto
        then show ?thesis using True x(1)
          by (intro exI [of _ "Suc k"]) (auto simp: numbers_def)
      qed
    qed
  qed (auto simp: numbers_def)
  from this [OF assms(1) _ assms(3,4)] assms(2,5) show ?thesis by blast
qed

text \<open>
  C24: when the migrations can be read, those applied are a prefix of the pending ones in the order
  of their numbers, with exactly their effect on the database, whatever fails on the way; all of
  them are applied just when no error is returned.  A database whose table of migrations is empty
  is never migrated: every call fails and changes nothing.
\<close>

theorem migrate_applies_prefix:
  assumes "migrate run_sql schema entries None None fault db = (db', err)"
    and "distinct (map mg_number (load_migrations entries))"
    and "\<forall>ids. md_applied db = Some ids \<longrightarrow> finite ids"
    and "todo = pending (case md_applied db of None \<Rightarrow> 0 | Some ids \<Rightarrow> Max ids) entries"
  shows "if md_applied db = Some {} then db' = db \<and> err \<noteq> None
     else \<exists>k \<le> length todo.
       md_applied db' = Some ((case md_applied db of None \<Rightarrow> {} | Some ids \<Rightarrow> ids) \<union> numbers (take k todo)) \<and>
       run_all run_sql schema (take k todo) (md_data db) = Inr (md_data db') \<and>
       (err = None \<longleftrightarrow> k = length todo)"
proof (cases "md_applied db")
  case None
  then have "apply_migrations run_sql schema fault 0 (load_migrations entries) (db\<lparr>md_applied := Some {}\<rparr>) = (db', err)"
    using assms(1) by (simp add: migrate_def get_latest_migration_def install_schema_def)
  from apply_migrations_prefix [OF _ _ this assms(2) refl, of "{}"] show ?thesis
    using None assms(4) by (simp add: pending_def)
next
  case (Some ids')
  show ?thesis
  proof (cases "ids' = {}")
    case True
    then show ?thesis using assms(1) Some by (auto simp: migrate_def get_latest_migration_def)
  next
    case False
    then have "apply_migrations run_sql schema fault (Max ids') (load_migrations entries) db = (db', err)"
      using assms(1) Some by (simp add: migrate_def get_latest_migration_def)
    moreover have "\<forall>n \<in> ids'. n \<le> Max ids'" using assms(3) Some by simp
    ultimately show ?thesis
      using apply_migrations_prefix [OF Some _ _ assms(2) refl] Some False assms(4)
      by (simp add: pending_def)
  qed
qed

theorem migrate_applies_prefix_witness:
  "let entries = [(''000002.sql'', False, ''boom''), (''000001.sql'', False, ''x''), (''readme.md'', False, [])];
       todo = pending 0 entries
   in \<exists>k \<le> length todo. {1} = numbers (take k todo) \<and>
        run_all (\<lambda>s d. if s = ''boom'' then Inl ''oops'' else Inr (d + 1)) ''kt'' (take k todo) (0 :: nat) = Inr 1 \<and>
        k \<noteq> length todo"
proof -
  let ?run = "\<lambda>s d. if s = ''boom'' then Inl ''oops'' else Inr (d + 1 :: nat)"
  let ?es = "[(''000002.sql'', False, ''boom''), (''000001.sql'', False, ''x''), (''readme.md'', False, [])]"
  have "migrate ?run ''kt'' ?es None None (\<lambda>n. NoFault) \<lparr>md_applied = None, md_data = 0\<rparr>
      = (\<lparr>md_applied = Some {1}, md_data = 1\<rparr>, Some (ExecFailed ''000002.sql'' ''oops''))"
    by code_simp
  moreover have "distinct (map mg_number (load_migrations ?es))" by code_simp
  ultimately show ?thesis using migrate_applies_prefix [OF _ _ _ refl] by (fastforce simp: Let_def)
qed

end
