(* ===== verification/Env_Config.thy ===== *)
theory Env_Config
  imports Go_Strings Complex_Main "HOL-Library.Sublist"
begin

text \<open>
  Configuration: the environment (pkg/env/env.go), the configuration files and their overrides
  (pkg/worker/config_parser.go, config.go), the choice of a connection string
  (pkg/worker/connection.go) and of a schema (pkg/worker/migrate.go).

  The environment is a function that gives the empty string for a variable that is not set.  The
  files are a function from the components of an absolute path to the content of the file, if it
  can be read.  The JSON and YAML decoders are arguments: \<open>None\<close> is an error, or a document that
  leaves the map nil.
\<close>

section \<open>The environment\<close>

type_synonym environment = "string \<Rightarrow> string"

fun get_string_with_fallback :: "environment \<Rightarrow> string \<Rightarrow> string list \<Rightarrow> string" where
  "get_string_with_fallback env dflt [] = dflt"
| "get_string_with_fallback env dflt (v # vs) =
     (if env v \<noteq> [] then env v else get_string_with_fallback env dflt vs)"

fun get_int_with_fallback :: "environment \<Rightarrow> int \<Rightarrow> string list \<Rightarrow> int" where
  "get_int_with_fallback env dflt [] = dflt"
| "get_int_with_fallback env dflt (v # vs) =
     (case (if env v \<noteq> [] then atoi (env v) else None) of
        Some n \<Rightarrow> n | None \<Rightarrow> get_int_with_fallback env dflt vs)"

definition bool_word :: "string \<Rightarrow> bool option" where
  "bool_word s =
     (if s \<in> set [''true'', ''1'', ''yes'', ''on''] then Some True
      else if s \<in> set [''false'', ''0'', ''no'', ''off''] then Some False else None)"

fun get_bool_with_fallback :: "environment \<Rightarrow> bool \<Rightarrow> string list \<Rightarrow> bool" where
  "get_bool_with_fallback env dflt [] = dflt"
| "get_bool_with_fallback env dflt (v # vs) =
     (case (if env v \<noteq> [] then bool_word (to_lower (env v)) else None) of
        Some b \<Rightarrow> b | None \<Rightarrow> get_bool_with_fallback env dflt vs)"

definition env_schema :: "environment \<Rightarrow> string \<Rightarrow> string" where
  "env_schema env dflt = get_string_with_fallback env dflt [''GRAPHILE_WORKER_SCHEMA'']"

definition env_database_url :: "environment \<Rightarrow> string" where
  "env_database_url env = get_string_with_fallback env [] [''DATABASE_URL'']"

definition is_debug_enabled :: "environment \<Rightarrow> bool" where
  "is_debug_enabled env = get_bool_with_fallback env False [''KONGTASK_DEBUG'', ''GRAPHILE_WORKER_DEBUG'']"

definition log_level :: "environment \<Rightarrow> string" where
  "log_level env =
     to_lower (get_string_with_fallback env ''info'' [''KONGTASK_LOG_LEVEL'', ''GRAPHILE_WORKER_LOG_LEVEL''])"

definition has_pg_variables :: "environment \<Rightarrow> bool" where
  "has_pg_variables env \<longleftrightarrow> env ''PGDATABASE'' \<noteq> []"

definition env_concurrency :: "environment \<Rightarrow> int \<Rightarrow> int" where
  "env_concurrency env dflt =
     get_int_with_fallback env dflt [''KONGTASK_CONCURRENCY'', ''GRAPHILE_WORKER_CONCURRENCY'']"

definition env_max_pool_size :: "environment \<Rightarrow> int \<Rightarrow> int" where
  "env_max_pool_size env dflt =
     get_int_with_fallback env dflt [''KONGTASK_MAX_POOL_SIZE'', ''GRAPHILE_WORKER_MAX_POOL_SIZE'']"

section \<open>Configuration files\<close>

text \<open>A decoded value; numbers of JSON are \<open>float64\<close>, integers of YAML are \<open>int\<close>.\<close>

datatype config_value = CfgNil | CfgStr string | CfgInt int | CfgFloat rat | CfgOther

type_synonym config_map = "(string \<times> config_value) list"

record config_source =
  cs_env :: environment
  cs_cwd :: "string list option"
  cs_files :: "string list \<Rightarrow> string option"
  cs_json :: "string \<Rightarrow> config_map option"
  cs_yaml :: "string \<Rightarrow> config_map option"

definition config_lookup :: "string \<Rightarrow> config_map \<Rightarrow> config_value" where
  "config_lookup k m = (case map_of m k of None \<Rightarrow> CfgNil | Some v \<Rightarrow> v)"

text \<open>\<open>filepath.Ext\<close> of a path: what follows the last dot of its last component, with the dot.\<close>

definition path_ext :: "string \<Rightarrow> string" where
  "path_ext name =
     (if CHR ''.'' \<in> set name then CHR ''.'' # rev (takeWhile (\<lambda>c. c \<noteq> CHR ''.'') (rev name)) else [])"

text \<open>\<open>filepath.Clean\<close> leaves an absolute path alone when it has no empty or dotted component.\<close>

definition clean_path :: "string list \<Rightarrow> bool" where
  "clean_path p \<longleftrightarrow> list_all (\<lambda>c. c \<notin> set [[], ''.'', ''..''] \<and> CHR ''/'' \<notin> set c) p"

definition load_config_file :: "config_source \<Rightarrow> string list \<Rightarrow> config_map option" where
  "load_config_file cs path =
     (if \<not> clean_path path then None
      else case cs_files cs path of
        None \<Rightarrow> None
      | Some data \<Rightarrow>
          (let ext = (case path of [] \<Rightarrow> [] | _ \<Rightarrow> path_ext (last path)) in
           if ext \<in> set [''.json'', []] then cs_json cs data
           else if ext \<in> set [''.yaml'', ''.yml''] then cs_yaml cs data
           else None))"

definition search_paths :: "string list" where
  "search_paths =
     [''.graphile-workerrc'', ''.graphile-workerrc.json'', ''.graphile-workerrc.yaml'',
      ''.graphile-workerrc.yml'', ''graphile-worker.config.json'', ''graphile-worker.config.yaml'',
      ''graphile-worker.config.yml'']"

text \<open>The first of some files that loads.\<close>

fun first_loaded :: "config_source \<Rightarrow> string list list \<Rightarrow> config_map option" where
  "first_loaded cs [] = None"
| "first_loaded cs (p # ps) =
     (case load_config_file cs p of Some m \<Rightarrow> Some m | None \<Rightarrow> first_loaded cs ps)"

text \<open>The loop over the directories, from the innermost to the root; the argument is reversed.\<close>

fun walk_up :: "config_source \<Rightarrow> string list \<Rightarrow> config_map option" where
  "walk_up cs rdir =
     (case first_loaded cs (map (\<lambda>f. rev rdir @ [f]) search_paths) of
        Some m \<Rightarrow> Some m
      | None \<Rightarrow> (case rdir of [] \<Rightarrow> None | _ # up \<Rightarrow> walk_up cs up))"

declare walk_up.simps [simp del]

definition load_cosmiconfig_like :: "config_source \<Rightarrow> config_map option" where
  "load_cosmiconfig_like cs =
     (case cs_cwd cs of None \<Rightarrow> None | Some dir \<Rightarrow> walk_up cs (rev dir))"

definition enforce_string_or_undefined :: "config_value \<Rightarrow> string" where
  "enforce_string_or_undefined v = (case v of CfgStr s \<Rightarrow> s | _ \<Rightarrow> [])"

text \<open>Conversion of a \<open>float64\<close> in the range of \<open>int\<close> truncates.\<close>

definition truncate_float :: "rat \<Rightarrow> int" where
  "truncate_float r = (if r < 0 then - floor (- r) else floor r)"

definition enforce_number_or_undefined :: "config_value \<Rightarrow> int" where
  "enforce_number_or_undefined v =
     (case v of
        CfgInt n \<Rightarrow> n
      | CfgFloat r \<Rightarrow> truncate_float r
      | CfgStr s \<Rightarrow> (case atoi s of Some n \<Rightarrow> n | None \<Rightarrow> 0)
      | _ \<Rightarrow> 0)"

record worker_defaults =
  wd_poll_interval :: int
  wd_schema :: string
  wd_max_contiguous_errors :: int
  wd_concurrent_jobs :: int
  wd_max_pool_size :: int

definition base_defaults :: worker_defaults where
  "base_defaults =
     \<lparr>wd_poll_interval = 2000, wd_schema = ''graphile_worker'', wd_max_contiguous_errors = 10,
      wd_concurrent_jobs = 1, wd_max_pool_size = 10\<rparr>"

text \<open>A setting of the file replaces the value when it is a non-empty string, a positive number.\<close>

definition string_setting :: "config_map \<Rightarrow> string \<Rightarrow> string \<Rightarrow> string" where
  "string_setting m k old =
     (let s = enforce_string_or_undefined (config_lookup k m) in if s \<noteq> [] then s else old)"

definition number_setting :: "config_map \<Rightarrow> string \<Rightarrow> int \<Rightarrow> int" where
  "number_setting m k old =
     (let n = enforce_number_or_undefined (config_lookup k m) in if n > 0 then n else old)"

definition apply_config_file :: "config_map \<Rightarrow> worker_defaults \<Rightarrow> worker_defaults" where
  "apply_config_file m d =
     \<lparr>wd_poll_interval = number_setting m ''pollInterval'' (wd_poll_interval d),
      wd_schema = string_setting m ''schema'' (wd_schema d),
      wd_max_contiguous_errors = number_setting m ''maxContiguousErrors'' (wd_max_contiguous_errors d),
      wd_concurrent_jobs = number_setting m ''concurrentJobs'' (wd_concurrent_jobs d),
      wd_max_pool_size = number_setting m ''maxPoolSize'' (wd_max_pool_size d)\<rparr>"

definition get_defaults :: "config_source \<Rightarrow> worker_defaults" where
  "get_defaults cs =
     (let d = (case load_cosmiconfig_like cs of
                 None \<Rightarrow> base_defaults | Some m \<Rightarrow> apply_config_file m base_defaults);
          schema = cs_env cs ''GRAPHILE_WORKER_SCHEMA''
      in if schema \<noteq> [] then d\<lparr>wd_schema := schema\<rparr> else d)"

text \<open>Durations are nanoseconds in 64 bits.\<close>

definition milliseconds :: "int \<Rightarrow> int" where
  "milliseconds n = wrap64 (n * 1000000)"

record config =
  cf_poll_interval :: int
  cf_concurrent_jobs :: int
  cf_max_contiguous_errors :: int
  cf_max_pool_size :: int
  cf_schema :: string

definition to_config :: "worker_defaults \<Rightarrow> config" where
  "to_config d =
     \<lparr>cf_poll_interval = milliseconds (wd_poll_interval d), cf_concurrent_jobs = wd_concurrent_jobs d,
      cf_max_contiguous_errors = wd_max_contiguous_errors d, cf_max_pool_size = wd_max_pool_size d,
      cf_schema = wd_schema d\<rparr>"

definition get_defaults_config :: "config_source \<Rightarrow> config" where
  "get_defaults_config cs = to_config (get_defaults cs)"

definition default_config :: "config_source \<Rightarrow> config" where
  "default_config cs = get_defaults_config cs"

section \<open>The configuration and its overrides\<close>

record configuration =
  cn_schema :: string
  cn_use_node_time :: bool
  cn_concurrency :: int
  cn_poll_interval :: int
  cn_max_pool_size :: int
  cn_no_handle_signals :: bool
  cn_no_prepared :: bool
  cn_database_url :: string
  cn_max_contiguous_errors :: int
  cn_job_expiry :: int

text \<open>The dynamic type of an override decides whether its type assertion succeeds.\<close>

datatype override = OvStr string | OvInt int | OvDuration int | OvBool bool

type_synonym overrides = "(string \<times> override) list"

definition override_string :: "overrides \<Rightarrow> string \<Rightarrow> string \<Rightarrow> string" where
  "override_string ov k old =
     (case map_of ov k of Some (OvStr s) \<Rightarrow> if s \<noteq> [] then s else old | _ \<Rightarrow> old)"

definition override_int :: "overrides \<Rightarrow> string \<Rightarrow> int \<Rightarrow> int" where
  "override_int ov k old =
     (case map_of ov k of Some (OvInt n) \<Rightarrow> if n > 0 then n else old | _ \<Rightarrow> old)"

definition override_duration :: "overrides \<Rightarrow> string \<Rightarrow> int \<Rightarrow> int" where
  "override_duration ov k old =
     (case map_of ov k of Some (OvDuration n) \<Rightarrow> if n > 0 then n else old | _ \<Rightarrow> old)"

definition override_bool :: "overrides \<Rightarrow> string \<Rightarrow> bool \<Rightarrow> bool" where
  "override_bool ov k old = (case map_of ov k of Some (OvBool b) \<Rightarrow> b | _ \<Rightarrow> old)"

text \<open>A nil map of overrides is the empty one.\<close>

definition load_configuration_with_overrides :: "config_source \<Rightarrow> overrides \<Rightarrow> configuration" where
  "load_configuration_with_overrides cs ov =
     (let d = get_defaults cs in
      \<lparr>cn_schema = override_string ov ''schema'' (wd_schema d),
       cn_use_node_time = override_bool ov ''use_node_time'' False,
       cn_concurrency = override_int ov ''concurrency'' (wd_concurrent_jobs d),
       cn_poll_interval = override_duration ov ''poll_interval'' (milliseconds (wd_poll_interval d)),
       cn_max_pool_size = override_int ov ''max_pool_size'' (wd_max_pool_size d),
       cn_no_handle_signals = override_bool ov ''no_handle_signals'' False,
       cn_no_prepared = override_bool ov ''no_prepared_statements'' False,
       cn_database_url = override_string ov ''database_url'' [],
       cn_max_contiguous_errors = override_int ov ''max_contiguous_errors'' (wd_max_contiguous_errors d),
       cn_job_expiry = override_duration ov ''job_expiry'' 14400000000000\<rparr>)"

datatype config_error =
    EmptySchema
  | ConcurrencyTooSmall int
  | PollIntervalTooSmall int
  | PoolSizeTooSmall int

definition validate_configuration :: "configuration \<Rightarrow> config_error option" where
  "validate_configuration c =
     (if cn_schema c = [] then Some EmptySchema
      else if cn_concurrency c < 1 then Some (ConcurrencyTooSmall (cn_concurrency c))
      else if cn_poll_interval c < 1000000 then Some (PollIntervalTooSmall (cn_poll_interval c))
      else if cn_max_pool_size c < 1 then Some (PoolSizeTooSmall (cn_max_pool_size c))
      else None)"

text \<open>What \<open>SaveSampleConfiguration\<close> writes, as it is read back.\<close>

definition sample_configuration :: config_map where
  "sample_configuration =
     [(''schema'', CfgStr ''graphile_worker''), (''concurrency'', CfgFloat 1),
      (''poll_interval'', CfgStr ''2s''), (''max_pool_size'', CfgFloat 10),
      (''no_handle_signals'', CfgOther), (''database_url'', CfgStr ''postgres://localhost:5432/mydb''),
      (''max_contiguous_errors'', CfgFloat 10), (''job_expiry'', CfgStr ''4h'')]"

section \<open>Connection string and schema\<close>

text \<open>The empty string leaves it to pgx to read the \<open>PG*\<close> variables.\<close>

definition get_connection_string :: "environment \<Rightarrow> string \<Rightarrow> string option" where
  "get_connection_string env s =
     (if s \<noteq> [] then Some s
      else if env ''DATABASE_URL'' \<noteq> [] then Some (env ''DATABASE_URL'')
      else if env ''PGDATABASE'' \<noteq> [] then Some []
      else None)"

definition create_database_pool ::
  "environment \<Rightarrow> (string \<Rightarrow> (string, 'p) result) \<Rightarrow> string \<Rightarrow> (string option, 'p) result" where
  "create_database_pool env new_pool s =
     (case get_connection_string env s of
        None \<Rightarrow> Inl None
      | Some c \<Rightarrow> (case new_pool c of Inl e \<Rightarrow> Inl (Some e) | Inr p \<Rightarrow> Inr p))"

text \<open>\<open>getSchemaFromOptions\<close> does not look at the options.\<close>

definition get_schema_from_options :: "environment \<Rightarrow> string option \<Rightarrow> string" where
  "get_schema_from_options env options_schema =
     (if env ''GRAPHILE_WORKER_SCHEMA'' \<noteq> [] then env ''GRAPHILE_WORKER_SCHEMA'' else ''graphile_worker'')"

definition schema_of_shared_options :: "environment \<Rightarrow> string option \<Rightarrow> string" where
  "schema_of_shared_options env options_schema =
     (if env ''GRAPHILE_WORKER_SCHEMA'' \<noteq> [] then env ''GRAPHILE_WORKER_SCHEMA''
      else case options_schema of Some s \<Rightarrow> s | None \<Rightarrow> ''graphile_worker'')"

section \<open>Where a setting comes from\<close>

text \<open>The first candidate that is set, by the order of precedence.\<close>

fun first_set :: "('a \<Rightarrow> bool) \<Rightarrow> 'a list \<Rightarrow> 'a \<Rightarrow> 'a" where
  "first_set P [] d = d"
| "first_set P (x # xs) d = (if P x then x else first_set P xs d)"

definition config_file :: "config_source \<Rightarrow> config_map" where
  "config_file cs = (case load_cosmiconfig_like cs of None \<Rightarrow> [] | Some m \<Rightarrow> m)"

text \<open>Every directory from the current one up, and in each the names in order.\<close>

definition candidates :: "string list \<Rightarrow> string list \<Rightarrow> string list list" where
  "candidates names dir = concat (map (\<lambda>p. map (\<lambda>f. p @ [f]) names) (rev (prefixes dir)))"

lemma first_loaded_append:
  "first_loaded cs (ps @ qs) = (case first_loaded cs ps of Some m \<Rightarrow> Some m | None \<Rightarrow> first_loaded cs qs)"
  by (induction ps) (auto split: option.split)

lemma walk_up_candidates: "walk_up cs rdir = first_loaded cs (candidates search_paths (rev rdir))"
proof (induction rdir)
  case Nil
  then show ?case by (subst walk_up.simps) (simp add: candidates_def split: option.split)
next
  case (Cons d up)
  then show ?case
    by (subst walk_up.simps) (simp add: candidates_def prefixes_snoc first_loaded_append del: prefixes.simps split: option.split)
qed

lemma rc_file_never_loaded: "load_config_file cs (dir @ [''.graphile-workerrc'']) = None"
proof -
  have "path_ext ''.graphile-workerrc'' = ''.graphile-workerrc''" by code_simp
  then show ?thesis by (cases dir) (auto simp: load_config_file_def Let_def split: option.split)
qed

lemma first_loaded_skip_rc:
  "first_loaded cs (candidates search_paths dir) = first_loaded cs (candidates (tl search_paths) dir)"
proof -
  obtain names where names: "search_paths = ''.graphile-workerrc'' # names" by (simp add: search_paths_def)
  have "first_loaded cs (concat (map (\<lambda>p. map (\<lambda>f. p @ [f]) search_paths) ps))
      = first_loaded cs (concat (map (\<lambda>p. map (\<lambda>f. p @ [f]) names) ps))" for ps
    by (induction ps) (simp_all add: first_loaded_append names rc_file_never_loaded split: option.split)
  then show ?thesis by (simp add: candidates_def names)
qed

lemma get_defaults_settings:
  "get_defaults cs =
     \<lparr>wd_poll_interval = number_setting (config_file cs) ''pollInterval'' 2000,
      wd_schema = first_set (\<lambda>s. s \<noteq> []) [cs_env cs ''GRAPHILE_WORKER_SCHEMA'']
        (string_setting (config_file cs) ''schema'' ''graphile_worker''),
      wd_max_contiguous_errors = number_setting (config_file cs) ''maxContiguousErrors'' 10,
      wd_concurrent_jobs = number_setting (config_file cs) ''concurrentJobs'' 1,
      wd_max_pool_size = number_setting (config_file cs) ''maxPoolSize'' 10\<rparr>"
  by (auto simp: get_defaults_def config_file_def apply_config_file_def base_defaults_def Let_def
      number_setting_def string_setting_def config_lookup_def enforce_number_or_undefined_def
      enforce_string_or_undefined_def split: option.split)

lemma first_set_is_set: "P d \<Longrightarrow> P (first_set P xs d)"
  by (induction xs) auto

text \<open>An override or a setting of the file as a candidate.\<close>

definition ov_string :: "overrides \<Rightarrow> string \<Rightarrow> string" where
  "ov_string ov k = (case map_of ov k of Some (OvStr s) \<Rightarrow> s | _ \<Rightarrow> [])"

definition ov_int :: "overrides \<Rightarrow> string \<Rightarrow> int" where
  "ov_int ov k = (case map_of ov k of Some (OvInt n) \<Rightarrow> n | _ \<Rightarrow> 0)"

definition ov_duration :: "overrides \<Rightarrow> string \<Rightarrow> int" where
  "ov_duration ov k = (case map_of ov k of Some (OvDuration n) \<Rightarrow> n | _ \<Rightarrow> 0)"

definition file_string :: "config_source \<Rightarrow> string \<Rightarrow> string" where
  "file_string cs k = enforce_string_or_undefined (config_lookup k (config_file cs))"

definition file_number :: "config_source \<Rightarrow> string \<Rightarrow> int" where
  "file_number cs k = enforce_number_or_undefined (config_lookup k (config_file cs))"

lemmas setting_defs = load_configuration_with_overrides_def get_defaults_settings
  number_setting_def string_setting_def override_string_def override_int_def override_duration_def
  ov_string_def ov_int_def ov_duration_def file_string_def file_number_def Let_def

lemma schema_setting:
  "cn_schema (load_configuration_with_overrides cs ov) = first_set (\<lambda>s. s \<noteq> [])
     [ov_string ov ''schema'', cs_env cs ''GRAPHILE_WORKER_SCHEMA'', file_string cs ''schema'']
     ''graphile_worker''"
  by (auto simp: setting_defs split: option.split override.split)

lemma int_settings:
  "cn_concurrency (load_configuration_with_overrides cs ov) =
     first_set (\<lambda>n. 0 < n) [ov_int ov ''concurrency'', file_number cs ''concurrentJobs''] 1"
  "cn_max_pool_size (load_configuration_with_overrides cs ov) =
     first_set (\<lambda>n. 0 < n) [ov_int ov ''max_pool_size'', file_number cs ''maxPoolSize''] 10"
  "cn_max_contiguous_errors (load_configuration_with_overrides cs ov) =
     first_set (\<lambda>n. 0 < n) [ov_int ov ''max_contiguous_errors'', file_number cs ''maxContiguousErrors''] 10"
  by (auto simp: setting_defs split: option.split override.split)

lemma duration_settings:
  "cn_poll_interval (load_configuration_with_overrides cs ov) =
     first_set (\<lambda>n. 0 < n) [ov_duration ov ''poll_interval'']
       (milliseconds (first_set (\<lambda>n. 0 < n) [file_number cs ''pollInterval''] 2000))"
  "cn_job_expiry (load_configuration_with_overrides cs ov) =
     first_set (\<lambda>n. 0 < n) [ov_duration ov ''job_expiry''] 14400000000000"
  by (auto simp: setting_defs split: option.split override.split)

lemma override_only_settings:
  "cn_database_url (load_configuration_with_overrides cs ov) = ov_string ov ''database_url''"
  "cn_use_node_time (load_configuration_with_overrides cs ov) = (map_of ov ''use_node_time'' = Some (OvBool True))"
  "cn_no_handle_signals (load_configuration_with_overrides cs ov) = (map_of ov ''no_handle_signals'' = Some (OvBool True))"
  "cn_no_prepared (load_configuration_with_overrides cs ov) = (map_of ov ''no_prepared_statements'' = Some (OvBool True))"
  by (auto simp: setting_defs override_bool_def split: option.split override.split)

text \<open>The files are found without the environment.\<close>

lemma first_loaded_env: "first_loaded (cs\<lparr>cs_env := e\<rparr>) ps = first_loaded cs ps"
proof -
  have "load_config_file (cs\<lparr>cs_env := e\<rparr>) p = load_config_file cs p" for p
    by (simp add: load_config_file_def Let_def split: option.split)
  then show ?thesis by (induction ps) (simp_all split: option.split)
qed

lemma config_file_env: "config_file (cs\<lparr>cs_env := e\<rparr>) = config_file cs"
  by (cases "cs_cwd cs") (simp_all add: config_file_def load_cosmiconfig_like_def walk_up_candidates first_loaded_env)

lemma environment_sets_schema:
  "load_configuration_with_overrides (cs\<lparr>cs_env := e\<rparr>) ov =
     (load_configuration_with_overrides cs ov)\<lparr>cn_schema := first_set (\<lambda>s. s \<noteq> [])
        [ov_string ov ''schema'', e ''GRAPHILE_WORKER_SCHEMA'', file_string cs ''schema''] ''graphile_worker''\<rparr>"
proof -
  have f: "file_string (cs\<lparr>cs_env := e\<rparr>) k = file_string cs k" "file_number (cs\<lparr>cs_env := e\<rparr>) k = file_number cs k" for k
    by (simp_all add: file_string_def file_number_def config_file_env)
  show ?thesis
    by (rule configuration.equality)
       (simp_all add: schema_setting int_settings duration_settings override_only_settings f del: first_set.simps)
qed

text \<open>
  C25: where each setting of a loaded configuration comes from.  The schema comes from the
  override, else the environment, else the configuration file, else the built-in value, the first
  that is set; the four numbers and the poll interval from the override, else the file, else the
  built-in value; the job expiry from the override or the built-in value; the database URL and the
  three booleans from the override alone.  Another environment changes the schema and nothing
  else.  So only a poll interval below a millisecond, given or by overflow, makes the configuration
  invalid.  The configuration file is the first, from the current directory up, that loads of six
  names; the first name the search lists is never among them.
\<close>

theorem configuration_sources:
  "let c = load_configuration_with_overrides cs ov; positive = first_set (\<lambda>n. 0 < n) in
     cn_schema c = first_set (\<lambda>s. s \<noteq> [])
       [ov_string ov ''schema'', cs_env cs ''GRAPHILE_WORKER_SCHEMA'', file_string cs ''schema''] ''graphile_worker'' \<and>
     cn_concurrency c = positive [ov_int ov ''concurrency'', file_number cs ''concurrentJobs''] 1 \<and>
     cn_max_pool_size c = positive [ov_int ov ''max_pool_size'', file_number cs ''maxPoolSize''] 10 \<and>
     cn_max_contiguous_errors c =
       positive [ov_int ov ''max_contiguous_errors'', file_number cs ''maxContiguousErrors''] 10 \<and>
     cn_poll_interval c = positive [ov_duration ov ''poll_interval'']
       (milliseconds (positive [file_number cs ''pollInterval''] 2000)) \<and>
     cn_job_expiry c = positive [ov_duration ov ''job_expiry''] 14400000000000 \<and>
     cn_database_url c = ov_string ov ''database_url'' \<and>
     cn_use_node_time c = (map_of ov ''use_node_time'' = Some (OvBool True)) \<and>
     cn_no_handle_signals c = (map_of ov ''no_handle_signals'' = Some (OvBool True)) \<and>
     cn_no_prepared c = (map_of ov ''no_prepared_statements'' = Some (OvBool True)) \<and>
     load_configuration_with_overrides (cs\<lparr>cs_env := e\<rparr>) ov = c\<lparr>cn_schema := first_set (\<lambda>s. s \<noteq> [])
       [ov_string ov ''schema'', e ''GRAPHILE_WORKER_SCHEMA'', file_string cs ''schema''] ''graphile_worker''\<rparr> \<and>
     (validate_configuration c = None \<longleftrightarrow> cn_poll_interval c \<ge> 1000000) \<and>
     load_cosmiconfig_like cs = (case cs_cwd cs of None \<Rightarrow> None | Some dir \<Rightarrow>
       first_loaded cs (candidates (tl search_paths) dir))"
proof -
  let ?c = "load_configuration_with_overrides cs ov"
  have "cn_schema ?c \<noteq> []" "0 < cn_concurrency ?c" "0 < cn_max_pool_size ?c"
    unfolding schema_setting int_settings
    by (rule first_set_is_set [where P = "\<lambda>s. s \<noteq> []"] first_set_is_set [where P = "\<lambda>n. 0 < n"], simp)+
  then have "validate_configuration ?c = None \<longleftrightarrow> cn_poll_interval ?c \<ge> 1000000"
    by (simp add: validate_configuration_def)
  moreover have "load_cosmiconfig_like cs = (case cs_cwd cs of None \<Rightarrow> None | Some dir \<Rightarrow>
       first_loaded cs (candidates (tl search_paths) dir))"
    by (simp add: load_cosmiconfig_like_def walk_up_candidates first_loaded_skip_rc split: option.split)
  ultimately show ?thesis
    unfolding Let_def
    by (intro conjI schema_setting int_settings duration_settings override_only_settings environment_sets_schema)
qed

section \<open>The sample configuration\<close>

text \<open>The keys of the sample file are not those that are read, but for the schema.\<close>

lemma sample_configuration_changes_nothing:
  "apply_config_file sample_configuration base_defaults = base_defaults"
  by code_simp

end
