(* ===== verification/Log_Output.thy ===== *)
theory Log_Output
  imports Env_Config
begin

text \<open>
  The logger (pkg/logger/logger.go): scopes, their merging, and the lines the console log writes.
  A logger is its scope and the name of its factory; the log function is the factory applied to
  the scope.  The text of the metadata is an argument.
\<close>

record log_scope =
  sc_label :: string
  sc_worker :: string
  sc_task :: string
  sc_job :: "string option"

definition no_scope :: log_scope where
  "no_scope = \<lparr>sc_label = [], sc_worker = [], sc_task = [], sc_job = None\<rparr>"

datatype severity = LevelError | LevelWarning | LevelInfo | LevelDebug

record logger =
  lg_factory :: nat
  lg_scope :: log_scope

definition new_logger :: "nat \<Rightarrow> log_scope list \<Rightarrow> logger" where
  "new_logger factory scopes =
     \<lparr>lg_factory = factory, lg_scope = (case scopes of [] \<Rightarrow> no_scope | s # _ \<Rightarrow> s)\<rparr>"

definition merge_scope :: "log_scope \<Rightarrow> log_scope \<Rightarrow> log_scope" where
  "merge_scope old new =
     \<lparr>sc_label = (if sc_label new \<noteq> [] then sc_label new else sc_label old),
      sc_worker = (if sc_worker new \<noteq> [] then sc_worker new else sc_worker old),
      sc_task = (if sc_task new \<noteq> [] then sc_task new else sc_task old),
      sc_job = (case sc_job new of Some j \<Rightarrow> Some j | None \<Rightarrow> sc_job old)\<rparr>"

definition scope_logger :: "log_scope \<Rightarrow> logger \<Rightarrow> logger" where
  "scope_logger new lg = lg\<lparr>lg_scope := merge_scope (lg_scope lg) new\<rparr>"

datatype stream = Stdout | Stderr

definition level_text :: "severity \<Rightarrow> string" where
  "level_text l = (case l of LevelError \<Rightarrow> ''ERROR'' | LevelWarning \<Rightarrow> ''WARNING''
     | LevelInfo \<Rightarrow> ''INFO'' | LevelDebug \<Rightarrow> ''DEBUG'')"

definition level_stream :: "severity \<Rightarrow> stream" where
  "level_stream l = (case l of LevelError \<Rightarrow> Stderr | LevelWarning \<Rightarrow> Stderr | _ \<Rightarrow> Stdout)"

definition scope_text :: "log_scope \<Rightarrow> string" where
  "scope_text s =
     (if sc_label s \<noteq> [] then sc_label s else ''core'') @
     (if sc_worker s = [] then []
      else ''('' @ sc_worker s @ (if sc_task s \<noteq> [] then '': '' @ sc_task s else []) @
        (case sc_job s of Some j \<Rightarrow> ''{'' @ j @ ''}'' | None \<Rightarrow> []) @ '')'')"

text \<open>What \<open>ConsoleLogFactory\<close> writes; \<open>meta_text\<close> is the first metadata, when it is not empty.\<close>

definition console_log ::
  "environment \<Rightarrow> log_scope \<Rightarrow> severity \<Rightarrow> string \<Rightarrow> string option \<Rightarrow> (stream \<times> string) list" where
  "console_log env s level message meta_text =
     (if level = LevelDebug \<and> \<not> is_debug_enabled env then []
      else
        (let head = ''['' @ scope_text s @ ''] '' @ level_text level @ '': ''; out = level_stream level in
         (out, head @ message) #
           (case meta_text of None \<Rightarrow> [] | Some m \<Rightarrow> [(out, head @ ''metadata: '' @ m)])))"

text \<open>The four level methods of a logger that writes to the console.\<close>

definition log_error :: "environment \<Rightarrow> logger \<Rightarrow> string \<Rightarrow> string option \<Rightarrow> (stream \<times> string) list" where
  "log_error env lg = console_log env (lg_scope lg) LevelError"

definition log_warn :: "environment \<Rightarrow> logger \<Rightarrow> string \<Rightarrow> string option \<Rightarrow> (stream \<times> string) list" where
  "log_warn env lg = console_log env (lg_scope lg) LevelWarning"

definition log_info :: "environment \<Rightarrow> logger \<Rightarrow> string \<Rightarrow> string option \<Rightarrow> (stream \<times> string) list" where
  "log_info env lg = console_log env (lg_scope lg) LevelInfo"

definition log_debug :: "environment \<Rightarrow> logger \<Rightarrow> string \<Rightarrow> string option \<Rightarrow> (stream \<times> string) list" where
  "log_debug env lg = console_log env (lg_scope lg) LevelDebug"

lemma streams_of_levels:
  "fst ` set (log_error env lg m t) = {Stderr}" "fst ` set (log_warn env lg m t) = {Stderr}"
  "fst ` set (log_info env lg m t) = {Stdout}" "fst ` set (log_debug env lg m t) \<subseteq> {Stdout}"
  by (auto simp: log_error_def log_warn_def log_info_def log_debug_def console_log_def level_stream_def Let_def
      split: option.splits)

text \<open>Scoping twice is scoping once with the merged scope.\<close>

lemma scope_twice: "scope_logger b (scope_logger a lg) = scope_logger (merge_scope a b) lg"
  by (auto simp: scope_logger_def merge_scope_def split: option.split)

lemma errors_are_written: "level \<noteq> LevelDebug \<Longrightarrow> console_log env s level message meta_text \<noteq> []"
  by (simp add: console_log_def Let_def)

end
