(* ===== verification/Shared_Options.thy ===== *)
theory Shared_Options
  imports Log_Output Worker "HOL-Library.AList"
begin

text \<open>
  Shared options (pkg/worker/lib.go) with the defaults of pkg/worker/config.go: the options of a
  worker pool, their compilation with its cache, the releasers, the assertion of a pool and the
  utilities made from options.

  Connection pools, event buses and health monitors are numbers.  \<open>lib_state\<close> is what the process
  shares: the cache, the buses created so far, the closed pools, the monitors running.
\<close>

section \<open>Options\<close>

record pool_options =
  po_concurrency :: int
  po_schema :: string
  po_poll_interval :: int
  po_logger :: "logger option"
  po_no_handle_signals :: bool
  po_max_pool_size :: int
  po_max_contiguous_errors :: int
  po_database_url :: string
  po_pg_pool :: "nat option"
  po_no_prepared :: bool
  po_events :: "nat option"
  po_use_node_time :: bool

definition no_pool_options :: pool_options where
  "no_pool_options =
     \<lparr>po_concurrency = 0, po_schema = [], po_poll_interval = 0, po_logger = None,
      po_no_handle_signals = False, po_max_pool_size = 0, po_max_contiguous_errors = 0,
      po_database_url = [], po_pg_pool = None, po_no_prepared = False, po_events = None,
      po_use_node_time = False\<rparr>"

definition or_default :: "int \<Rightarrow> int \<Rightarrow> int" where
  "or_default n d = (if n = 0 then d else n)"

definition apply_default_options :: "environment \<Rightarrow> pool_options \<Rightarrow> pool_options" where
  "apply_default_options env o1 =
     o1\<lparr>po_schema := (if po_schema o1 = [] then env_schema env ''graphile_worker'' else po_schema o1),
        po_poll_interval := or_default (po_poll_interval o1) default_poll_interval,
        po_concurrency := or_default (po_concurrency o1) 1,
        po_max_pool_size := or_default (po_max_pool_size o1) 10,
        po_max_contiguous_errors := or_default (po_max_contiguous_errors o1) (int max_contiguous_errors)\<rparr>"

text \<open>\<open>ToWorkerPoolOptions\<close> copies six of the fields.\<close>

definition to_worker_pool_options :: "configuration \<Rightarrow> pool_options" where
  "to_worker_pool_options c =
     no_pool_options\<lparr>po_concurrency := cn_concurrency c, po_schema := cn_schema c,
       po_poll_interval := cn_poll_interval c, po_no_handle_signals := cn_no_handle_signals c,
       po_no_prepared := cn_no_prepared c, po_use_node_time := cn_use_node_time c\<rparr>"

section \<open>The cache key\<close>

text \<open>\<open>time.Duration.String\<close>, which \<open>%v\<close> prints.\<close>

definition fraction_text :: "nat \<Rightarrow> nat \<Rightarrow> string" where
  "fraction_text digits r =
     (let ds = digits_of r;
          padded = replicate (digits - length ds) (CHR ''0'') @ ds;
          kept = rev (dropWhile (\<lambda>c. c = CHR ''0'') (rev padded))
      in if kept = [] then [] else CHR ''.'' # kept)"

definition duration_text :: "int \<Rightarrow> string" where
  "duration_text d =
     (let u = nat \<bar>d\<bar>; part = (\<lambda>k. digits_of (u div 10 ^ k) @ fraction_text k (u mod 10 ^ k));
          secs = u div 1000000000; mins = secs div 60; hours = mins div 60
      in if d = 0 then ''0s''
         else (if d < 0 then ''-'' else []) @
           (if u < 1000 then digits_of u @ ''ns''
            else if u < 1000000 then part 3 @ [CHR 0xC2, CHR 0xB5, CHR ''s'']
            else if u < 1000000000 then part 6 @ ''ms''
            else (if hours > 0 then digits_of hours @ ''h'' else []) @
                 (if mins > 0 then digits_of (mins mod 60) @ ''m'' else []) @
                 digits_of (secs mod 60) @ fraction_text 9 (u mod 1000000000) @ ''s''))"

definition bool_text :: "bool \<Rightarrow> string" where
  "bool_text b = (if b then ''true'' else ''false'')"

definition generate_cache_key :: "pool_options \<Rightarrow> string" where
  "generate_cache_key o1 =
     ''schema:'' @ po_schema o1 @ ''|concurrency:'' @ itoa (po_concurrency o1) @
     ''|poll:'' @ duration_text (po_poll_interval o1) @ ''|pool:'' @ itoa (po_max_pool_size o1) @
     ''|errors:'' @ itoa (po_max_contiguous_errors o1) @
     ''|hasPgPool:'' @ bool_text (po_pg_pool o1 \<noteq> None) @
     ''|hasEvents:'' @ bool_text (po_events o1 \<noteq> None) @
     ''|useNodeTime:'' @ bool_text (po_use_node_time o1)"

section \<open>Compiled options\<close>

record compiled_options =
  co_events :: nat
  co_logger :: "logger option"
  co_schema :: string
  co_escaped_schema :: string
  co_max_contiguous_errors :: int
  co_max_pool_size :: int
  co_poll_interval :: int
  co_concurrency :: int
  co_use_node_time :: bool
  co_min_reset :: int
  co_max_reset :: int
  co_options :: pool_options
  co_no_prepared :: bool

datatype releaser = ClosePool nat | StopMonitor nat | StopWatchers

record lib_state =
  lb_cache :: "(string \<times> compiled_options) list"
  lb_next_bus :: nat
  lb_closed :: "nat list"
  lb_monitors :: "nat list"
  lb_next_monitor :: nat

definition fresh_lib :: lib_state where
  "fresh_lib = \<lparr>lb_cache = [], lb_next_bus = 0, lb_closed = [], lb_monitors = [], lb_next_monitor = 0\<rparr>"

definition compile_options :: "pool_options \<Rightarrow> nat \<Rightarrow> compiled_options" where
  "compile_options o1 bus =
     \<lparr>co_events = bus, co_logger = po_logger o1, co_schema = po_schema o1,
      co_escaped_schema = CHR 0x22 # po_schema o1 @ [CHR 0x22],
      co_max_contiguous_errors = po_max_contiguous_errors o1, co_max_pool_size = po_max_pool_size o1,
      co_poll_interval = po_poll_interval o1, co_concurrency = po_concurrency o1,
      co_use_node_time = po_use_node_time o1, co_min_reset = 480000000000, co_max_reset = 600000000000,
      co_options = o1, co_no_prepared = po_no_prepared o1\<rparr>"

text \<open>A scope on a nil logger panics: \<open>None\<close>.\<close>

definition apply_scope :: "log_scope option \<Rightarrow> compiled_options \<Rightarrow> compiled_options option" where
  "apply_scope scope c =
     (case scope of
        None \<Rightarrow> Some c
      | Some s \<Rightarrow> map_option (\<lambda>lg. c\<lparr>co_logger := Some (scope_logger s lg)\<rparr>) (co_logger c))"

text \<open>\<open>ProcessSharedOptions\<close> also writes the defaults into the options it is given.\<close>

definition process_shared_options ::
  "environment \<Rightarrow> pool_options \<Rightarrow> log_scope option \<Rightarrow> lib_state
     \<Rightarrow> lib_state \<times> pool_options \<times> compiled_options option" where
  "process_shared_options env o0 scope ls =
     (let o1 = apply_default_options env o0; key = generate_cache_key o1 in
      case map_of (lb_cache ls) key of
        Some c \<Rightarrow> (ls, o1, apply_scope scope c)
      | None \<Rightarrow>
          (let (bus, ls1) = (case po_events o1 of Some b \<Rightarrow> (b, ls)
                             | None \<Rightarrow> (lb_next_bus ls, ls\<lparr>lb_next_bus := lb_next_bus ls + 1\<rparr>));
               c = compile_options o1 bus
           in (ls1\<lparr>lb_cache := (key, c) # lb_cache ls1\<rparr>, o1, apply_scope scope c)))"

definition clear_cache :: "lib_state \<Rightarrow> lib_state" where
  "clear_cache ls = ls\<lparr>lb_cache := []\<rparr>"

section \<open>Releasers\<close>

definition run_releaser :: "releaser \<Rightarrow> lib_state \<Rightarrow> lib_state" where
  "run_releaser r ls =
     (case r of
        ClosePool p \<Rightarrow> ls\<lparr>lb_closed := (if p \<in> set (lb_closed ls) then lb_closed ls else p # lb_closed ls)\<rparr>
      | StopMonitor k \<Rightarrow> ls\<lparr>lb_monitors := remove1 k (lb_monitors ls)\<rparr>
      | StopWatchers \<Rightarrow> ls)"

text \<open>
  \<open>Release\<close> and \<open>ReleaseAll\<close>: the last one added first.  None of the functions the program adds
  returns an error, so neither does the release.
\<close>

definition release_all :: "releaser list \<Rightarrow> lib_state \<Rightarrow> lib_state" where
  "release_all rs ls = fold run_releaser (rev rs) ls"

text \<open>\<open>WithReleasers\<close> and \<open>WithReleasersContext\<close> release whatever the callback returns.\<close>

definition with_releasers ::
  "(releaser list \<Rightarrow> lib_state \<Rightarrow> releaser list \<times> lib_state \<times> 'a) \<Rightarrow> lib_state \<Rightarrow> lib_state \<times> 'a" where
  "with_releasers callback ls =
     (case callback [] ls of (rs, ls', a) \<Rightarrow> (release_all rs ls', a))"

section \<open>Asserting a pool\<close>

datatype lib_error =
    BothPoolAndUrl
  | NoConnectionString
  | NewPoolFailed string
  | NilLogger
  | MigrationFailed string
  | AddJobNotImplemented

text \<open>
  What the pools and the database do: \<open>pw_new\<close> is \<open>pgxpool.New\<close> for a connection string,
  \<open>pw_max_conns\<close> the size a pool was configured with, \<open>pw_migrate\<close> the migrator.
\<close>

record pool_world =
  pw_env :: environment
  pw_new :: "string \<Rightarrow> (string, nat) result"
  pw_max_conns :: "nat \<Rightarrow> int"
  pw_migrate :: "nat \<Rightarrow> string \<Rightarrow> string option"
  pw_ping :: "nat \<Rightarrow> string option"

definition setup_pool_error_handling :: "releaser list \<Rightarrow> lib_state \<Rightarrow> releaser list \<times> lib_state" where
  "setup_pool_error_handling rs ls =
     (let k = lb_next_monitor ls in
      (rs @ [StopMonitor k], ls\<lparr>lb_monitors := k # lb_monitors ls, lb_next_monitor := k + 1\<rparr>))"

text \<open>The warning about the size of the pool panics when the options have no logger.\<close>

definition lib_assert_pool ::
  "pool_world \<Rightarrow> pool_options \<Rightarrow> releaser list \<Rightarrow> lib_state
     \<Rightarrow> releaser list \<times> lib_state \<times> (lib_error, nat) result" where
  "lib_assert_pool pw o0 rs ls0 =
     (case process_shared_options (pw_env pw) o0 None ls0 of
        (ls, o1, compiled) \<Rightarrow>
          (if po_pg_pool o1 \<noteq> None \<and> po_database_url o1 \<noteq> [] then (rs, ls, Inl BothPoolAndUrl)
           else
             (case (case po_pg_pool o1 of
                      Some p \<Rightarrow> Inr (p, rs)
                    | None \<Rightarrow>
                        (case create_database_pool (pw_env pw) (pw_new pw) (po_database_url o1) of
                           Inl None \<Rightarrow> Inl NoConnectionString
                         | Inl (Some e) \<Rightarrow> Inl (NewPoolFailed e)
                         | Inr p \<Rightarrow> Inr (p, rs @ [ClosePool p]))) of
                Inl e \<Rightarrow> (rs, ls, Inl e)
              | Inr (p, rs1) \<Rightarrow>
                  (if pw_max_conns pw p < co_concurrency (the compiled) \<and> co_logger (the compiled) = None
                   then (rs1, ls, Inl NilLogger)
                   else
                     (case setup_pool_error_handling rs1 ls of (rs2, ls2) \<Rightarrow> (rs2, ls2, Inr p))))))"

section \<open>Utilities from options\<close>

record utils =
  ut_compiled :: compiled_options
  ut_pool :: nat
  ut_releasers :: "releaser list"

definition placeholder_add_job :: "lib_error option" where
  "placeholder_add_job = Some AddJobNotImplemented"

definition get_utils_and_releasers ::
  "pool_world \<Rightarrow> pool_options \<Rightarrow> log_scope option \<Rightarrow> lib_state \<Rightarrow> lib_state \<times> (lib_error, utils) result" where
  "get_utils_and_releasers pw o0 scope ls0 =
     (case process_shared_options (pw_env pw) o0 scope ls0 of
        (ls, o1, None) \<Rightarrow> (ls, Inl NilLogger)
      | (ls, o1, Some compiled) \<Rightarrow>
          with_releasers (\<lambda>rs ls1.
            case lib_assert_pool pw o1 rs ls1 of
              (rs2, ls2, Inl e) \<Rightarrow> (rs2, ls2, Inl e)
            | (rs2, ls2, Inr p) \<Rightarrow>
                (case pw_migrate pw p (co_schema compiled) of
                   Some e \<Rightarrow> (rs2, ls2, Inl (MigrationFailed e))
                 | None \<Rightarrow>
                     (rs2, ls2, Inr \<lparr>ut_compiled = compiled, ut_pool = p, ut_releasers = rs2\<rparr>))) ls)"

section \<open>What the cache shares\<close>

lemma defaults_twice: "apply_default_options env (apply_default_options env o1) = apply_default_options env o1"
  by (simp add: apply_default_options_def or_default_def default_poll_interval_def max_contiguous_errors_def
      env_schema_def)

lemma key_after_defaults:
  "generate_cache_key (apply_default_options env
     (o1\<lparr>po_events := map_option f (po_events o1), po_pg_pool := map_option g (po_pg_pool o1),
         po_logger := lg, po_no_prepared := np, po_database_url := url, po_no_handle_signals := sig\<rparr>))
   = generate_cache_key (apply_default_options env o1)"
  by (simp add: generate_cache_key_def apply_default_options_def)

lemma processed_is_cached:
  "process_shared_options env o1 None ls = (ls1, o1', Some c) \<Longrightarrow>
     o1' = apply_default_options env o1 \<and> map_of (lb_cache ls1) (generate_cache_key o1') = Some c"
  by (auto simp: process_shared_options_def Let_def apply_scope_def split: option.splits)

text \<open>
  Options that differ only in their event bus, their connection pool, their logger, the use of
  prepared statements, the database or the handling of signals share one compilation: the second
  pool is given the events, the logger and the prepared statements of the first.
\<close>

theorem cache_shares_event_bus:
  assumes "po_events o1 = Some bus" "map_of (lb_cache ls) (generate_cache_key (apply_default_options env o1)) = None"
    and "process_shared_options env o1 None ls = (ls1, o1', Some c)"
    and "o2 = o1\<lparr>po_events := map_option f (po_events o1), po_pg_pool := map_option g (po_pg_pool o1),
         po_logger := lg, po_no_prepared := np, po_database_url := url, po_no_handle_signals := sig\<rparr>"
  shows "process_shared_options env o2 None ls1 = (ls1, apply_default_options env o2, Some c)
    \<and> co_events c = bus \<and> co_logger c = po_logger o1 \<and> co_no_prepared c = po_no_prepared o1"
proof -
  have hit: "map_of (lb_cache ls1) (generate_cache_key (apply_default_options env o1)) = Some c"
    using processed_is_cached [OF assms(3)] by auto
  have "process_shared_options env o2 None ls1 = (ls1, apply_default_options env o2, Some c)"
    using hit key_after_defaults [where env = env and f = f and ?o1.0 = o1 and g = g and lg = lg and np = np and url = url and sig = sig]
    by (simp add: process_shared_options_def assms(4) apply_scope_def Let_def)
  moreover have "po_events (apply_default_options env o1) = Some bus"
    using assms(1) by (simp add: apply_default_options_def)
  ultimately show ?thesis using assms(2,3)
    by (auto simp: process_shared_options_def Let_def apply_scope_def compile_options_def
        apply_default_options_def)
qed

lemma cache_shares_event_bus_witness:
  "\<exists>ls1 c. process_shared_options (\<lambda>v. []) (no_pool_options\<lparr>po_events := Some 7\<rparr>) None fresh_lib
       = (ls1, apply_default_options (\<lambda>v. []) (no_pool_options\<lparr>po_events := Some 7\<rparr>), Some c) \<and>
     process_shared_options (\<lambda>v. []) (no_pool_options\<lparr>po_events := Some 8, po_no_prepared := True\<rparr>) None ls1
       = (ls1, apply_default_options (\<lambda>v. []) (no_pool_options\<lparr>po_events := Some 8, po_no_prepared := True\<rparr>), Some c) \<and>
     co_events c = 7 \<and> \<not> co_no_prepared c"
proof -
  let ?o = "no_pool_options\<lparr>po_events := Some 7\<rparr>"
  have none: "map_of (lb_cache fresh_lib) (generate_cache_key (apply_default_options (\<lambda>v. []) ?o)) = None"
    by (simp add: fresh_lib_def)
  obtain ls1 c where p: "process_shared_options (\<lambda>v. []) ?o None fresh_lib
      = (ls1, apply_default_options (\<lambda>v. []) ?o, Some c)"
    using none by (simp add: process_shared_options_def Let_def apply_scope_def split_beta)
  show ?thesis
    using cache_shares_event_bus [OF _ none p refl, where f = "\<lambda>b. 8" and g = id and lg = None and np = True
      and url = "[]" and sig = False and bus = 7] p
    by (intro exI [of _ ls1] exI [of _ c]) (simp add: no_pool_options_def)
qed

end
