(* ===== verification/Task_Discovery.thy ===== *)
theory Task_Discovery
  imports Shared_Options
begin

text \<open>
  Loading the tasks of a runner (pkg/runner/tasks.go).

  A plugin is a list of exported names.  \<open>plugin.Lookup\<close> gives a function as a value of its
  unnamed function type, and a variable as a pointer to it.  The walk of a directory is the list
  of its paths, in the order \<open>WalkDir\<close> visits them, each with whether it is a directory or the
  error met at it.
\<close>

section \<open>Plugins\<close>

datatype go_type = NamedType string | FuncType nat "string list" | PointerTo go_type

datatype export = ExportedFunc nat "string list" handler | ExportedVar go_type handler

type_synonym plugin = "(string \<times> export) list"

definition plugin_lookup :: "string \<Rightarrow> plugin \<Rightarrow> (go_type \<times> handler) option" where
  "plugin_lookup name p =
     (case map_of p name of
        None \<Rightarrow> None
      | Some (ExportedFunc ins outs h) \<Rightarrow> Some (FuncType ins outs, h)
      | Some (ExportedVar t h) \<Rightarrow> Some (PointerTo t, h))"

text \<open>The assertion \<open>symbol.(worker.TaskHandler)\<close> asks for the named type.\<close>

definition as_task_handler :: "go_type \<times> handler \<Rightarrow> handler option" where
  "as_task_handler = (\<lambda>(t, h). if t = NamedType ''worker.TaskHandler'' then Some h else None)"

definition is_valid_task_handler :: "go_type \<Rightarrow> bool" where
  "is_valid_task_handler t =
     (case t of FuncType ins outs \<Rightarrow> ins = 3 \<and> outs = [''error''] | _ \<Rightarrow> False)"

datatype task_error =
    TaskListIsNil
  | HandlerIsNil string
  | NoSuchDirectory string
  | WalkFailed string
  | PluginOpenFailed string string
  | NoHandlerInPlugin string
  | NoTaskSourceGiven
  | NoTasksFound

type_synonym task_map = "(string \<times> handler) list"

text \<open>The part of a path after its last slash, and a name without the ending \<open>.so\<close>.\<close>

definition path_base :: "string \<Rightarrow> string" where
  "path_base path = rev (takeWhile (\<lambda>c. c \<noteq> CHR ''/'') (rev path))"

definition trim_so :: "string \<Rightarrow> string" where
  "trim_so name = (if 3 \<le> length name \<and> drop (length name - 3) name = ''.so''
                   then take (length name - 3) name else name)"

fun first_handler :: "(handler option) list \<Rightarrow> handler option" where
  "first_handler [] = None"
| "first_handler (h # hs) = (case h of Some x \<Rightarrow> Some x | None \<Rightarrow> first_handler hs)"

definition load_plugin_file ::
  "(string \<Rightarrow> (string, plugin) result) \<Rightarrow> string \<Rightarrow> task_map \<Rightarrow> (task_error, task_map) result" where
  "load_plugin_file open_plugin path tasks =
     (case open_plugin path of
        Inl m \<Rightarrow> Inl (PluginOpenFailed path m)
      | Inr p \<Rightarrow>
          (let task = to_lower (trim_so (path_base path));
               named = (\<lambda>name. Option.bind (plugin_lookup name p) as_task_handler);
               called = (case plugin_lookup ''Task'' p of
                           None \<Rightarrow> None
                         | Some (t, h) \<Rightarrow> if is_valid_task_handler t then Some h else None)
           in case first_handler [named ''Handler'', named ''TaskHandler'', called] of
                None \<Rightarrow> Inl (NoHandlerInPlugin path)
              | Some h \<Rightarrow> Inr (AList.update task h tasks)))"

section \<open>Task lists and directories\<close>

text \<open>A walk entry: the path, and an error or whether it is a directory.\<close>

type_synonym walk_entry = "string \<times> (string, bool) result"

fun walk_tasks ::
  "(string \<Rightarrow> (string, plugin) result) \<Rightarrow> walk_entry list \<Rightarrow> task_map \<Rightarrow> (task_error, task_map) result" where
  "walk_tasks open_plugin [] tasks = Inr tasks"
| "walk_tasks open_plugin ((path, Inl m) # es) tasks = Inl (WalkFailed m)"
| "walk_tasks open_plugin ((path, Inr is_dir) # es) tasks =
     (let ext = path_ext (path_base path) in
      if is_dir \<or> ext \<notin> set [''.go'', ''.so''] then walk_tasks open_plugin es tasks
      else if ext = ''.so'' then then_ok (load_plugin_file open_plugin path tasks) (walk_tasks open_plugin es)
      else walk_tasks open_plugin es tasks)"

definition load_from_directory ::
  "(string \<Rightarrow> walk_entry list option) \<Rightarrow> (string \<Rightarrow> (string, plugin) result) \<Rightarrow> string \<Rightarrow> task_map
     \<Rightarrow> (task_error, task_map) result" where
  "load_from_directory walk open_plugin dir tasks =
     (case walk dir of None \<Rightarrow> Inl (NoSuchDirectory dir) | Some es \<Rightarrow> walk_tasks open_plugin es tasks)"

text \<open>A task list is a map from names to handlers, of which some may be nil; \<open>None\<close> is a nil map.\<close>

type_synonym task_list = "(string \<times> handler option) list"

fun add_tasks :: "task_list \<Rightarrow> task_map \<Rightarrow> (task_error, task_map) result" where
  "add_tasks [] tasks = Inr tasks"
| "add_tasks ((name, None) # ts) tasks = Inl (HandlerIsNil name)"
| "add_tasks ((name, Some h) # ts) tasks = add_tasks ts (AList.update name h tasks)"

definition load_from_task_list :: "task_list option \<Rightarrow> task_map \<Rightarrow> (task_error, task_map) result" where
  "load_from_task_list given tasks = (case given of None \<Rightarrow> Inl TaskListIsNil | Some ts \<Rightarrow> add_tasks ts tasks)"

definition has_task :: "string \<Rightarrow> task_map \<Rightarrow> bool" where
  "has_task name tasks \<longleftrightarrow> map_of tasks name \<noteq> None"

definition assert_task_list ::
  "(string \<Rightarrow> walk_entry list option) \<Rightarrow> (string \<Rightarrow> (string, plugin) result) \<Rightarrow> task_list option \<Rightarrow> string
     \<Rightarrow> releaser list \<Rightarrow> releaser list \<times> (task_error, task_map) result" where
  "assert_task_list walk open_plugin given dir rs =
     (let nonempty = (\<lambda>r. then_ok r (\<lambda>ts. if ts = [] then Inl NoTasksFound else Inr ts)) in
      case given of
        Some ts \<Rightarrow> (rs, nonempty (load_from_task_list given []))
      | None \<Rightarrow>
          if dir \<noteq> [] then
            (case load_from_directory walk open_plugin dir [] of
               Inl e \<Rightarrow> (rs, Inl e)
             | Inr ts \<Rightarrow> (rs @ [StopWatchers], nonempty (Inr ts)))
          else (rs, Inl NoTaskSourceGiven))"

section \<open>What is loaded\<close>

text \<open>\<open>Lookup\<close> never gives a value of the named type, so only a function \<open>Task\<close> is ever loaded.\<close>

lemma named_symbols_never_load: "Option.bind (plugin_lookup name p) as_task_handler = None"
  by (auto simp: plugin_lookup_def as_task_handler_def split: option.split export.split)

lemma plugin_needs_task_function:
  "load_plugin_file open_plugin path tasks = Inr tasks' \<longleftrightarrow>
     (\<exists>p h. open_plugin path = Inr p \<and> map_of p ''Task'' = Some (ExportedFunc 3 [''error''] h) \<and>
        tasks' = AList.update (to_lower (trim_so (path_base path))) h tasks)"
proof (cases "open_plugin path")
  case (Inr p)
  have "load_plugin_file open_plugin path tasks =
      (case plugin_lookup ''Task'' p of
         Some (FuncType ins outs, h) \<Rightarrow>
           if ins = 3 \<and> outs = [''error''] then Inr (AList.update (to_lower (trim_so (path_base path))) h tasks)
           else Inl (NoHandlerInPlugin path)
       | _ \<Rightarrow> Inl (NoHandlerInPlugin path))"
    by (simp add: load_plugin_file_def Inr named_symbols_never_load is_valid_task_handler_def
        split: option.split prod.split go_type.split)
  then show ?thesis
    using Inr by (auto simp: plugin_lookup_def split: option.splits export.splits if_splits)
qed (simp add: load_plugin_file_def)

lemma add_tasks_spec:
  "add_tasks ts tasks = Inr tasks' \<Longrightarrow> map_of tasks' name =
     (case map_of (rev ts) name of None \<Rightarrow> map_of tasks name | Some h \<Rightarrow> h)"
proof (induction ts tasks rule: add_tasks.induct)
  case (3 n h ts tasks)
  then show ?case by (auto simp: update_conv' map_add_def split: option.splits)
qed auto

end
