(* ===== verification/Runner.thy ===== *)
theory Runner
  imports Task_Discovery Cron_Scheduler Cron_Parser_Facts
begin

text \<open>
  Runners: pkg/runner/options.go and runner.go, and the run-once functions of
  pkg/worker/runner.go and compat.go.

  The library state says which connection pools are closed; every statement on a closed pool
  fails to acquire a connection.  The database, the plugins and the directories are arguments.
\<close>

section \<open>Options\<close>

record runner_options =
  ro_task_list :: "task_list option"
  ro_task_directory :: string
  ro_connection_string :: string
  ro_pg_pool :: "nat option"
  ro_max_pool_size :: int
  ro_concurrency :: int
  ro_logger :: "logger option"
  ro_schema :: string
  ro_poll_interval :: int
  ro_worker_id :: string
  ro_events :: "nat option"
  ro_crontab :: string
  ro_crontab_file :: string
  ro_parsed_items :: nat

definition no_runner_options :: runner_options where
  "no_runner_options =
     \<lparr>ro_task_list = None, ro_task_directory = [], ro_connection_string = [], ro_pg_pool = None,
      ro_max_pool_size = 0, ro_concurrency = 0, ro_logger = None, ro_schema = [],
      ro_poll_interval = 0, ro_worker_id = [], ro_events = None, ro_crontab = [],
      ro_crontab_file = [], ro_parsed_items = 0\<rparr>"

datatype runner_error =
    NoTaskSource
  | BothTaskSources
  | NoDatabase
  | BothDatabases
  | BadConnectionString string
  | PoolSizeTooLarge int
  | PoolNotCreated string
  | PingFailed string
  | TasksNotLoaded task_error
  | RunnerMigrationFailed string
  | CrontabNotParsed parse_error
  | CrontabFileUnsupported
  | ParsedItemsUnsupported
  | CronNotStarted sched_error
  | AlreadyStopped
  | StopTimeout
  | RunnerIsStopped
  | TaskDirectoryUnsupported
  | RunnerNilPool
  | RunnerNilTasks
  | RunnerWorkerError worker_error

record runner_world =
  rw_pools :: pool_world
  rw_parse_config :: "string \<Rightarrow> string option"
  rw_new_config :: "string \<Rightarrow> int \<Rightarrow> (string, nat) result"
  rw_walk :: "string \<Rightarrow> walk_entry list option"
  rw_plugin :: "string \<Rightarrow> (string, plugin) result"
  rw_json :: json_object
  rw_order :: map_order
  rw_rfc3339 :: "int \<Rightarrow> string"

text \<open>\<open>safeInt32\<close> checks the upper bound only; below the lower one the conversion wraps.\<close>

definition safe_int32 :: "int \<Rightarrow> int option" where
  "safe_int32 v = (if v > 2147483647 then None else Some (sint (word_of_int v :: 32 word)))"

definition validate_options :: "environment \<Rightarrow> runner_options \<Rightarrow> runner_error option" where
  "validate_options env o1 =
     (if ro_task_list o1 = None \<and> ro_task_directory o1 = [] then Some NoTaskSource
      else if ro_task_list o1 \<noteq> None \<and> ro_task_directory o1 \<noteq> [] then Some BothTaskSources
      else if ro_pg_pool o1 = None \<and> ro_connection_string o1 = [] \<and> env ''DATABASE_URL'' = [] then Some NoDatabase
      else if ro_pg_pool o1 \<noteq> None \<and> ro_connection_string o1 \<noteq> [] then Some BothDatabases
      else None)"

definition set_defaults :: "logger \<Rightarrow> runner_options \<Rightarrow> runner_options" where
  "set_defaults default_logger o1 =
     o1\<lparr>ro_concurrency := or_default (ro_concurrency o1) 1,
        ro_max_pool_size := or_default (ro_max_pool_size o1) 10,
        ro_logger := (if ro_logger o1 = None then Some default_logger else ro_logger o1),
        ro_poll_interval := or_default (ro_poll_interval o1) 2000000000,
        ro_schema := (if ro_schema o1 = [] then ''graphile_worker'' else ro_schema o1)\<rparr>"

text \<open>The warning about a small pool is left out; the logger it needs has its default.\<close>

definition assert_pool ::
  "runner_world \<Rightarrow> runner_options \<Rightarrow> releaser list \<Rightarrow> releaser list \<times> (runner_error, nat \<times> bool) result" where
  "assert_pool rw o1 rs =
     (let pinged = (\<lambda>rs p owned. case pw_ping (rw_pools rw) p of
                      Some m \<Rightarrow> (rs, Inl (PingFailed m)) | None \<Rightarrow> (rs, Inr (p, owned))) in
      case ro_pg_pool o1 of
        Some p \<Rightarrow> pinged rs p False
      | None \<Rightarrow>
          (let url = (if ro_connection_string o1 = [] then pw_env (rw_pools rw) ''DATABASE_URL''
                      else ro_connection_string o1) in
           case rw_parse_config rw url of
             Some m \<Rightarrow> (rs, Inl (BadConnectionString m))
           | None \<Rightarrow>
               (case safe_int32 (ro_max_pool_size o1) of
                  None \<Rightarrow> (rs, Inl (PoolSizeTooLarge (ro_max_pool_size o1)))
                | Some conns \<Rightarrow>
                    (case rw_new_config rw url conns of
                       Inl m \<Rightarrow> (rs, Inl (PoolNotCreated m))
                     | Inr p \<Rightarrow> pinged (rs @ [ClosePool p]) p True))))"

section \<open>Processing the options\<close>

record processed =
  pr_tasks :: task_map
  pr_pool :: nat
  pr_owned :: bool
  pr_releasers :: "releaser list"
  pr_options :: runner_options

definition process_options ::
  "runner_world \<Rightarrow> logger \<Rightarrow> runner_options \<Rightarrow> lib_state \<Rightarrow> lib_state \<times> (runner_error, processed) result" where
  "process_options rw default_logger o0 ls =
     (case validate_options (pw_env (rw_pools rw)) o0 of
        Some e \<Rightarrow> (ls, Inl e)
      | None \<Rightarrow>
          (let o1 = set_defaults default_logger o0 in
           with_releasers (\<lambda>rs ls1.
             case assert_pool rw o1 rs of
               (rs1, Inl e) \<Rightarrow> (rs1, ls1, Inl e)
             | (rs1, Inr (p, owned)) \<Rightarrow>
                 (case assert_task_list (rw_walk rw) (rw_plugin rw) (ro_task_list o1) (ro_task_directory o1) rs1 of
                    (rs2, Inl e) \<Rightarrow> (rs2, ls1, Inl (TasksNotLoaded e))
                  | (rs2, Inr tasks) \<Rightarrow>
                      (case pw_migrate (rw_pools rw) p (ro_schema o1) of
                         Some m \<Rightarrow> (rs2, ls1, Inl (RunnerMigrationFailed m))
                       | None \<Rightarrow>
                           (rs2, ls1, Inr \<lparr>pr_tasks = tasks, pr_pool = p, pr_owned = owned,
                              pr_releasers = rs2, pr_options = o1\<rparr>)))) ls))"

definition run_migrations ::
  "runner_world \<Rightarrow> logger \<Rightarrow> runner_options \<Rightarrow> lib_state \<Rightarrow> lib_state \<times> runner_error option" where
  "run_migrations rw default_logger o0 ls =
     (let o1 = o0\<lparr>ro_task_list := Some [], ro_task_directory := []\<rparr> in
      case validate_options (pw_env (rw_pools rw)) o1 of
        Some e \<Rightarrow> (ls, Some e)
      | None \<Rightarrow>
          (let o2 = set_defaults default_logger o1 in
           with_releasers (\<lambda>rs ls1.
             case assert_pool rw o2 rs of
               (rs1, Inl e) \<Rightarrow> (rs1, ls1, Some e)
             | (rs1, Inr (p, owned)) \<Rightarrow>
                 (rs1, ls1, map_option RunnerMigrationFailed (pw_migrate (rw_pools rw) p (ro_schema o2)))) ls))"

section \<open>Running once\<close>

text \<open>The worker and the scheduler work on a pool that may have been closed.\<close>

definition on_pool :: "lib_state \<Rightarrow> nat \<Rightarrow> wstate \<Rightarrow> wstate" where
  "on_pool ls p st = st\<lparr>ws_pool_closed := p \<in> set (lb_closed ls)\<rparr>"

definition cron_on_pool :: "lib_state \<Rightarrow> nat \<Rightarrow> sstate \<Rightarrow> sstate" where
  "cron_on_pool ls p s = s\<lparr>ss_pool_closed := p \<in> set (lb_closed ls)\<rparr>"

definition runner_worker :: "string \<Rightarrow> worker_option list \<Rightarrow> processed \<Rightarrow> wstate \<Rightarrow> worker \<times> wstate" where
  "runner_worker generated_id opts pr st =
     (let o1 = pr_options pr;
          all = opts @ (if ro_worker_id o1 \<noteq> [] then [with_worker_id (ro_worker_id o1)] else [])
      in fold (\<lambda>(t, h). register_task t h) (pr_tasks pr) (new_worker generated_id (ro_schema o1) all, st))"

text \<open>
  The workers of a concurrency above one are one worker running several times at once; they are
  taken one after the other, which is one of the orders that may occur.  The first error counts; a
  panic in one of their goroutines ends the process.
\<close>

fun run_times :: "nat \<Rightarrow> worker \<Rightarrow> wstate \<Rightarrow> (wstate \<times> worker_error ended) option" where
  "run_times 0 wk st = Some (st, Returned None)"
| "run_times (Suc n) wk st =
     (case run_once wk st of
        None \<Rightarrow> None
      | Some (st1, Panicked m) \<Rightarrow> Some (st1, Panicked m)
      | Some (st1, Returned e1) \<Rightarrow>
          (case run_times n wk st1 of
             None \<Rightarrow> None
           | Some (st2, Panicked m) \<Rightarrow> Some (st2, Panicked m)
           | Some (st2, Returned e2) \<Rightarrow> Some (st2, Returned (if e1 \<noteq> None then e1 else e2))))"

definition runner_run_once ::
  "runner_world \<Rightarrow> logger \<Rightarrow> runner_options \<Rightarrow> string \<Rightarrow> lib_state \<Rightarrow> wstate
     \<Rightarrow> (lib_state \<times> wstate \<times> runner_error ended) option" where
  "runner_run_once rw default_logger o0 generated_id ls st0 =
     (case process_options rw default_logger o0 ls of
        (ls1, Inl e) \<Rightarrow> Some (ls1, st0, Returned (Some e))
      | (ls1, Inr pr) \<Rightarrow>
          (case runner_worker generated_id
                  [with_poll_interval (ro_poll_interval (pr_options pr)), with_continuous False] pr st0 of
             (wk, st) \<Rightarrow>
               (let n = ro_concurrency (pr_options pr); st1 = on_pool ls1 (pr_pool pr) st in
                case (if n \<le> 1 then run_once wk st1 else run_times (nat n) wk st1) of
                  None \<Rightarrow> None
                | Some (st2, how) \<Rightarrow>
                    Some (release_all (pr_releasers pr) ls1, st2, map_ended RunnerWorkerError how))))"

text \<open>\<open>RunTaskListOnce\<close> of the worker package; the schema's default ignores the environment.\<close>

definition once_worker_id :: "nat list option \<Rightarrow> int \<Rightarrow> string" where
  "once_worker_id random_bytes unix_nano =
     (case random_bytes of
        Some bs \<Rightarrow> ''worker-once-'' @ hex_encode bs
      | None \<Rightarrow> ''worker-once-'' @ itoa unix_nano)"

definition run_task_list_once ::
  "(string \<times> handler) list option \<Rightarrow> nat option \<Rightarrow> string \<Rightarrow> string \<Rightarrow> nat list option \<Rightarrow> int \<Rightarrow> lib_state
     \<Rightarrow> wstate \<Rightarrow> (wstate \<times> runner_error ended) option" where
  "run_task_list_once tasks pool schema worker_id random unix_nano ls st0 =
     (case (pool, tasks) of
        (None, _) \<Rightarrow> Some (st0, Returned (Some RunnerNilPool))
      | (Some p, None) \<Rightarrow> Some (st0, Returned (Some RunnerNilTasks))
      | (Some p, Some ts) \<Rightarrow>
          (let i = (if worker_id = [] then once_worker_id random unix_nano else worker_id);
               s = (if schema = [] then ''graphile_worker'' else schema)
           in case fold (\<lambda>(t, h). register_task t h) ts (new_worker [] s [with_worker_id i], st0) of
                (wk, st) \<Rightarrow>
                  map_option (\<lambda>(st', how). (st', map_ended RunnerWorkerError how)) (run_once wk (on_pool ls p st))))"

definition validate_once :: "environment \<Rightarrow> runner_options \<Rightarrow> runner_error option" where
  "validate_once env o1 =
     (if ro_task_list o1 = None \<and> ro_task_directory o1 = [] then Some NoTaskSource
      else if ro_task_list o1 \<noteq> None \<and> ro_task_directory o1 \<noteq> [] then Some BothTaskSources
      else if ro_connection_string o1 = [] \<and> ro_pg_pool o1 = None \<and> env ''DATABASE_URL'' = [] \<and>
        env ''PGDATABASE'' = [] then Some NoDatabase
      else if ro_connection_string o1 \<noteq> [] \<and> ro_pg_pool o1 \<noteq> None then Some BothDatabases
      else None)"

text \<open>
  \<open>RunOnce\<close> of the worker package.  A pool it makes is closed when it returns.  Calling a nil
  handler panics.
\<close>

definition nil_handler :: handler where
  "nil_handler payload job st = (st, Panicked ''invalid memory address or nil pointer dereference'')"

definition worker_run_once ::
  "pool_world \<Rightarrow> runner_options \<Rightarrow> nat list option \<Rightarrow> int \<Rightarrow> lib_state \<Rightarrow> wstate
     \<Rightarrow> (lib_state \<times> wstate \<times> runner_error ended) option" where
  "worker_run_once pw o1 random unix_nano ls st =
     (case validate_once (pw_env pw) o1 of
        Some e \<Rightarrow> Some (ls, st, Returned (Some e))
      | None \<Rightarrow>
          (case (case ro_pg_pool o1 of
                   Some p \<Rightarrow> Inr (p, [])
                 | None \<Rightarrow>
                     (case create_database_pool (pw_env pw) (pw_new pw) (ro_connection_string o1) of
                        Inl None \<Rightarrow> Inl NoDatabase
                      | Inl (Some m) \<Rightarrow> Inl (PoolNotCreated m)
                      | Inr p \<Rightarrow> Inr (p, [ClosePool p]))) of
             Inl e \<Rightarrow> Some (ls, st, Returned (Some e))
           | Inr (p, rs) \<Rightarrow>
               (if ro_task_directory o1 \<noteq> [] then
                  Some (release_all rs ls, st, Returned (Some TaskDirectoryUnsupported))
                else
                  map_option (\<lambda>(st', how). (release_all rs ls, st', how))
                    (run_task_list_once
                       (map_option (map (\<lambda>(n, h). (n, case h of Some x \<Rightarrow> x | None \<Rightarrow> nil_handler)))
                         (ro_task_list o1))
                       (Some p) (ro_schema o1) (ro_worker_id o1) random unix_nano ls st))))"

section \<open>Releasers with errors\<close>

text \<open>
  The releasers of pkg/runner/options.go: functions on the world that may fail.  \<open>ReleaseAll\<close> calls them all,
  the last one first, and joins their errors; \<open>WithReleasers\<close> logs such an error and returns the callback's.
\<close>

type_synonym 'w release_func = "'w \<Rightarrow> 'w \<times> string option"

definition add_releaser :: "'w release_func \<Rightarrow> 'w release_func list \<Rightarrow> 'w release_func list" where
  "add_releaser r rs = rs @ [r]"

fun release_each :: "'w release_func list \<Rightarrow> 'w \<Rightarrow> string list \<Rightarrow> 'w \<times> string list" where
  "release_each [] w errors = (w, errors)"
| "release_each (r # rs) w errors =
     (case r w of
        (w', Some e) \<Rightarrow> release_each rs w' (errors @ [e])
      | (w', None) \<Rightarrow> release_each rs w' errors)"

fun joined :: "string list \<Rightarrow> string" where
  "joined [] = []"
| "joined [e] = e"
| "joined (e # e' # es) = e @ ''; '' @ joined (e' # es)"

definition release_all_funcs :: "'w release_func list \<Rightarrow> 'w \<Rightarrow> 'w \<times> string option" where
  "release_all_funcs rs w =
     (case release_each (rev rs) w [] of
        (w', errors) \<Rightarrow> (w', if errors \<noteq> [] then Some (''release errors: '' @ joined errors) else None))"

definition with_release_funcs ::
  "('w release_func list \<Rightarrow> 'w \<Rightarrow> 'w release_func list \<times> 'w \<times> 'r) \<Rightarrow> 'w \<Rightarrow> 'w \<times> string option \<times> 'r" where
  "with_release_funcs callback w =
     (case callback [] w of
        (rs, w1, r) \<Rightarrow>
          (case release_all_funcs rs w1 of
             (w2, err) \<Rightarrow> (w2, map_option (\<lambda>e. ''Failed to release resources: '' @ e) err, r)))"

lemma release_each_runs_all: "fst (release_each rs w errors) = fold (\<lambda>r w. fst (r w)) rs w"
  by (induction rs arbitrary: w errors) (auto split: prod.split option.split)

text \<open>A releaser that fails stops none of the others, and its error is no error of the callback.\<close>

lemma failing_releaser_stops_none:
  assumes "callback [] w = (rs, w1, r)"
  shows "fst (with_release_funcs callback w) = foldr (\<lambda>r w. fst (r w)) rs w1" "snd (snd (with_release_funcs callback w)) = r"
  using release_each_runs_all [of "rev rs" w1 "[]"]
  by (auto simp: with_release_funcs_def release_all_funcs_def assms foldr_conv_fold split: prod.splits)

section \<open>A running runner\<close>

datatype runner_releaser = CloseOwnedPool | StopCron

record runner =
  rn_worker :: worker
  rn_pool :: nat
  rn_events :: nat
  rn_stopped :: bool
  rn_stop_events :: nat
  rn_complete :: "worker_error option list"
  rn_releasers :: "runner_releaser list"
  rn_cron :: "sstate option"

definition get_parsed_cron_items ::
  "runner_world \<Rightarrow> runner_options \<Rightarrow> (runner_error, parsed_cron_item list) outcome" where
  "get_parsed_cron_items rw o1 =
     (if ro_crontab o1 \<noteq> [] then
        (case parse_crontab (rw_json rw) (rw_order rw) (ro_crontab o1) of
           None \<Rightarrow> None
         | Some (Inl e) \<Rightarrow> Some (Inl (CrontabNotParsed e))
         | Some (Inr items) \<Rightarrow> Some (Inr items))
      else if ro_crontab_file o1 \<noteq> [] then Some (Inl CrontabFileUnsupported)
      else if ro_parsed_items o1 > 0 then Some (Inl ParsedItemsUnsupported)
      else Some (Inr []))"

text \<open>\<open>utils\<close>, the zones and \<open>node\<close> are the scheduler's view of the runner's pool and clocks.\<close>

definition run_cron ::
  "runner_world \<Rightarrow> runner_options \<Rightarrow> location \<Rightarrow> location \<Rightarrow> nat \<Rightarrow> parsed_cron_item list
     \<Rightarrow> (parsed_cron_item list \<Rightarrow> sstate) \<Rightarrow> (runner_error, sstate) result" where
  "run_cron rw o1 loc pg_loc p items fresh =
     (let on_start = list_ex (\<lambda>item. backfill (pci_options item)) items;
          c = new_scheduler (ro_schema o1) on_start 10000000000
                (new_worker_utils (Some p) (ro_schema o1)) loc pg_loc False
      in case start_scheduler c (rw_rfc3339 rw) (fresh items) of
           (s, Inl e) \<Rightarrow> Inl (CronNotStarted e)
         | (s, Inr _) \<Rightarrow> Inr s)"

definition runner_run ::
  "runner_world \<Rightarrow> logger \<Rightarrow> runner_options \<Rightarrow> string \<Rightarrow> location \<Rightarrow> location
     \<Rightarrow> (parsed_cron_item list \<Rightarrow> sstate) \<Rightarrow> lib_state \<Rightarrow> wstate
     \<Rightarrow> (lib_state \<times> wstate \<times> (runner_error, runner) result) option" where
  "runner_run rw default_logger o0 generated_id loc pg_loc fresh ls st0 =
     (case process_options rw default_logger o0 ls of
        (ls1, Inl e) \<Rightarrow> Some (ls1, st0, Inl e)
      | (ls1, Inr pr) \<Rightarrow>
          (let o1 = pr_options pr;
               (bus, ls2) = (case ro_events o0 of Some b \<Rightarrow> (b, ls1)
                             | None \<Rightarrow> (lb_next_bus ls1, ls1\<lparr>lb_next_bus := lb_next_bus ls1 + 1\<rparr>));
               (wk, st) = runner_worker generated_id
                            [with_poll_interval (ro_poll_interval o1), with_event_bus True] pr st0
           in case get_parsed_cron_items rw o1 of
                None \<Rightarrow> None
              | Some (Inl e) \<Rightarrow> Some (ls2, st, Inl e)
              | Some (Inr items) \<Rightarrow>
                  (case (if length items > 0
                         then map_sum id Some (run_cron rw o1 loc pg_loc (pr_pool pr) items
                            (\<lambda>items. cron_on_pool ls2 (pr_pool pr) (fresh items)))
                         else Inr None) of
                     Inl e \<Rightarrow> Some (ls2, st, Inl e)
                   | Inr cron \<Rightarrow>
                       Some (ls2, on_pool ls2 (pr_pool pr) st,
                         Inr \<lparr>rn_worker = wk, rn_pool = pr_pool pr, rn_events = bus, rn_stopped = False,
                           rn_stop_events = 0, rn_complete = [],
                           rn_releasers = (if pr_owned pr then [CloseOwnedPool] else []) @
                             (if cron \<noteq> None then [StopCron] else []),
                           rn_cron = cron\<rparr>))))"

text \<open>
  The end of the worker's goroutine: the result goes into the channel of one place, then the
  resources are released in the order they were added.  After a panic there is no result, and the
  process ends once they are released: the last component.
\<close>

definition release_runner :: "runner_releaser \<Rightarrow> lib_state \<times> runner \<Rightarrow> lib_state \<times> runner" where
  "release_runner r = (\<lambda>(ls, rn).
     case r of
       CloseOwnedPool \<Rightarrow> (run_releaser (ClosePool (rn_pool rn)) ls, rn)
     | StopCron \<Rightarrow> (ls, rn\<lparr>rn_cron := map_option stop_scheduler (rn_cron rn)\<rparr>))"

definition worker_finished :: "worker_error ended \<Rightarrow> lib_state \<times> runner \<Rightarrow> (lib_state \<times> runner) \<times> string option" where
  "worker_finished how = (\<lambda>(ls, rn).
     case how of
       Returned e \<Rightarrow> (fold release_runner (rn_releasers rn) (ls, rn\<lparr>rn_complete := rn_complete rn @ [e]\<rparr>), None)
     | Panicked m \<Rightarrow> (fold release_runner (rn_releasers rn) (ls, rn), Some m))"

text \<open>A receiver of \<open>Promise\<close> takes the result away.\<close>

definition take_completion :: "runner \<Rightarrow> runner \<times> worker_error option option" where
  "take_completion rn =
     (case rn_complete rn of [] \<Rightarrow> (rn, None) | e # es \<Rightarrow> (rn\<lparr>rn_complete := es\<rparr>, Some e))"

text \<open>\<open>Stop\<close>; \<open>meanwhile\<close> is what happens while it waits, at most thirty seconds.\<close>

definition stop_runner :: "(runner \<Rightarrow> runner) \<Rightarrow> runner \<Rightarrow> runner \<times> runner_error option" where
  "stop_runner meanwhile rn =
     (if rn_stopped rn then (rn, Some AlreadyStopped)
      else
        (case take_completion (meanwhile (rn\<lparr>rn_stopped := True, rn_stop_events := rn_stop_events rn + 1\<rparr>)) of
           (rn', None) \<Rightarrow> (rn', Some StopTimeout)
         | (rn', Some (Some ContextCancelled)) \<Rightarrow> (rn', None)
         | (rn', Some e) \<Rightarrow> (rn', map_option RunnerWorkerError e)))"

definition runner_add_job :: "runner \<Rightarrow> string \<Rightarrow> string \<Rightarrow> wstate \<Rightarrow> wstate \<times> runner_error option" where
  "runner_add_job rn task payload st =
     (if rn_stopped rn then (st, Some RunnerIsStopped)
      else (case worker_add_job (rn_worker rn) task payload st of
              (st', e) \<Rightarrow> (st', map_option RunnerWorkerError e)))"

definition is_running :: "runner \<Rightarrow> bool" where
  "is_running rn \<longleftrightarrow> \<not> rn_stopped rn"

section \<open>A pool of the runner's own is closed before it is used\<close>

lemma release_closes: "p \<in> set (lb_closed (release_all rs ls)) \<longleftrightarrow> p \<in> set (lb_closed ls) \<or> ClosePool p \<in> set rs"
proof -
  have "p \<in> set (lb_closed (fold run_releaser rs ls)) \<longleftrightarrow> p \<in> set (lb_closed ls) \<or> ClosePool p \<in> set rs" for rs
    by (induction rs arbitrary: ls) (auto simp: run_releaser_def split: releaser.split)
  then show ?thesis by (simp add: release_all_def)
qed

lemma assert_pool_releasers:
  assumes "assert_pool rw o1 rs = (rs1, Inr (p, owned))"
  shows "owned \<longleftrightarrow> ro_pg_pool o1 = None"
    and "rs1 = (case ro_pg_pool o1 of None \<Rightarrow> rs @ [ClosePool p] | Some q \<Rightarrow> rs)"
    and "ro_pg_pool o1 = None \<or> ro_pg_pool o1 = Some p"
  using assms by (auto simp: assert_pool_def Let_def split: option.splits sum.splits)

lemma assert_task_list_releasers:
  "assert_task_list walk plug given dir rs = (rs1, r) \<Longrightarrow> rs1 = rs \<or> rs1 = rs @ [StopWatchers]"
  by (auto simp: assert_task_list_def Let_def split: option.splits sum.splits if_splits)

lemma processed_pool:
  assumes "process_options rw lg o0 ls = (ls1, Inr pr)"
  shows "pr_pool pr \<in> set (lb_closed ls1) \<longleftrightarrow> ro_pg_pool o0 = None \<or> pr_pool pr \<in> set (lb_closed ls)"
    and "ro_pg_pool o0 = None \<or> ro_pg_pool o0 = Some (pr_pool pr)"
    and "ro_pg_pool (pr_options pr) = ro_pg_pool o0"
proof -
  let ?o = "set_defaults lg o0"
  have pool: "ro_pg_pool ?o = ro_pg_pool o0" by (simp add: set_defaults_def)
  obtain rs1 p owned rs2 tasks where
      a: "assert_pool rw ?o [] = (rs1, Inr (p, owned))"
    and t: "assert_task_list (rw_walk rw) (rw_plugin rw) (ro_task_list ?o) (ro_task_directory ?o) rs1 = (rs2, Inr tasks)"
    and r: "ls1 = release_all rs2 ls" "pr_pool pr = p" "pr_options pr = ?o"
    using assms
    by (auto simp: process_options_def with_releasers_def Let_def split: option.splits prod.splits sum.splits)
  note a' = assert_pool_releasers [OF a]
  show "pr_pool pr \<in> set (lb_closed ls1) \<longleftrightarrow> ro_pg_pool o0 = None \<or> pr_pool pr \<in> set (lb_closed ls)"
    using a'(2) assert_task_list_releasers [OF t] by (auto simp: r release_closes pool split: option.splits)
  show "ro_pg_pool o0 = None \<or> ro_pg_pool o0 = Some (pr_pool pr)" using a'(3) by (simp add: r pool)
  show "ro_pg_pool (pr_options pr) = ro_pg_pool o0" by (simp add: r pool)
qed

lemma register_tasks_state:
  "fold (\<lambda>(t, h). register_task t h) ts (wk, st) = (wk', st') \<Longrightarrow>
     ws_store st' = ws_store st \<and> ws_script st' = ws_script st \<and> ws_cancelled st' = ws_cancelled st"
proof (induction ts arbitrary: wk st)
  case (Cons th ts)
  obtain t h wk1 st1 where th: "th = (t, h)" and r: "register_task t h (wk, st) = (wk1, st1)" by (metis surj_pair)
  then have "ws_store st1 = ws_store st \<and> ws_script st1 = ws_script st \<and> ws_cancelled st1 = ws_cancelled st"
    by (auto simp: register_task_def emit_def Let_def split: if_splits)
  then show ?case using Cons th r by simp
qed simp

text \<open>The first worker's error counts, and the workers after it find the pool closed as well.\<close>

lemma closed_pool_state:
  assumes "ws_pool_closed st" "\<not> ws_cancelled st"
  shows "\<exists>st' e. run_once wk st = Some (st', Returned (Some e)) \<and> e = NoConnection ''closed pool'' \<and>
     ws_store st' = ws_store st \<and> ws_pool_closed st'"
  using assms
  by (subst run_once.simps)
     (auto simp: worker_get_job_def call_result_def pool_result_def emit_def wait_def release_def
       set_active_def cancel_reset_locked_timer_def Let_def)

lemma cancelled_run_once: "ws_cancelled st \<Longrightarrow> run_once wk st = Some (st, Returned (Some ContextCancelled))"
  by (subst run_once.simps) simp

lemma closed_pool_run_times:
  "ws_pool_closed st \<Longrightarrow>
     \<exists>st' e. run_times n wk st = Some (st', Returned e) \<and> ws_store st' = ws_store st"
proof (induction n arbitrary: st)
  case (Suc n)
  obtain st1 e1 where one: "run_once wk st = Some (st1, Returned e1)" "ws_store st1 = ws_store st" "ws_pool_closed st1"
    using closed_pool_state [OF Suc.prems, of wk] cancelled_run_once [of st wk] Suc.prems by (cases "ws_cancelled st") auto
  then obtain st2 e2 where "run_times n wk st1 = Some (st2, Returned e2)" "ws_store st2 = ws_store st1"
    using Suc.IH by blast
  then show ?case using one by auto
qed simp

lemma closed_pool_stops_workers:
  assumes "ws_pool_closed st" "\<not> ws_cancelled st" "0 < n"
  shows "\<exists>st'. run_times n wk st = Some (st', Returned (Some (NoConnection ''closed pool''))) \<and>
     ws_store st' = ws_store st"
proof -
  obtain k where n: "n = Suc k" using assms(3) by (cases n) auto
  obtain st1 where one: "run_once wk st = Some (st1, Returned (Some (NoConnection ''closed pool'')))"
      "ws_store st1 = ws_store st" "ws_pool_closed st1" using closed_pool_state [OF assms(1,2)] by blast
  then obtain st2 e2 where "run_times k wk st1 = Some (st2, Returned e2)" "ws_store st2 = ws_store st1"
    using closed_pool_run_times by blast
  then show ?thesis using one by (auto simp: n)
qed

text \<open>
  C40: a runner whose options are accepted works on the connection pool it is given, which is open
  unless it was closed before.  A runner that makes its own pool from a connection string has closed
  it before its worker starts, so that \<open>RunOnce\<close> in a context that has not ended fails, with
  whatever number of workers, without running a job: the first statement finds the pool closed.
\<close>

theorem runner_closes_its_own_pool:
  assumes "process_options rw lg o0 ls = (ls1, Inr pr)" "\<not> ws_cancelled st"
  shows "(\<forall>p. ro_pg_pool o0 = Some p \<longrightarrow>
       pr_pool pr = p \<and> (p \<in> set (lb_closed ls1) \<longleftrightarrow> p \<in> set (lb_closed ls)))
    \<and> (ro_pg_pool o0 = None \<longrightarrow> pr_pool pr \<in> set (lb_closed ls1) \<and> (\<exists>ls2 st2.
         runner_run_once rw lg o0 i ls st = Some (ls2, st2, Returned (Some (RunnerWorkerError (NoConnection ''closed pool''))))
         \<and> ws_store st2 = ws_store st))"
proof (intro conjI impI allI)
  assume own: "ro_pg_pool o0 = None"
  obtain wk st1 where w: "runner_worker i [with_poll_interval (ro_poll_interval (pr_options pr)), with_continuous False]
      pr st = (wk, st1)" by force
  have st1: "ws_store st1 = ws_store st" "ws_script st1 = ws_script st" "ws_cancelled st1 = ws_cancelled st"
    using w register_tasks_state unfolding runner_worker_def Let_def by blast+
  show closed: "pr_pool pr \<in> set (lb_closed ls1)" using processed_pool(1) [OF assms(1)] own by simp
  let ?on = "on_pool ls1 (pr_pool pr) st1" and ?n = "nat (ro_concurrency (pr_options pr))"
  have on: "ws_pool_closed ?on" "\<not> ws_cancelled ?on" "ws_store ?on = ws_store st"
    using closed st1 assms(2) by (simp_all add: on_pool_def)
  have "\<exists>st2. (if ro_concurrency (pr_options pr) \<le> 1 then run_once wk ?on else run_times ?n wk ?on)
      = Some (st2, Returned (Some (NoConnection ''closed pool''))) \<and> ws_store st2 = ws_store st"
    using closed_pool_state [OF on(1,2), of wk] closed_pool_stops_workers [OF on(1,2), of ?n wk] on(3)
    by (cases "ro_concurrency (pr_options pr) \<le> 1") auto
  then show "\<exists>ls2 st2.
         runner_run_once rw lg o0 i ls st = Some (ls2, st2, Returned (Some (RunnerWorkerError (NoConnection ''closed pool''))))
         \<and> ws_store st2 = ws_store st"
    using assms(1) w by (auto simp: runner_run_once_def)
qed (use processed_pool [OF assms(1)] in auto)

definition test_world :: runner_world where
  "test_world =
     \<lparr>rw_pools = \<lparr>pw_env = (\<lambda>v. []), pw_new = (\<lambda>url. Inr 3), pw_max_conns = (\<lambda>p. 10),
        pw_migrate = (\<lambda>p schema. None), pw_ping = (\<lambda>p. None)\<rparr>,
      rw_parse_config = (\<lambda>url. None), rw_new_config = (\<lambda>url n. Inr 3), rw_walk = (\<lambda>d. None),
      rw_plugin = (\<lambda>p. Inl []), rw_json = (\<lambda>s. None), rw_order = (\<lambda>i m. m), rw_rfc3339 = (\<lambda>t. [])\<rparr>"

lemma runner_closes_its_own_pool_witness:
  "\<exists>ls2 st2. runner_run_once test_world (new_logger 0 [])
       (no_runner_options\<lparr>ro_connection_string := ''db'', ro_task_list := Some [(''t'', Some (\<lambda>p job st. (st, Returned None)))]\<rparr>)
       ''w'' fresh_lib (new_state empty_store 0 0 (\<lambda>n. 1) [])
     = Some (ls2, st2, Returned (Some (RunnerWorkerError (NoConnection ''closed pool''))))"
proof -
  let ?o = "no_runner_options\<lparr>ro_connection_string := ''db'', ro_task_list := Some [(''t'', Some (\<lambda>p job st. (st, Returned None)))]\<rparr>"
  obtain ls1 pr where p: "process_options test_world (new_logger 0 []) ?o fresh_lib = (ls1, Inr pr)"
    by (simp add: process_options_def validate_options_def no_runner_options_def test_world_def set_defaults_def
        with_releasers_def assert_pool_def assert_task_list_def load_from_task_list_def safe_int32_def
        or_default_def Let_def)
  have "ro_pg_pool ?o = None" by (simp add: no_runner_options_def)
  then show ?thesis
    using runner_closes_its_own_pool [OF p, of "new_state empty_store 0 0 (\<lambda>n. 1) []" "''w''"]
    by (auto simp: new_state_def)
qed

end
