(* ===== verification/Worker_Pool.thy ===== *)
theory Worker_Pool
  imports Shared_Options Transition
begin

text \<open>
  The worker pool (pkg/worker/worker_pool.go).

  A pool's goroutines are: one for each worker, which polls; the listener for notifications; the
  timer of a reconnection; the coordinator of nudges; the monitor of critical errors.  A worker's
  goroutine is a function on the state of theory \<open>Worker\<close>, whose cancelled context is the pool's.
  The others act on the state \<open>wpool\<close>, each by steps that may come in any order.
\<close>

section \<open>A worker's goroutine\<close>

text \<open>\<open>processAvailableJobs\<close>; \<open>None\<close> is a loop that does not end.\<close>

partial_function (option) process_available_jobs ::
  "worker \<Rightarrow> wstate \<Rightarrow> (wstate \<times> worker_error ended) option" where
  "process_available_jobs wk st =
     (if ws_cancelled st then Some (st, Returned (Some ContextCancelled))
      else case worker_get_job wk st of
        (st', Inl e) \<Rightarrow> Some (st', Returned (Some (GetJobFailed e)))
      | (st', Inr None) \<Rightarrow> Some (st', Returned None)
      | (st', Inr (Some job)) \<Rightarrow>
          (case process_job wk job st' of
             (st'', Panicked m) \<Rightarrow> Some (st'', Panicked m)
           | (st'', Returned e) \<Rightarrow> process_available_jobs wk st''))"

text \<open>
  \<open>runWorkerWithNudging\<close> waits for a tick or the end of the context; when both are there the
  order does not matter, since the polling looks at the context first.
\<close>

partial_function (option) run_worker_with_nudging ::
  "worker \<Rightarrow> wstate \<Rightarrow> (wstate \<times> worker_error ended) option" where
  "run_worker_with_nudging wk st =
     (let st1 = wait wk st in
      if ws_cancelled st1 then Some (st1, Returned (Some ContextCancelled))
      else case process_available_jobs wk st1 of
        None \<Rightarrow> None
      | Some (st2, Returned None) \<Rightarrow> run_worker_with_nudging wk st2
      | Some (st2, how) \<Rightarrow> Some (st2, how))"

declare process_available_jobs.simps [code] run_worker_with_nudging.simps [code]

text \<open>The text of the errors that reach \<open>runWorker\<close>.\<close>

fun get_job_error_text :: "worker_error \<Rightarrow> string" where
  "get_job_error_text (NoConnection m) = ''failed to acquire connection: '' @ m"
| "get_job_error_text (ForbiddenFlagsFailed m) = ''failed to get forbidden flags: '' @ m"
| "get_job_error_text (StatementFailed m) = ''failed to scan job: '' @ m"
| "get_job_error_text (FlagsUnparsed m) = ''failed to parse flags: '' @ m"
| "get_job_error_text e = []"

fun worker_error_text :: "worker_error \<Rightarrow> string" where
  "worker_error_text ContextCancelled = ''context canceled''"
| "worker_error_text (GetJobFailed e) = ''failed to get job: '' @ get_job_error_text e"
| "worker_error_text e = get_job_error_text e"

definition is_critical_error :: "string option \<Rightarrow> bool" where
  "is_critical_error err =
     (case err of None \<Rightarrow> False
      | Some m \<Rightarrow> m \<in> set [''connection refused'', ''connection closed'',
                          ''server closed the connection unexpectedly''])"

text \<open>Nothing the coordinator of nudges does panics in this model, so its recovery has no value here.\<close>

datatype pool_error =
    WorkerPanic nat string
  | CriticalWorkerError nat string
  | NotificationPanic string

text \<open>
  What the goroutine of a worker reports, by how it ends: with an error of the polling, or with a
  panic of a task, which it recovers.
\<close>

definition run_worker_report :: "nat \<Rightarrow> worker_error ended \<Rightarrow> pool_error option" where
  "run_worker_report i how =
     (case how of
        Panicked m \<Rightarrow> Some (WorkerPanic i m)
      | Returned None \<Rightarrow> None
      | Returned (Some e) \<Rightarrow>
          if e \<noteq> ContextCancelled \<and> is_critical_error (Some (worker_error_text e))
          then Some (CriticalWorkerError i (worker_error_text e)) else None)"

definition run_worker :: "nat \<Rightarrow> worker \<Rightarrow> wstate \<Rightarrow> (wstate \<times> pool_error option) option" where
  "run_worker i wk st =
     map_option (\<lambda>(st', how). (st', run_worker_report i how)) (run_worker_with_nudging wk st)"

section \<open>The state of the pool\<close>

datatype pool_event =
    PoolEvent event_type
  | ConnectingEvent nat
  | ErrorEvent event_type string
  | ShutdownEvent string

text \<open>
  \<open>wp_handling\<close> and \<open>wp_waiting\<close> count the listeners at the top of their loop and in
  \<open>WaitForNotification\<close>, \<open>wp_opening\<close> the goroutines between \<open>Acquire\<close> and the answer to
  \<open>LISTEN\<close>, \<open>wp_cleanups\<close> the listeners that have started a reconnection and whose deferred
  clean-up is still to run.  \<open>wp_crashed\<close>: a goroutine without recovery panicked, which ends the
  process.
\<close>

datatype listen_conn = NoConn | HeldConn | ReleasedConn

record wpool =
  wp_concurrency :: int
  wp_workers :: "worker list"
  wp_nudged :: "bool list"
  wp_active_jobs :: "int option list"
  wp_cancelled :: bool
  wp_notify_cancelled :: bool
  wp_conn :: listen_conn
  wp_handling :: nat
  wp_waiting :: nat
  wp_opening :: nat
  wp_cleanups :: nat
  wp_timers :: "real list"
  wp_attempts :: nat
  wp_nudges :: nat
  wp_errors :: "pool_error list"
  wp_critical :: "pool_error option"
  wp_monitoring :: bool
  wp_spawned :: "pool_error list"
  wp_shutdown_once :: bool
  wp_complete :: bool
  wp_events :: "pool_event list"
  wp_crashed :: bool

definition pool_emit :: "pool_event \<Rightarrow> wpool \<Rightarrow> wpool" where
  "pool_emit e wp = wp\<lparr>wp_events := wp_events wp @ [e]\<rparr>"

text \<open>The channel of errors has ten places; an error that finds it full is only logged.\<close>

definition report_error :: "pool_error \<Rightarrow> wpool \<Rightarrow> wpool" where
  "report_error e wp =
     (if length (wp_errors wp) < 10 then wp\<lparr>wp_errors := wp_errors wp @ [e]\<rparr> else wp)"

text \<open>\<open>generatePoolID\<close>\<close>

definition generate_pool_id :: "nat list option \<Rightarrow> int \<Rightarrow> string" where
  "generate_pool_id random_bytes unix_nano =
     (case random_bytes of Some bs \<Rightarrow> hex_encode bs | None \<Rightarrow> ''pool_'' @ itoa unix_nano)"

definition pool_worker_id :: "string \<Rightarrow> nat \<Rightarrow> string" where
  "pool_worker_id pool_id i = ''worker-'' @ pool_id @ ''-'' @ itoa (int i)"

section \<open>Listening\<close>

text \<open>
  The delay in milliseconds before the next attempt, and the jitter made from eight random bytes,
  which are missing when the source of randomness fails.  The rounding of floating point numbers
  is not modelled.
\<close>

definition generate_secure_jitter :: "nat list option \<Rightarrow> real" where
  "generate_secure_jitter bytes =
     (case bytes of
        None \<Rightarrow> 0.75
      | Some bs \<Rightarrow> 0.5 + sqrt (real (foldl (\<lambda>n b. n * 256 + b) 0 bs) / (2 ^ 64 - 1)) / 2)"

definition listen_delay :: "real \<Rightarrow> nat \<Rightarrow> real" where
  "listen_delay jitter attempts = jitter * min 60000 (50 * exp (real attempts))"

definition reconnect_with_backoff :: "nat list option \<Rightarrow> string \<Rightarrow> wpool \<Rightarrow> wpool" where
  "reconnect_with_backoff random m wp =
     (let wp1 = pool_emit (ErrorEvent PoolListenError m) wp; n = wp_attempts wp1 + 1 in
      wp1\<lparr>wp_attempts := n,
         wp_timers := wp_timers wp1 @ [of_int \<lfloor>listen_delay (generate_secure_jitter random) n\<rfloor>]\<rparr>)"

text \<open>
  \<open>startNotificationListener\<close> in two steps: up to the connection, which is stored in the pool,
  and the answer to \<open>LISTEN\<close>.  Between them the clean-up of an earlier listener may release the
  connection.  When it comes before the statement is sent, \<open>Exec\<close> of the released connection
  panics, in the goroutine of the timer, which recovers nothing; when it comes while the statement
  runs, the statement fails.
\<close>

definition begin_listening :: "string option \<Rightarrow> nat list option \<Rightarrow> wpool \<Rightarrow> wpool" where
  "begin_listening acquire_error random wp0 =
     (let wp = pool_emit (ConnectingEvent (wp_attempts wp0))
                 (wp0\<lparr>wp_notify_cancelled := wp_cancelled wp0\<rparr>) in
      case acquire_error of
        Some m \<Rightarrow> reconnect_with_backoff random m wp
      | None \<Rightarrow> wp\<lparr>wp_conn := HeldConn, wp_opening := wp_opening wp + 1\<rparr>)"

definition finish_listening :: "string option \<Rightarrow> nat list option \<Rightarrow> wpool \<Rightarrow> wpool" where
  "finish_listening listen_error random wp0 =
     (if wp_opening wp0 = 0 then wp0
      else
        (let wp = wp0\<lparr>wp_opening := wp_opening wp0 - 1\<rparr> in
         case listen_error of
           Some m \<Rightarrow>
             reconnect_with_backoff random m
               (if wp_conn wp = HeldConn then wp\<lparr>wp_conn := ReleasedConn\<rparr> else wp)
         | None \<Rightarrow>
             (if wp_conn wp \<noteq> HeldConn then wp\<lparr>wp_crashed := True\<rparr>
              else (pool_emit (PoolEvent PoolListenSuccess) (wp\<lparr>wp_attempts := 0\<rparr>))
                     \<lparr>wp_handling := wp_handling wp + 1\<rparr>)))"

datatype listen_outcome = ListenAcquireFails string | ListenFails string | ListenWorks

definition start_notification_listener :: "listen_outcome \<Rightarrow> nat list option \<Rightarrow> wpool \<Rightarrow> wpool" where
  "start_notification_listener outcome random wp =
     (case outcome of
        ListenAcquireFails m \<Rightarrow> begin_listening (Some m) random wp
      | ListenFails m \<Rightarrow> finish_listening (Some m) random (begin_listening None random wp)
      | ListenWorks \<Rightarrow> finish_listening None random (begin_listening None random wp))"

text \<open>
  The goroutine of a reconnection: its timer fires, and it goes on as \<open>startNotificationListener\<close>;
  or the context ends.
\<close>

definition reconnect_timer_fires :: "string option \<Rightarrow> nat list option \<Rightarrow> wpool \<Rightarrow> wpool" where
  "reconnect_timer_fires acquire_error random wp =
     (case wp_timers wp of
        [] \<Rightarrow> wp
      | d # ds \<Rightarrow>
          (let wp1 = wp\<lparr>wp_timers := ds\<rparr> in
           if wp_notify_cancelled wp1 then wp1
           else begin_listening acquire_error random
                  (pool_emit (ConnectingEvent (wp_attempts wp1)) wp1)))"

definition reconnect_cancelled :: "wpool \<Rightarrow> wpool" where
  "reconnect_cancelled wp = (if wp_notify_cancelled wp then wp\<lparr>wp_timers := tl (wp_timers wp)\<rparr> else wp)"

text \<open>
  \<open>handleNotifications\<close> by its steps.  Its clean-up releases the connection the pool has at that
  time, whichever it is.  At the top of the loop a listener ends with its context, or waits on the
  connection; one that finds none, or a released one, panics, and the panic is recovered and
  reported.  A failure while it waits cleans up, starts the reconnection and leaves the deferred
  clean-up to be run after it.
\<close>

definition listener_cleanup :: "wpool \<Rightarrow> wpool" where
  "listener_cleanup wp = wp\<lparr>wp_conn := NoConn\<rparr>"

definition listener_round :: "wpool \<Rightarrow> wpool" where
  "listener_round wp0 =
     (if wp_handling wp0 = 0 then wp0
      else
        (let wp = wp0\<lparr>wp_handling := wp_handling wp0 - 1\<rparr> in
         if wp_notify_cancelled wp then listener_cleanup wp
         else if wp_conn wp = HeldConn then wp\<lparr>wp_waiting := wp_waiting wp + 1\<rparr>
         else report_error (NotificationPanic ''invalid memory address or nil pointer dereference'') wp))"

datatype notification = Notified string | NotifyFails string

definition handle_notification :: "notification \<Rightarrow> nat list option \<Rightarrow> wpool \<Rightarrow> wpool" where
  "handle_notification n random wp0 =
     (if wp_waiting wp0 = 0 then wp0
      else
        (let wp = wp0\<lparr>wp_waiting := wp_waiting wp0 - 1\<rparr> in
         case n of
           Notified channel \<Rightarrow>
             (if channel = ''jobs:insert'' \<and> int (wp_nudges wp) < 2 * wp_concurrency wp
              then wp\<lparr>wp_nudges := wp_nudges wp + 1\<rparr> else wp)\<lparr>wp_handling := wp_handling wp + 1\<rparr>
         | NotifyFails m \<Rightarrow>
             if wp_notify_cancelled wp then listener_cleanup wp
             else reconnect_with_backoff random m
                    ((listener_cleanup wp)\<lparr>wp_cleanups := wp_cleanups wp + 1\<rparr>)))"

definition deferred_cleanup :: "wpool \<Rightarrow> wpool" where
  "deferred_cleanup wp =
     (if wp_cleanups wp = 0 then wp else (listener_cleanup wp)\<lparr>wp_cleanups := wp_cleanups wp - 1\<rparr>)"

section \<open>Nudging\<close>

text \<open>A worker is nudged by filling the channel of one place that it has.\<close>

fun nudge_first :: "bool list \<Rightarrow> bool list" where
  "nudge_first [] = []"
| "nudge_first (b # bs) = (if b then b # nudge_first bs else True # bs)"

definition nudge_idle_worker :: "wpool \<Rightarrow> wpool" where
  "nudge_idle_worker wp = wp\<lparr>wp_nudged := nudge_first (wp_nudged wp)\<rparr>"

definition nudge_coordinator_round :: "wpool \<Rightarrow> wpool" where
  "nudge_coordinator_round wp =
     (if wp_nudges wp = 0 then wp else nudge_idle_worker (wp\<lparr>wp_nudges := wp_nudges wp - 1\<rparr>))"

section \<open>Critical errors and shutdown\<close>

definition worker_ends :: "nat \<Rightarrow> worker_error ended \<Rightarrow> wpool \<Rightarrow> wpool" where
  "worker_ends i how wp =
     (case run_worker_report i how of None \<Rightarrow> wp | Some e \<Rightarrow> report_error e wp)"

text \<open>The message of the shutdown it starts in a goroutine of its own names the error.\<close>

definition error_monitor_round :: "bool \<Rightarrow> wpool \<Rightarrow> wpool" where
  "error_monitor_round pick_error wp =
     (if \<not> wp_monitoring wp then wp
      else if wp_cancelled wp \<and> (wp_errors wp = [] \<or> \<not> pick_error) then wp\<lparr>wp_monitoring := False\<rparr>
      else case wp_errors wp of
        [] \<Rightarrow> wp
      | e # es \<Rightarrow>
          (pool_emit (PoolEvent PoolError)
             (wp\<lparr>wp_errors := es,
                wp_critical := (case wp_critical wp of None \<Rightarrow> Some e | Some c \<Rightarrow> Some c)\<rparr>))
            \<lparr>wp_monitoring := False, wp_spawned := e # wp_spawned wp\<rparr>)"

text \<open>
  \<open>GracefulShutdown\<close> in two steps, with the wait for the goroutines between them; only the first
  call does anything.  \<open>in_time\<close>: the workers ended within 30 seconds.
\<close>

definition begin_shutdown :: "string \<Rightarrow> wpool \<Rightarrow> wpool" where
  "begin_shutdown message wp =
     (pool_emit (ShutdownEvent message) wp)
       \<lparr>wp_shutdown_once := True, wp_notify_cancelled := True, wp_cancelled := True\<rparr>"

definition end_shutdown :: "bool \<Rightarrow> wpool \<Rightarrow> wpool \<times> string option" where
  "end_shutdown in_time wp =
     (let m = ''graceful shutdown timeout''; failed = pool_emit (ErrorEvent PoolShutdownError m) in
      if in_time then (wp\<lparr>wp_complete := True\<rparr>, None)
      else (failed ((failed wp)\<lparr>wp_complete := True\<rparr>), Some m))"

definition graceful_shutdown ::
  "string \<Rightarrow> (wpool \<Rightarrow> wpool) \<Rightarrow> bool \<Rightarrow> wpool \<Rightarrow> wpool \<times> string option" where
  "graceful_shutdown message meanwhile in_time wp =
     (if wp_shutdown_once wp then (wp, None)
      else end_shutdown in_time (meanwhile (begin_shutdown message wp)))"

definition pool_release :: "(wpool \<Rightarrow> wpool) \<Rightarrow> bool \<Rightarrow> wpool \<Rightarrow> wpool \<times> string option" where
  "pool_release meanwhile in_time wp =
     graceful_shutdown ''Worker pool release requested'' meanwhile in_time
       (pool_emit (PoolEvent PoolRelease) wp)"

text \<open>\<open>Wait\<close>: \<open>None\<close> while it waits.\<close>

definition pool_wait :: "wpool \<Rightarrow> pool_error option option" where
  "pool_wait wp = (if wp_complete wp then Some (wp_critical wp) else None)"

definition get_active_jobs :: "wpool \<Rightarrow> int list" where
  "get_active_jobs wp = List.map_filter id (wp_active_jobs wp)"

section \<open>Starting the pool\<close>

datatype pool_start_error = PoolIsNil | TasksAreNil | NegativeConcurrency

text \<open>
  The workers get the schema and the prepared statements of the options, and the events of the
  compiled options, which need not be theirs; they keep the defaults of everything else.  A channel
  of negative size panics.  The events of the workers are those of theory \<open>Worker\<close>.
\<close>

definition pool_worker ::
  "pool_options \<Rightarrow> string \<Rightarrow> (string \<times> handler) list \<Rightarrow> nat \<Rightarrow> worker" where
  "pool_worker o1 pool_id tasks i =
     (new_worker [] (po_schema o1) [with_no_prepared_statements (po_no_prepared o1)])
       \<lparr>wk_id := pool_worker_id pool_id i, wk_handlers := fold (\<lambda>(t, h). AList.update t h) tasks [],
        wk_event_bus := True\<rparr>"

definition new_wpool :: "pool_options \<Rightarrow> string \<Rightarrow> (string \<times> handler) list \<Rightarrow> wpool" where
  "new_wpool o1 pool_id tasks =
     (let n = nat (po_concurrency o1) in
      \<lparr>wp_concurrency = po_concurrency o1, wp_workers = map (pool_worker o1 pool_id tasks) [0..<n],
       wp_nudged = replicate n False, wp_active_jobs = replicate n None, wp_cancelled = False,
       wp_notify_cancelled = False, wp_conn = NoConn, wp_handling = 0, wp_waiting = 0,
       wp_opening = 0, wp_cleanups = 0, wp_timers = [],
       wp_attempts = 0, wp_nudges = 0, wp_errors = [], wp_critical = None, wp_monitoring = True,
       wp_spawned = [], wp_shutdown_once = False, wp_complete = False,
       wp_events = [PoolEvent PoolCreate], wp_crashed = False\<rparr>)"

definition run_task_list ::
  "environment \<Rightarrow> pool_options \<Rightarrow> (string \<times> handler) list option \<Rightarrow> nat option \<Rightarrow> logger
     \<Rightarrow> nat list option \<Rightarrow> int \<Rightarrow> listen_outcome \<Rightarrow> nat list option \<Rightarrow> lib_state
     \<Rightarrow> lib_state \<times> (pool_start_error, nat \<times> wpool) result" where
  "run_task_list env o0 tasks pool default_logger pool_random now outcome random ls =
     (case (pool, tasks) of
        (None, _) \<Rightarrow> (ls, Inl PoolIsNil)
      | (Some p, None) \<Rightarrow> (ls, Inl TasksAreNil)
      | (Some p, Some ts) \<Rightarrow>
          (let o1 = apply_default_options env o0;
               o2 = (if po_logger o1 = None then o1\<lparr>po_logger := Some default_logger\<rparr> else o1) in
           case process_shared_options env o2 None ls of
             (ls', o3, c) \<Rightarrow>
               (ls', if po_concurrency o3 < 0 then Inl NegativeConcurrency
                     else Inr (co_events (the c),
                       start_notification_listener outcome random
                         (new_wpool o3 (generate_pool_id pool_random now) ts)))))"

section \<open>Polling\<close>

definition word_error :: "worker_error \<Rightarrow> worker_error" where
  "word_error e = (if e = ContextCancelled then e else GetJobFailed e)"

definition worded :: "wstate \<times> worker_error ended \<Rightarrow> wstate \<times> worker_error ended" where
  "worded r = (fst r, map_ended word_error (snd r))"

lemma get_job_never_cancelled: "worker_get_job wk st = (st', Inl e) \<Longrightarrow> e \<noteq> ContextCancelled"
  by (auto simp: worker_get_job_def Let_def dest!: read_claimed_result
      split: db_result.splits sum.splits prod.splits option.splits)

lemma polling_to_run_once:
  "process_available_jobs wk st = Some r \<Longrightarrow> \<exists>r0. run_once wk st = Some r0 \<and> r = worded r0"
proof (induction rule: process_available_jobs.raw_induct [rotated, consumes 1, case_names step])
  case (step poll wk st r)
  then show ?case
    by (subst run_once.simps)
       (auto simp: worded_def word_error_def dest: get_job_never_cancelled
         split: if_splits prod.splits sum.splits option.splits ended.splits)
qed

lemma run_once_to_polling:
  "run_once wk st = Some r0 \<Longrightarrow> process_available_jobs wk st = Some (worded r0)"
proof (induction rule: run_once.raw_induct [rotated, consumes 1, case_names step])
  case (step once wk st r)
  obtain st1 r1 where g: "worker_get_job wk st = (st1, r1)" by (metis surj_pair)
  show ?case
  proof (cases "\<exists>job. r1 = Inr (Some job)")
    case True
    then obtain job where job: "r1 = Inr (Some job)" by blast
    obtain st2 e where p: "process_job wk job st1 = (st2, e)" by (metis surj_pair)
    show ?thesis
      using step by (subst process_available_jobs.simps)
        (auto simp: g job p worded_def word_error_def split: if_splits ended.splits)
  next
    case False
    then show ?thesis
      using step g by (subst process_available_jobs.simps)
        (auto simp: worded_def word_error_def dest: get_job_never_cancelled
         split: if_splits sum.splits option.splits)
  qed
qed

lemma polling_is_run_once: "process_available_jobs wk st = map_option worded (run_once wk st)"
  using polling_to_run_once [of wk st] run_once_to_polling [of wk st]
  by (cases "run_once wk st"; cases "process_available_jobs wk st") auto

definition expected_end :: "worker_error ended \<Rightarrow> bool" where
  "expected_end how \<longleftrightarrow>
     (\<exists>e m. how = Returned (Some ContextCancelled) \<or> how = Returned (Some (GetJobFailed e)) \<or> how = Panicked m)"

lemma poll_ends_with:
  "process_available_jobs wk st = Some (st', how) \<Longrightarrow> how \<noteq> Returned None \<Longrightarrow> expected_end how"
  using polling_is_run_once [of wk st]
  by (cases "run_once wk st"; cases "snd (the (run_once wk st))")
     (auto simp: worded_def word_error_def expected_end_def)

lemma goroutine_ends_with:
  "run_worker_with_nudging wk st = Some r \<Longrightarrow> expected_end (snd r)"
proof (induction rule: run_worker_with_nudging.raw_induct [rotated, consumes 1, case_names step])
  case (step goroutine wk st r)
  have "expected_end (Returned (Some ContextCancelled))" by (simp add: expected_end_def)
  then show ?case
    using step by (auto simp: Let_def dest: poll_ends_with split: if_splits option.splits prod.splits ended.splits)
qed

lemma expected_end_report:
  "expected_end how \<Longrightarrow> run_worker_report i how = (case how of Panicked m \<Rightarrow> Some (WorkerPanic i m) | Returned e \<Rightarrow> None)"
  by (auto simp: expected_end_def run_worker_report_def is_critical_error_def)

text \<open>
  C26: in a pool, a worker's poll runs the jobs that \<open>RunOnce\<close> would run, with the same effect and
  the same error but for the words in front of it, or the same panic.  When the worker's goroutine
  ends, the pool is told of a panic of a task and of nothing else: no error that ends it, a lost
  connection as well, is ever taken for a critical one.
\<close>

theorem pool_worker_polls_and_ends_silently:
  "process_available_jobs wk st = map_option worded (run_once wk st) \<and>
   (case run_worker i wk st of None \<Rightarrow> True
    | Some (st', report) \<Rightarrow> report = None \<or>
        (\<exists>m. run_worker_with_nudging wk st = Some (st', Panicked m) \<and> report = Some (WorkerPanic i m)))"
  using polling_is_run_once goroutine_ends_with [of wk st] expected_end_report
  by (cases "run_worker_with_nudging wk st") (auto simp: run_worker_def split: ended.splits)

section \<open>The pool as a whole\<close>

text \<open>
  \<open>CancelContext\<close> is the end of the context \<open>RunTaskList\<close> was given.  The steps of one goroutine
  come in its order, since each is possible only in the state the one before leaves; those of
  different goroutines in any order.
\<close>

datatype pool_op =
    ListenerRound
  | NotificationArrives notification "nat list option"
  | DeferredCleanup
  | TimerFires "string option" "nat list option"
  | ListenReturns "string option" "nat list option"
  | TimerCancelled
  | Coordinate
  | WorkerEnds nat "worker_error ended"
  | Monitor bool
  | JobChanges nat "int option"
  | CancelContext
  | BeginShutdown string
  | EndShutdown bool

fun pool_act :: "pool_op \<Rightarrow> wpool \<Rightarrow> wpool" where
  "pool_act ListenerRound wp = listener_round wp"
| "pool_act (NotificationArrives n random) wp = handle_notification n random wp"
| "pool_act DeferredCleanup wp = deferred_cleanup wp"
| "pool_act (TimerFires acquire_error random) wp = reconnect_timer_fires acquire_error random wp"
| "pool_act (ListenReturns listen_error random) wp = finish_listening listen_error random wp"
| "pool_act TimerCancelled wp = reconnect_cancelled wp"
| "pool_act Coordinate wp = nudge_coordinator_round wp"
| "pool_act (WorkerEnds i how) wp = worker_ends i how wp"
| "pool_act (Monitor pick) wp = error_monitor_round pick wp"
| "pool_act (JobChanges i job) wp = wp\<lparr>wp_active_jobs := (wp_active_jobs wp)[i := job]\<rparr>"
| "pool_act CancelContext wp = wp\<lparr>wp_cancelled := True, wp_notify_cancelled := True\<rparr>"
| "pool_act (BeginShutdown m) wp = (if wp_shutdown_once wp then wp else begin_shutdown m wp)"
| "pool_act (EndShutdown t) wp =
     (if wp_shutdown_once wp \<and> \<not> wp_complete wp then fst (end_shutdown t wp) else wp)"

definition pool_step :: "pool_op \<Rightarrow> wpool \<Rightarrow> wpool" where
  "pool_step op wp = (if wp_crashed wp then wp else pool_act op wp)"

text \<open>The goroutines that listen, are about to, or wait to try again.\<close>

definition listeners :: "wpool \<Rightarrow> nat" where
  "listeners wp = wp_handling wp + wp_waiting wp + wp_opening wp + length (wp_timers wp)"

definition listening_ok :: "wpool \<Rightarrow> bool" where
  "listening_ok wp \<longleftrightarrow>
     listeners wp \<le> 1 \<and>
     (listeners wp = 0 \<longrightarrow> wp_cancelled wp \<or> wp_crashed wp \<or> wp_errors wp \<noteq> [] \<or> wp_critical wp \<noteq> None) \<and>
     (wp_notify_cancelled wp \<longleftrightarrow> wp_cancelled wp)"

text \<open>The channels within their bounds; one critical error.\<close>

definition monitor_ok :: "wpool \<Rightarrow> bool" where
  "monitor_ok wp \<longleftrightarrow>
     length (wp_errors wp) \<le> 10 \<and> int (wp_nudges wp) \<le> 2 * wp_concurrency wp \<and>
     (wp_monitoring wp \<longrightarrow> wp_spawned wp = []) \<and>
     wp_spawned wp = (case wp_critical wp of None \<Rightarrow> [] | Some e \<Rightarrow> [e]) \<and>
     (wp_shutdown_once wp \<longrightarrow> wp_cancelled wp) \<and> (wp_complete wp \<longrightarrow> wp_shutdown_once wp)"

text \<open>What holds as long as every deferred clean-up has run when a timer fires.\<close>

definition no_panic :: "pool_error \<Rightarrow> bool" where
  "no_panic e \<longleftrightarrow> (\<forall>m. e \<noteq> NotificationPanic m)"

definition punctual_ok :: "wpool \<Rightarrow> bool" where
  "punctual_ok wp \<longleftrightarrow>
     \<not> wp_crashed wp \<and> listeners wp \<le> 1 \<and> (listeners wp = 0 \<longrightarrow> wp_cancelled wp) \<and>
     (wp_notify_cancelled wp \<longleftrightarrow> wp_cancelled wp) \<and>
     (wp_handling wp + wp_waiting wp + wp_opening wp > 0 \<longrightarrow> wp_conn wp = HeldConn \<and> wp_cleanups wp = 0) \<and>
     (\<forall>e \<in> set (wp_errors wp). no_panic e) \<and> (\<forall>e. wp_critical wp = Some e \<longrightarrow> no_panic e)"

fun punctual :: "pool_op list \<Rightarrow> wpool \<Rightarrow> bool" where
  "punctual [] wp \<longleftrightarrow> True"
| "punctual (op # ops) wp \<longleftrightarrow>
     (case op of TimerFires e r \<Rightarrow> wp_cleanups wp = 0 | _ \<Rightarrow> True) \<and> punctual ops (pool_step op wp)"

lemmas pool_step_defs = pool_emit_def reconnect_with_backoff_def begin_listening_def finish_listening_def
  start_notification_listener_def reconnect_timer_fires_def reconnect_cancelled_def listener_cleanup_def
  listener_round_def handle_notification_def deferred_cleanup_def nudge_idle_worker_def
  nudge_coordinator_round_def report_error_def worker_ends_def error_monitor_round_def
  begin_shutdown_def end_shutdown_def Let_def

lemma listening_act: "listening_ok wp \<Longrightarrow> listening_ok (pool_act op wp)"
  by (cases op; cases "wp_timers wp")
     (auto simp: listening_ok_def listeners_def pool_step_defs
      split: notification.split option.split list.split)

lemma listening_step: "listening_ok wp \<Longrightarrow> listening_ok (pool_step op wp)"
  by (simp add: pool_step_def listening_act)

lemma monitor_act: "monitor_ok wp \<Longrightarrow> monitor_ok (pool_act op wp)"
  by (cases op)
     (auto simp: monitor_ok_def pool_step_defs split: notification.split option.splits list.splits)

lemma monitor_step: "monitor_ok wp \<Longrightarrow> monitor_ok (pool_step op wp)"
  by (simp add: pool_step_def monitor_act)

lemma report_no_panic: "run_worker_report i how = Some e \<Longrightarrow> no_panic e"
  by (auto simp: run_worker_report_def no_panic_def split: ended.splits option.splits if_splits)

lemma punctual_act:
  "punctual_ok wp \<Longrightarrow> (\<forall>e r. op = TimerFires e r \<longrightarrow> wp_cleanups wp = 0) \<Longrightarrow> punctual_ok (pool_act op wp)"
  by (cases op; cases "wp_timers wp")
     (auto simp: punctual_ok_def listeners_def pool_step_defs report_no_panic
      split: notification.splits option.splits list.splits if_splits)

lemma punctual_steps: "punctual_ok wp \<Longrightarrow> punctual ops wp \<Longrightarrow> punctual_ok (fold pool_step ops wp)"
proof (induction ops arbitrary: wp)
  case (Cons op ops)
  have "punctual_ok (pool_step op wp)"
    using Cons.prems punctual_act [of wp op] by (cases op) (auto simp: pool_step_def)
  then show ?case using Cons by simp
qed simp

lemma critical_stays: "wp_critical wp = Some e \<Longrightarrow> wp_critical (pool_step op wp) = Some e"
  by (cases op)
     (auto simp: pool_step_def pool_step_defs split: notification.split option.splits list.splits)

definition started :: "pool_options \<Rightarrow> string \<Rightarrow> (string \<times> handler) list \<Rightarrow> listen_outcome \<Rightarrow> nat list option \<Rightarrow> wpool" where
  "started o1 pool_id tasks outcome random = start_notification_listener outcome random (new_wpool o1 pool_id tasks)"

lemma started_ok: "0 \<le> po_concurrency o1 \<Longrightarrow>
    listening_ok (started o1 pool_id tasks outcome random) \<and> monitor_ok (started o1 pool_id tasks outcome random) \<and>
    punctual_ok (started o1 pool_id tasks outcome random)"
  by (cases outcome)
     (simp_all add: started_def new_wpool_def listening_ok_def listeners_def monitor_ok_def punctual_ok_def pool_step_defs)

interpretation pool: invariant_system
    "\<lambda>wp. \<exists>o1 pool_id tasks outcome random. 0 \<le> po_concurrency o1 \<and> wp = started o1 pool_id tasks outcome random"
    "\<lambda>wp wp'. \<exists>op. wp' = pool_step op wp"
    "\<lambda>wp. listening_ok wp \<and> monitor_ok wp"
  by unfold_locales (use started_ok listening_step monitor_step in blast)+

lemma pool_steps: "rtranclp (\<lambda>wp wp'. \<exists>op. wp' = pool_step op wp) wp (fold pool_step ops wp)"
  by (induction ops arbitrary: wp) (auto intro: converse_rtranclp_into_rtranclp)

lemma critical_stays_fold: "wp_critical wp = Some e \<Longrightarrow> wp_critical (fold pool_step ops wp) = Some e"
  by (induction ops arbitrary: wp) (simp_all add: critical_stays)

text \<open>
  C23: whatever its goroutines do in whatever order, a pool started with a concurrency that is not
  negative has never two goroutines that listen, are about to, or wait to try again, and it has one
  until its context ends, the process crashes, or an error was reported, which shuts the pool down.
  As long as every reconnection's timer finds the clean-up of the listener before it done, the
  process does not crash, no listener panics, and the pool listens or is about to until its context
  ends.  Its nudges and reported errors stay within the channels; it is shut down before \<open>Wait\<close>
  returns, and \<open>Wait\<close> returns the first critical error the monitor took, which no later one replaces.
\<close>

theorem pool_listens_and_stops_once:
  assumes "0 \<le> po_concurrency o1" "wp = fold pool_step ops (started o1 pool_id tasks outcome random)"
  shows "listeners wp \<le> 1
    \<and> (listeners wp = 0 \<longrightarrow> wp_cancelled wp \<or> wp_crashed wp \<or> wp_errors wp \<noteq> [] \<or> wp_critical wp \<noteq> None)
    \<and> (punctual ops (started o1 pool_id tasks outcome random) \<longrightarrow>
        \<not> wp_crashed wp \<and> (listeners wp = 0 \<longrightarrow> wp_cancelled wp) \<and>
        (\<forall>m. NotificationPanic m \<notin> set (wp_errors wp) \<and> wp_critical wp \<noteq> Some (NotificationPanic m)))
    \<and> int (wp_nudges wp) \<le> 2 * wp_concurrency wp \<and> length (wp_errors wp) \<le> 10
    \<and> (\<forall>c. pool_wait wp = Some c \<longrightarrow> wp_cancelled wp \<and> wp_shutdown_once wp \<and>
          wp_spawned wp = (case c of None \<Rightarrow> [] | Some e \<Rightarrow> [e]))
    \<and> (\<forall>e later. wp_critical wp = Some e \<longrightarrow> wp_critical (fold pool_step later wp) = Some e)"
proof -
  have inv: "listening_ok wp \<and> monitor_ok wp"
    unfolding assms(2) using pool.reachable_inv [OF _ pool_steps] assms(1) by blast
  have "punctual_ok wp" if "punctual ops (started o1 pool_id tasks outcome random)"
    unfolding assms(2) using punctual_steps started_ok [OF assms(1)] that by blast
  then have "punctual ops (started o1 pool_id tasks outcome random) \<longrightarrow>
      \<not> wp_crashed wp \<and> (listeners wp = 0 \<longrightarrow> wp_cancelled wp) \<and>
      (\<forall>m. NotificationPanic m \<notin> set (wp_errors wp) \<and> wp_critical wp \<noteq> Some (NotificationPanic m))"
    by (auto simp: punctual_ok_def no_panic_def)
  then show ?thesis
    using critical_stays_fold inv
    by (auto simp: listening_ok_def monitor_ok_def pool_wait_def split: if_splits)
qed

lemma pool_listens_and_stops_once_witness:
  "let o1 = no_pool_options\<lparr>po_concurrency := 2\<rparr>;
       ops = [ListenerRound, NotificationArrives (NotifyFails ''lost'') None, DeferredCleanup, TimerFires None None,
              ListenReturns None None, ListenerRound, WorkerEnds 0 (Panicked ''boom''),
              WorkerEnds 1 (Panicked ''bang''), Monitor True, BeginShutdown ''stop'', EndShutdown True];
       wp = fold pool_step ops (started o1 ''p'' [] ListenWorks None)
   in pool_wait wp = Some (Some (WorkerPanic 0 ''boom'')) \<and> wp_shutdown_once wp \<and> \<not> wp_crashed wp"
proof -
  let ?o = "no_pool_options\<lparr>po_concurrency := 2\<rparr>"
  let ?ops = "[ListenerRound, NotificationArrives (NotifyFails ''lost'') None, DeferredCleanup, TimerFires None None,
      ListenReturns None None, ListenerRound, WorkerEnds 0 (Panicked ''boom''),
      WorkerEnds 1 (Panicked ''bang''), Monitor True, BeginShutdown ''stop'', EndShutdown True]"
  let ?wp = "fold pool_step ?ops (started ?o ''p'' [] ListenWorks None)"
  have w: "pool_wait ?wp = Some (Some (WorkerPanic 0 ''boom''))"
    by (simp add: started_def new_wpool_def pool_step_def pool_step_defs pool_wait_def run_worker_report_def no_pool_options_def)
  have "punctual ?ops (started ?o ''p'' [] ListenWorks None)"
    by (simp add: started_def new_wpool_def pool_step_def pool_step_defs run_worker_report_def no_pool_options_def)
  moreover have "0 \<le> po_concurrency ?o" by (simp add: no_pool_options_def)
  ultimately have "wp_shutdown_once ?wp \<and> \<not> wp_crashed ?wp"
    using pool_listens_and_stops_once [of ?o ?wp ?ops, OF _ refl] w by blast
  then show ?thesis unfolding Let_def using w by blast
qed

text \<open>
  A clean-up that comes late releases the connection of the listener after it.  That listener then
  panics and is not replaced, or, when the clean-up comes between \<open>Acquire\<close> and \<open>LISTEN\<close>, the
  process ends.
\<close>

lemma late_cleanup_stops_listening:
  "let lost = [ListenerRound, NotificationArrives (NotifyFails ''lost'') None, TimerFires None None];
       start = started no_pool_options ''p'' [] ListenWorks None;
       wp = fold pool_step (lost @ [ListenReturns None None, DeferredCleanup, ListenerRound]) start
   in listeners wp = 0 \<and> \<not> wp_cancelled wp \<and> (\<exists>m. wp_errors wp = [NotificationPanic m]) \<and>
      wp_crashed (fold pool_step (lost @ [DeferredCleanup, ListenReturns None None]) start)"
  by (simp add: started_def new_wpool_def pool_step_def pool_step_defs listeners_def)

section \<open>Delays and names\<close>

lemma random_bytes_bound:
  "\<forall>b \<in> set bs. b < 256 \<Longrightarrow> foldl (\<lambda>n b. n * 256 + b) a bs < (a + 1) * 256 ^ length bs" for a :: nat
proof (induction bs arbitrary: a)
  case (Cons b bs)
  have "foldl (\<lambda>n b. n * 256 + b) (a * 256 + b) bs < (a * 256 + b + 1) * 256 ^ length bs"
    using Cons by simp
  also have "\<dots> \<le> ((a + 1) * 256) * 256 ^ length bs" using Cons.prems by (intro mult_right_mono) auto
  finally show ?case by (simp add: algebra_simps)
qed simp

text \<open>The jitter is between a half and one, one included.\<close>

lemma jitter_bounds:
  assumes "case bytes of None \<Rightarrow> True | Some bs \<Rightarrow> length bs = 8 \<and> (\<forall>b \<in> set bs. b < 256)"
  shows "1 / 2 \<le> generate_secure_jitter bytes \<and> generate_secure_jitter bytes \<le> 1"
proof (cases bytes)
  case (Some bs)
  let ?n = "foldl (\<lambda>n b. n * 256 + b) 0 bs"
  have "?n < 2 ^ 64" using random_bytes_bound [of bs 0] assms Some by (simp add: power_mult [symmetric])
  then have "real ?n \<le> 2 ^ 64 - 1" by (simp add: of_nat_le_iff [symmetric] del: of_nat_le_iff)
  then have "0 \<le> real ?n / (2 ^ 64 - 1)" "real ?n / (2 ^ 64 - 1) \<le> 1" by simp_all
  then have "0 \<le> sqrt (real ?n / (2 ^ 64 - 1))" "sqrt (real ?n / (2 ^ 64 - 1)) \<le> 1"
    by (simp_all only: real_sqrt_ge_0_iff real_sqrt_le_1_iff)
  then show ?thesis unfolding generate_secure_jitter_def Some option.case by linarith
qed (simp add: generate_secure_jitter_def)

lemma listen_delay_bounds:
  assumes "1 / 2 \<le> j" "j \<le> 1" "1 \<le> n"
  shows "50 \<le> listen_delay j n \<and> listen_delay j n \<le> 60000"
proof -
  have "1 \<le> real n" using assms(3) by simp
  then have "2 \<le> exp (real n)" using exp_ge_add_one_self [of "real n"] by linarith
  then have m: "100 \<le> min 60000 (50 * exp (real n))" by simp
  have "1 / 2 * 100 \<le> j * min 60000 (50 * exp (real n))" using m assms(1) by (intro mult_mono) auto
  moreover have "j * min 60000 (50 * exp (real n)) \<le> 1 * 60000" using m assms(1,2) by (intro mult_mono) auto
  ultimately show ?thesis by (simp add: listen_delay_def)
qed

text \<open>The workers of a pool have different names, as the locks of the job store need.\<close>

lemma pool_worker_ids_distinct:
  assumes "po_concurrency o1 \<le> max_int64"
  shows "distinct (map wk_id (wp_workers (new_wpool o1 pool_id tasks)))"
proof -
  have "inj_on (pool_worker_id pool_id) {0..<nat (po_concurrency o1)}"
  proof (rule inj_onI)
    fix i k assume ik: "i \<in> {0..<nat (po_concurrency o1)}" "k \<in> {0..<nat (po_concurrency o1)}"
      "pool_worker_id pool_id i = pool_worker_id pool_id k"
    then have "atoi (itoa (int i)) = atoi (itoa (int k))" by (simp add: pool_worker_id_def)
    then show "i = k" using ik assms by (simp add: atoi_itoa min_int64_def max_int64_def)
  qed
  moreover have "map wk_id (wp_workers (new_wpool o1 pool_id tasks)) = map (pool_worker_id pool_id) [0..<nat (po_concurrency o1)]"
    by (simp add: new_wpool_def pool_worker_def Let_def)
  ultimately show ?thesis by (simp add: distinct_map)
qed

end
