(* ===== verification/Pool_Manager.thy ===== *)
theory Pool_Manager
  imports Worker_Pool
begin

text \<open>
  The global registry of worker pools and its signal handlers (pkg/worker/global_pool_manager.go).

  A mutex is a flag.  Locking one that is held blocks the caller: a call either returns or blocks
  in a state whose mutexes stay as they are; or it panics, with its deferred unlocking done.  The mutexes belong to goroutines that never give
  them back while they are blocked, so a caller that blocks on itself does so for ever.
\<close>

section \<open>State\<close>

record manager =
  gm_pools :: "nat list"
  gm_pools_lock :: bool
  gm_signal_lock :: bool
  gm_registered :: bool
  gm_shutting_down :: bool
  gm_chan :: bool
  gm_cleanup :: bool
  gm_test_mode :: bool
  gm_next :: nat

definition new_manager :: manager where
  "new_manager = \<lparr>gm_pools = [], gm_pools_lock = False, gm_signal_lock = False, gm_registered = False,
     gm_shutting_down = False, gm_chan = False, gm_cleanup = False, gm_test_mode = False, gm_next = 0\<rparr>"

datatype 'a call = Returns manager 'a | Blocks manager | Panics manager

fun after :: "'a call \<Rightarrow> (manager \<Rightarrow> 'a \<Rightarrow> 'b call) \<Rightarrow> 'b call" where
  "after (Returns m a) f = f m a"
| "after (Blocks m) f = Blocks m"
| "after (Panics m) f = Panics m"

definition lock_pools :: "manager \<Rightarrow> unit call" where
  "lock_pools m = (if gm_pools_lock m then Blocks m else Returns (m\<lparr>gm_pools_lock := True\<rparr>) ())"

definition unlock_pools :: "manager \<Rightarrow> manager" where
  "unlock_pools m = m\<lparr>gm_pools_lock := False\<rparr>"

definition lock_signals :: "manager \<Rightarrow> unit call" where
  "lock_signals m = (if gm_signal_lock m then Blocks m else Returns (m\<lparr>gm_signal_lock := True\<rparr>) ())"

definition unlock_signals :: "manager \<Rightarrow> manager" where
  "unlock_signals m = m\<lparr>gm_signal_lock := False\<rparr>"

section \<open>Operations\<close>

definition get_all_worker_pools :: "manager \<Rightarrow> nat list call" where
  "get_all_worker_pools m = after (lock_pools m) (\<lambda>m1 _. Returns (unlock_pools m1) (gm_pools m1))"

definition set_test_mode :: "bool \<Rightarrow> manager \<Rightarrow> unit call" where
  "set_test_mode b m =
     after (lock_signals m) (\<lambda>m1 _. Returns (unlock_signals (m1\<lparr>gm_test_mode := b\<rparr>)) ())"

text \<open>The function \<open>signalCleanup\<close>.\<close>

definition signal_cleanup :: "manager \<Rightarrow> unit call" where
  "signal_cleanup m =
     after (lock_signals m) (\<lambda>m1 _.
       Returns (unlock_signals (m1\<lparr>gm_chan := False, gm_registered := False, gm_shutting_down := False\<rparr>)) ())"

datatype register_error = AlreadyShuttingDown

text \<open>Writing to a nil logger panics; it is written to when the handlers have been registered.\<close>

definition log_to :: "logger option \<Rightarrow> manager \<Rightarrow> register_error option call" where
  "log_to lg m = (if lg = None then Panics m else Returns m None)"

definition register_signal_handlers :: "logger option \<Rightarrow> manager \<Rightarrow> register_error option call" where
  "register_signal_handlers lg m =
     after (lock_signals m) (\<lambda>m1 _.
       if gm_shutting_down m1 then Returns (unlock_signals m1) (Some AlreadyShuttingDown)
       else if gm_registered m1 then Returns (unlock_signals m1) None
       else if gm_test_mode m1 then log_to lg (unlock_signals (m1\<lparr>gm_registered := True\<rparr>))
       else log_to lg (unlock_signals (m1\<lparr>gm_registered := True, gm_chan := True, gm_cleanup := True\<rparr>)))"

definition add_worker_pool :: "nat \<Rightarrow> manager \<Rightarrow> unit call" where
  "add_worker_pool p m =
     after (lock_pools m) (\<lambda>m1 _. Returns (unlock_pools (m1\<lparr>gm_pools := gm_pools m1 @ [p]\<rparr>)) ())"

text \<open>\<open>cleanupSignalHandlers\<close> holds the mutex while \<open>signalCleanup\<close> locks it again.\<close>

definition cleanup_signal_handlers :: "manager \<Rightarrow> unit call" where
  "cleanup_signal_handlers m =
     after (lock_signals m) (\<lambda>m1 _.
       if gm_cleanup m1
       then after (signal_cleanup m1) (\<lambda>m2 _. Returns (unlock_signals (m2\<lparr>gm_cleanup := False\<rparr>)) ())
       else Returns (unlock_signals m1) ())"

definition remove_worker_pool :: "nat \<Rightarrow> manager \<Rightarrow> unit call" where
  "remove_worker_pool p m =
     after (lock_pools m) (\<lambda>m1 _.
       let m2 = m1\<lparr>gm_pools := remove1 p (gm_pools m1)\<rparr> in
       after (if gm_pools m2 = [] then cleanup_signal_handlers m2 else Returns m2 ())
         (\<lambda>m3 _. Returns (unlock_pools m3) ()))"

text \<open>
  The goroutine that receives a signal: \<open>None\<close> when a shutdown is under way, otherwise the pools
  to shut down.  It is followed by \<open>signal_cleanup\<close> and the end of the process.
\<close>

definition receive_signal :: "manager \<Rightarrow> nat list option call" where
  "receive_signal m =
     after (lock_signals m) (\<lambda>m1 _.
       if gm_shutting_down m1 then Returns (unlock_signals m1) None
       else after (lock_pools (unlock_signals (m1\<lparr>gm_shutting_down := True\<rparr>)))
              (\<lambda>m2 _. Returns (unlock_pools m2) (Some (gm_pools m2))))"

definition signal_shutdown :: "string \<Rightarrow> (nat \<Rightarrow> bool) \<Rightarrow> nat list \<Rightarrow> (nat \<Rightarrow> wpool) \<Rightarrow> (nat \<Rightarrow> wpool)" where
  "signal_shutdown sig in_time ps pools =
     (\<lambda>p. if p \<in> set ps
          then fst (graceful_shutdown (''Forced worker shutdown due to '' @ sig) id (in_time p) (pools p))
          else pools p)"

text \<open>A managed pool: its number and the pool.\<close>

definition managed_release ::
  "nat \<Rightarrow> (wpool \<Rightarrow> wpool) \<Rightarrow> bool \<Rightarrow> wpool \<Rightarrow> manager \<Rightarrow> (wpool \<times> string option) call" where
  "managed_release p meanwhile in_time wp m =
     (let r = pool_release meanwhile in_time wp in
      after (remove_worker_pool p m) (\<lambda>m1 _. Returns m1 r))"

definition managed_graceful_shutdown ::
  "string \<Rightarrow> nat \<Rightarrow> (wpool \<Rightarrow> wpool) \<Rightarrow> bool \<Rightarrow> wpool \<Rightarrow> manager \<Rightarrow> (wpool \<times> string option) call" where
  "managed_graceful_shutdown message p meanwhile in_time wp m =
     (let r = graceful_shutdown message meanwhile in_time wp in
      after (remove_worker_pool p m) (\<lambda>m1 _. Returns m1 r))"

datatype managed_error = RegisterFailed register_error | StartFailed pool_start_error

text \<open>\<open>start\<close> is what \<open>RunTaskList\<close> returns.\<close>

definition run_task_list_with_signal_handling ::
  "bool \<Rightarrow> logger option \<Rightarrow> (pool_start_error, wpool) result \<Rightarrow> manager
     \<Rightarrow> (managed_error, nat \<times> wpool) result call" where
  "run_task_list_with_signal_handling no_handle_signals lg start m =
     after (if no_handle_signals then Returns m None else register_signal_handlers lg m) (\<lambda>m1 r.
       case r of
         Some e \<Rightarrow> Returns m1 (Inl (RegisterFailed e))
       | None \<Rightarrow>
           (case start of
              Inl e \<Rightarrow> Returns m1 (Inl (StartFailed e))
            | Inr wp \<Rightarrow>
                (let p = gm_next m1 in
                 after (add_worker_pool p (m1\<lparr>gm_next := p + 1\<rparr>)) (\<lambda>m2 _. Returns m2 (Inr (p, wp))))))"

section \<open>Releasing the last pool\<close>

lemmas manager_defs = lock_pools_def unlock_pools_def lock_signals_def unlock_signals_def
  signal_cleanup_def cleanup_signal_handlers_def remove_worker_pool_def add_worker_pool_def
  register_signal_handlers_def log_to_def get_all_worker_pools_def Let_def

definition unlocked :: "manager \<Rightarrow> bool" where
  "unlocked m \<longleftrightarrow> \<not> gm_pools_lock m \<and> \<not> gm_signal_lock m"

definition stuck :: "manager \<Rightarrow> bool" where
  "stuck m \<longleftrightarrow> gm_pools_lock m \<and> gm_signal_lock m"

fun blocks :: "'a call \<Rightarrow> bool" where
  "blocks (Returns m a) = False"
| "blocks (Blocks m) = stuck m"
| "blocks (Panics m) = False"

lemma removal:
  "unlocked m \<Longrightarrow> remove_worker_pool p m =
     (if remove1 p (gm_pools m) = [] \<and> gm_cleanup m
      then Blocks (m\<lparr>gm_pools := [], gm_pools_lock := True, gm_signal_lock := True\<rparr>)
      else Returns (m\<lparr>gm_pools := remove1 p (gm_pools m)\<rparr>) ())"
  by (cases m) (simp add: manager_defs unlocked_def)

lemma stuck_blocks:
  "stuck m \<Longrightarrow> remove_worker_pool p m = Blocks m \<and> get_all_worker_pools m = Blocks m \<and>
     register_signal_handlers lg m = Blocks m \<and> add_worker_pool p m = Blocks m"
  by (simp add: manager_defs stuck_def)

text \<open>
  C39: releasing a managed pool removes it and no other from the registry, unless it is the last
  one and the signal handlers are installed: then the release never returns, having shut the pool
  down, and from then on every start and every release of a managed pool blocks as well.
\<close>

theorem last_release_deadlocks:
  assumes "unlocked m"
  shows "if remove1 p (gm_pools m) = [] \<and> gm_cleanup m
     then \<exists>m'. managed_release p meanwhile in_time wp m = Blocks m' \<and>
        blocks (run_task_list_with_signal_handling no_handle lg start m') = (\<not> no_handle \<or> (\<exists>x. start = Inr x)) \<and>
        (\<forall>q. blocks (managed_release q meanwhile in_time wp m')) \<and> blocks (get_all_worker_pools m')
     else managed_release p meanwhile in_time wp m =
        Returns (m\<lparr>gm_pools := remove1 p (gm_pools m)\<rparr>) (pool_release meanwhile in_time wp)"
proof (cases "remove1 p (gm_pools m) = [] \<and> gm_cleanup m")
  case True
  define m' where "m' = m\<lparr>gm_pools := [], gm_pools_lock := True, gm_signal_lock := True\<rparr>"
  have s: "stuck m'" "stuck (m'\<lparr>gm_next := n\<rparr>)" for n by (simp_all add: m'_def stuck_def)
  have "managed_release p meanwhile in_time wp m = Blocks m'"
    using True removal [OF assms, of p] by (simp add: managed_release_def m'_def)
  moreover have "blocks (run_task_list_with_signal_handling no_handle lg start m') = (\<not> no_handle \<or> (\<exists>x. start = Inr x))"
    using stuck_blocks [OF s(1)] stuck_blocks [OF s(2)] s
    by (auto simp: run_task_list_with_signal_handling_def Let_def split: sum.split)
  ultimately show ?thesis using True stuck_blocks [OF s(1)] s(1) by (simp add: managed_release_def Let_def)
next
  case False
  then show ?thesis using removal [OF assms, of p] by (auto simp: managed_release_def Let_def)
qed

lemma last_release_deadlocks_witness:
  "case run_task_list_with_signal_handling False (Some (new_logger 0 [])) (Inr (new_wpool no_pool_options ''p'' []))
       new_manager of
     Blocks m \<Rightarrow> False
   | Panics m \<Rightarrow> False
   | Returns m r \<Rightarrow> (\<exists>m'. managed_release 0 id True (new_wpool no_pool_options ''p'' []) m = Blocks m' \<and>
       blocks (get_all_worker_pools m'))"
proof -
  let ?wp = "new_wpool no_pool_options ''p'' []"
  obtain m where r: "run_task_list_with_signal_handling False (Some (new_logger 0 [])) (Inr ?wp) new_manager = Returns m (Inr (0, ?wp))"
      and m: "unlocked m" "gm_cleanup m" "gm_pools m = [0]"
    by (simp add: run_task_list_with_signal_handling_def manager_defs new_manager_def unlocked_def)
  show ?thesis using last_release_deadlocks [OF m(1), of 0 id True ?wp False None "Inl PoolIsNil"] r m by auto
qed

end
