(* ===== verification/Command_Line.thy ===== *)
theory Command_Line
  imports Runner Pool_Manager
begin

text \<open>
  The command line: cmd/kongtask/main.go, get_tasks.go and get_cron_items.go.

  The flags are a record with the defaults they are registered with.  What viper makes of flags,
  environment and its own configuration file is an argument, as are the database and the files.
  A fatal error of the command is its last error, a panic of a task ends the
  process.
\<close>

section \<open>Flags and dispatch\<close>

record flags =
  fl_database_url :: string
  fl_schema :: string
  fl_schema_only :: bool
  fl_once :: bool
  fl_watch :: bool
  fl_jobs :: int
  fl_max_pool_size :: int
  fl_poll_interval :: int
  fl_no_handle_signals :: bool
  fl_no_prepared :: bool
  fl_use_node_time :: bool

text \<open>Subcommands only take the flags of the connection and the schema; the rest keep these.\<close>

definition default_flags :: flags where
  "default_flags =
     \<lparr>fl_database_url = [], fl_schema = ''graphile_worker'', fl_schema_only = False, fl_once = False,
      fl_watch = False, fl_jobs = 1, fl_max_pool_size = 10, fl_poll_interval = 2000,
      fl_no_handle_signals = False, fl_no_prepared = False, fl_use_node_time = False\<rparr>"

definition subcommand_flags :: "string \<Rightarrow> string \<Rightarrow> flags" where
  "subcommand_flags url schema = default_flags\<lparr>fl_database_url := url, fl_schema := schema\<rparr>"

datatype root_action = WatchAndSchemaOnly | OnceAndSchemaOnly | WatchAndOnce | RunMigrate | RunOnceMode | RunWorker

definition root_command :: "flags \<Rightarrow> root_action" where
  "root_command fl =
     (if fl_schema_only fl \<and> fl_watch fl then WatchAndSchemaOnly
      else if fl_schema_only fl \<and> fl_once fl then OnceAndSchemaOnly
      else if fl_watch fl \<and> fl_once fl then WatchAndOnce
      else if fl_schema_only fl then RunMigrate
      else if fl_once fl then RunOnceMode
      else RunWorker)"

datatype cli_error =
    UrlRequired
  | BadUrl string
  | BadPoolSize int
  | CliPoolFailed string
  | CliPingFailed string
  | CliMigrationFailed string
  | CliWorkerFailed worker_error
  | CliRunnerFailed runner_error
  | CliConfigInvalid config_error
  | CliStartFailed managed_error
  | RunnerNotImplemented
  | WatchNotImplemented
  | CrontabPathInvalid string
  | CrontabUnreadable string
  | CrontabInvalid parse_error
  | TasksUnreadable string
  | CliPluginFailed string
  | SymbolNotFound
  | SymbolIsNoHandler

record cli_world =
  cw_source :: config_source
  cw_viper :: "string \<Rightarrow> string"
  cw_viper_int :: "string \<Rightarrow> int"
  cw_runner :: runner_world
  cw_new :: "string \<Rightarrow> (string, nat) result"

definition cli_env :: "cli_world \<Rightarrow> environment" where
  "cli_env cw = cs_env (cw_source cw)"

section \<open>The configuration of viper\<close>

text \<open>
  \<open>initConfig\<close>, and the binding of the flags in \<open>init\<close>, are calls of viper, in this order; what viper makes of
  them is not modelled.  \<open>home\<close> is the home directory, and a missing one ends the process.
\<close>

datatype viper_call =
    BindFlag string string
  | SetConfigFile string
  | AddConfigPath string
  | SetConfigName string
  | SetEnvPrefix string
  | AutomaticEnv
  | ReadInConfig

definition bound_flags :: "viper_call list" where
  "bound_flags =
     [BindFlag ''database_url'' ''database-url'', BindFlag ''connection'' ''connection'', BindFlag ''schema'' ''schema'',
      BindFlag ''jobs'' ''jobs'', BindFlag ''max_pool_size'' ''max-pool-size'', BindFlag ''poll_interval'' ''poll-interval'',
      BindFlag ''no_prepared_statements'' ''no-prepared-statements'', BindFlag ''use_node_time'' ''use-node-time'']"

definition init_config :: "string \<Rightarrow> (string, string) result \<Rightarrow> (string, viper_call list) result" where
  "init_config cfg_file home =
     (case (if cfg_file \<noteq> [] then Inr [SetConfigFile cfg_file]
            else case home of
              Inl e \<Rightarrow> Inl e
            | Inr h \<Rightarrow> Inr [AddConfigPath ''.'', AddConfigPath h, AddConfigPath (h @ ''/.config''),
                           SetConfigName ''kongtask'', SetConfigName ''.kongtask'']) of
        Inl e \<Rightarrow> Inl e
      | Inr calls \<Rightarrow> Inr (calls @ [SetEnvPrefix ''GRAPHILE_WORKER'', AutomaticEnv, ReadInConfig]))"

text \<open>
  The file is read last, so a name or path is set before it; of the two names the hidden one is
  set last.
\<close>

lemma hidden_name_is_set_last:
  "init_config [] (Inr h) = Inr calls \<Longrightarrow>
     last (filter (\<lambda>c. case c of SetConfigName _ \<Rightarrow> True | _ \<Rightarrow> False) calls) = SetConfigName ''.kongtask'' \<and>
     last calls = ReadInConfig"
  by (auto simp: init_config_def)

section \<open>The subcommands\<close>

datatype subcommand = MigrateCommand | WorkerCommand | RunTaskListCommand | RunTaskListOnceCommand | GenerateConfig

definition find_subcommand :: "string \<Rightarrow> subcommand option" where
  "find_subcommand name =
     map_of [(''migrate'', MigrateCommand), (''worker'', WorkerCommand), (''run-task-list'', RunTaskListCommand),
       (''run-task-list-once'', RunTaskListOnceCommand), (''generate-config'', GenerateConfig)] name"

text \<open>What a command reports: the line it prints when it succeeds, or its last words with exit status 1.\<close>

definition generate_config_file :: "string list \<Rightarrow> string" where
  "generate_config_file args = (case args of [] \<Rightarrow> ''kongtask.json'' | a # _ \<Rightarrow> a)"

definition command_report :: "subcommand \<Rightarrow> string list \<Rightarrow> string option \<Rightarrow> nat \<times> string" where
  "command_report c args err =
     (case err of
        None \<Rightarrow> (0, (case c of
            MigrateCommand \<Rightarrow> ''Migration completed successfully''
          | GenerateConfig \<Rightarrow> ''Sample configuration file generated: '' @ generate_config_file args
          | _ \<Rightarrow> []))
      | Some e \<Rightarrow> (1, (case c of
            MigrateCommand \<Rightarrow> ''Migration failed: ''
          | WorkerCommand \<Rightarrow> ''Worker failed: ''
          | RunTaskListCommand \<Rightarrow> ''RunTaskList failed: ''
          | RunTaskListOnceCommand \<Rightarrow> ''RunTaskListOnce failed: ''
          | GenerateConfig \<Rightarrow> ''Failed to generate config file: '') @ e))"

section \<open>Settings of the commands\<close>

definition cli_database_url :: "cli_world \<Rightarrow> string" where
  "cli_database_url cw =
     (let u = cw_viper cw ''database_url'' in if u = [] then env_database_url (cli_env cw) else u)"

definition cli_url_missing :: "cli_world \<Rightarrow> string \<Rightarrow> bool" where
  "cli_url_missing cw url \<longleftrightarrow> url = [] \<and> \<not> has_pg_variables (cli_env cw)"

definition cli_schema :: "cli_world \<Rightarrow> string" where
  "cli_schema cw = (let s = cw_viper cw ''schema'' in if s = [] then ''graphile_worker'' else s)"

definition first_positive :: "int list \<Rightarrow> int \<Rightarrow> int" where
  "first_positive ns d = first_set (\<lambda>n. 0 < n) ns d"

definition cli_poll_interval :: "cli_world \<Rightarrow> flags \<Rightarrow> int" where
  "cli_poll_interval cw fl =
     milliseconds (first_positive [cw_viper_int cw ''poll_interval'', fl_poll_interval fl] 2000)"

text \<open>A pool of a given size, tested with a ping; the pool is closed when the command returns.\<close>

definition cli_open_pool :: "cli_world \<Rightarrow> string \<Rightarrow> int \<Rightarrow> (cli_error, nat) result" where
  "cli_open_pool cw url max_pool =
     (let rw = cw_runner cw in
      case rw_parse_config rw url of
        Some m \<Rightarrow> Inl (BadUrl m)
      | None \<Rightarrow>
          (case safe_int32 max_pool of
             None \<Rightarrow> Inl (BadPoolSize max_pool)
           | Some conns \<Rightarrow>
               (case rw_new_config rw url conns of
                  Inl m \<Rightarrow> Inl (CliPoolFailed m)
                | Inr p \<Rightarrow>
                    (case pw_ping (rw_pools rw) p of Some m \<Rightarrow> Inl (CliPingFailed m) | None \<Rightarrow> Inr p))))"

section \<open>The commands\<close>

definition run_migrate :: "cli_world \<Rightarrow> cli_error option" where
  "run_migrate cw =
     (let url = cli_database_url cw in
      if cli_url_missing cw url then Some UrlRequired
      else case cw_new cw url of
        Inl m \<Rightarrow> Some (CliPoolFailed m)
      | Inr p \<Rightarrow>
          (case pw_ping (rw_pools (cw_runner cw)) p of
             Some m \<Rightarrow> Some (CliPingFailed m)
           | None \<Rightarrow> map_option CliMigrationFailed (pw_migrate (rw_pools (cw_runner cw)) p (cli_schema cw))))"

text \<open>The example tasks only write to the log.\<close>

definition example_handler :: handler where
  "example_handler payload job st = (st, Returned None)"

definition cli_worker :: "cli_world \<Rightarrow> flags \<Rightarrow> string \<Rightarrow> wstate \<Rightarrow> worker \<times> wstate" where
  "cli_worker cw fl generated_id st =
     register_task ''example_task'' example_handler
       (new_worker generated_id (cli_schema cw) [with_poll_interval (cli_poll_interval cw fl)], st)"

definition run_simple_worker ::
  "cli_world \<Rightarrow> flags \<Rightarrow> string \<Rightarrow> int \<Rightarrow> wstate \<Rightarrow> (wstate \<times> cli_error ended) option" where
  "run_simple_worker cw fl generated_id delay st0 =
     (let url = cli_database_url cw;
          max_pool = first_positive [cw_viper_int cw ''max_pool_size'', fl_max_pool_size fl] 10 in
      if cli_url_missing cw url then Some (st0, Returned (Some UrlRequired))
      else case cli_open_pool cw url max_pool of
        Inl e \<Rightarrow> Some (st0, Returned (Some e))
      | Inr p \<Rightarrow>
          (case cli_worker cw fl generated_id st0 of
             (wk, st) \<Rightarrow>
               (case run delay wk st of
                  None \<Rightarrow> None
                | Some (st', Returned (Some ContextCancelled)) \<Rightarrow> Some (st', Returned None)
                | Some (st', how) \<Rightarrow> Some (st', map_ended CliWorkerFailed how))))"

definition run_worker_once ::
  "cli_world \<Rightarrow> flags \<Rightarrow> string \<Rightarrow> wstate \<Rightarrow> (wstate \<times> cli_error ended) option" where
  "run_worker_once cw fl generated_id st0 =
     (let url = cli_database_url cw;
          max_pool = first_positive [cw_viper_int cw ''max_pool_size'', fl_max_pool_size fl]
                       (env_max_pool_size (cli_env cw) 10) in
      if cli_url_missing cw url then Some (st0, Returned (Some UrlRequired))
      else case cli_open_pool cw url max_pool of
        Inl e \<Rightarrow> Some (st0, Returned (Some e))
      | Inr p \<Rightarrow>
          (case cli_worker cw fl generated_id st0 of
             (wk, st) \<Rightarrow> map_option (\<lambda>(st', how). (st', map_ended CliWorkerFailed how)) (run_once wk st)))"

text \<open>\<open>runWorker\<close> loads no tasks and no crontab, so it always runs the simple worker.\<close>

definition run_with_runner :: "cli_error option" where
  "run_with_runner = Some RunnerNotImplemented"

definition run_worker_command ::
  "cli_world \<Rightarrow> flags \<Rightarrow> string \<Rightarrow> int \<Rightarrow> wstate \<Rightarrow> (wstate \<times> cli_error ended) option" where
  "run_worker_command cw fl generated_id delay st =
     (let tasks = ([] :: task_map); items = ([] :: parsed_cron_item list) in
      if cli_url_missing cw (cli_database_url cw) then Some (st, Returned (Some UrlRequired))
      else if tasks \<noteq> [] \<or> items \<noteq> [] then Some (st, Returned run_with_runner)
      else run_simple_worker cw fl generated_id delay st)"

definition example_tasks :: "(string \<times> handler) list" where
  "example_tasks = [(''example_task'', example_handler), (''test_task'', example_handler)]"

definition run_task_list_once_command ::
  "cli_world \<Rightarrow> flags \<Rightarrow> nat list option \<Rightarrow> int \<Rightarrow> lib_state \<Rightarrow> wstate \<Rightarrow> (wstate \<times> cli_error ended) option" where
  "run_task_list_once_command cw fl random unix_nano ls st =
     (let url = cli_database_url cw;
          max_pool = first_positive [cw_viper_int cw ''max_pool_size'', fl_max_pool_size fl] 10 in
      if cli_url_missing cw url then Some (st, Returned (Some UrlRequired))
      else case cli_open_pool cw url max_pool of
        Inl e \<Rightarrow> Some (st, Returned (Some e))
      | Inr p \<Rightarrow>
          map_option (\<lambda>(st', how). (st', map_ended CliRunnerFailed how))
            (run_task_list_once (Some example_tasks) (Some p) (cli_schema cw) [] random unix_nano ls st))"

section \<open>run-task-list\<close>

definition cli_overrides :: "flags \<Rightarrow> overrides" where
  "cli_overrides fl =
     (if fl_database_url fl \<noteq> [] then [(''database_url'', OvStr (fl_database_url fl))] else []) @
     (if fl_schema fl \<noteq> [] then [(''schema'', OvStr (fl_schema fl))] else []) @
     (if fl_jobs fl > 0 then [(''concurrency'', OvInt (fl_jobs fl))] else []) @
     (if fl_max_pool_size fl > 0 then [(''max_pool_size'', OvInt (fl_max_pool_size fl))] else []) @
     (if fl_poll_interval fl > 0 then [(''poll_interval'', OvDuration (milliseconds (fl_poll_interval fl)))] else []) @
     (if fl_no_prepared fl then [(''no_prepared_statements'', OvBool True)] else []) @
     (if fl_use_node_time fl then [(''use_node_time'', OvBool True)] else [])"

definition task_list_url :: "cli_world \<Rightarrow> configuration \<Rightarrow> string" where
  "task_list_url cw c =
     (if cn_database_url c = [] then cli_env cw ''DATABASE_URL'' else cn_database_url c)"

text \<open>
  The options have no logger.  \<open>start\<close> is what \<open>RunTaskList\<close> returns for them; the pool then runs
  until it is shut down.
\<close>

definition run_task_list_pool ::
  "cli_world \<Rightarrow> flags \<Rightarrow> (pool_options \<Rightarrow> (pool_start_error, wpool) result) \<Rightarrow> manager
     \<Rightarrow> (cli_error, nat \<times> wpool) result call" where
  "run_task_list_pool cw fl start m =
     (let c = load_configuration_with_overrides (cw_source cw) (cli_overrides fl) in
      case validate_configuration c of
        Some e \<Rightarrow> Returns m (Inl (CliConfigInvalid e))
      | None \<Rightarrow>
          (let url = task_list_url cw c in
           if cli_url_missing cw url then Returns m (Inl UrlRequired)
           else case cli_open_pool cw url (cn_max_pool_size c) of
             Inl e \<Rightarrow> Returns m (Inl e)
           | Inr p \<Rightarrow>
               (let o1 = to_worker_pool_options c;
                    o2 = (if fl_no_handle_signals fl then o1\<lparr>po_no_handle_signals := True\<rparr> else o1)
                in after (run_task_list_with_signal_handling (po_no_handle_signals o2) (po_logger o2) (start o2) m)
                     (\<lambda>m1 r. Returns m1 (map_sum CliStartFailed id r)))))"

section \<open>Tasks and crontab files\<close>

definition title_case :: "string \<Rightarrow> string" where
  "title_case s = (case s of [] \<Rightarrow> [] | c # cs \<Rightarrow> (if is_lower c then char_of (cval c - 32) else c) # cs)"

definition load_task_from_plugin ::
  "(string \<Rightarrow> (string, plugin) result) \<Rightarrow> string \<Rightarrow> string \<Rightarrow> task_map \<Rightarrow> (cli_error, task_map) result" where
  "load_task_from_plugin open_plugin path task tasks =
     (case open_plugin path of
        Inl m \<Rightarrow> Inl (CliPluginFailed m)
      | Inr p \<Rightarrow>
          (case List.map_filter (\<lambda>n. plugin_lookup n p) [''Handler'', task, title_case task] of
             [] \<Rightarrow> Inl SymbolNotFound
           | s # _ \<Rightarrow>
               (case as_task_handler s of
                  None \<Rightarrow> Inl SymbolIsNoHandler
                | Some h \<Rightarrow> Inr (AList.update task h tasks))))"

definition has_suffix :: "string \<Rightarrow> string \<Rightarrow> bool" where
  "has_suffix s x \<longleftrightarrow> length x \<le> length s \<and> drop (length s - length x) s = x"

text \<open>A plugin that fails to load is passed over with a warning.\<close>

fun scan_tasks ::
  "(string \<Rightarrow> (string, plugin) result) \<Rightarrow> walk_entry list \<Rightarrow> task_map \<Rightarrow> (cli_error, task_map) result" where
  "scan_tasks open_plugin [] tasks = Inr tasks"
| "scan_tasks open_plugin ((path, Inl m) # es) tasks = Inl (TasksUnreadable m)"
| "scan_tasks open_plugin ((path, Inr is_dir) # es) tasks =
     (if is_dir \<or> \<not> has_suffix path ''.so'' then scan_tasks open_plugin es tasks
      else case load_task_from_plugin open_plugin path (trim_so (path_base path)) tasks of
        Inl e \<Rightarrow> scan_tasks open_plugin es tasks
      | Inr tasks' \<Rightarrow> scan_tasks open_plugin es tasks')"

definition get_tasks ::
  "(string \<Rightarrow> walk_entry list option) \<Rightarrow> (string \<Rightarrow> (string, plugin) result) \<Rightarrow> string \<Rightarrow> bool
     \<Rightarrow> (cli_error, task_map) result" where
  "get_tasks walk open_plugin dir watch =
     (case walk (if dir = [] then ''./tasks'' else dir) of
        None \<Rightarrow> Inr []
      | Some es \<Rightarrow> if watch then Inl WatchNotImplemented else scan_tasks open_plugin es [])"

text \<open>
  A crontab file: \<open>None\<close> does not exist, an error cannot be read.  \<open>clean\<close> is \<open>filepath.Clean\<close>,
  which turns the default \<open>./crontab\<close> into another path.
\<close>

definition read_cron_items ::
  "json_object \<Rightarrow> map_order \<Rightarrow> (string \<Rightarrow> string) \<Rightarrow> (string \<Rightarrow> (string, string) result option) \<Rightarrow> string \<Rightarrow> bool
     \<Rightarrow> (cli_error, parsed_cron_item list) outcome" where
  "read_cron_items json ord clean files path0 watch =
     (let path = (if path0 = [] then ''./crontab'' else path0) in
      case files path of
        None \<Rightarrow> Some (Inr [])
      | Some r \<Rightarrow>
          if watch then Some (Inl WatchNotImplemented)
          else if clean path \<noteq> path then Some (Inl (CrontabPathInvalid path))
          else (case r of
                  Inl m \<Rightarrow> Some (Inl (CrontabUnreadable m))
                | Inr content \<Rightarrow>
                    (case parse_crontab json ord content of
                       None \<Rightarrow> None
                     | Some (Inl e) \<Rightarrow> Some (Inl (CrontabInvalid e))
                     | Some (Inr items) \<Rightarrow> Some (Inr items))))"

section \<open>run-task-list ignores its configuration and panics\<close>

text \<open>No plugin gives a task, whatever it exports.\<close>

lemma cli_plugins_never_load: "scan_tasks open_plugin es tasks = Inr tasks' \<Longrightarrow> tasks' = tasks"
proof (induction open_plugin es tasks rule: scan_tasks.induct)
  case (3 open_plugin path is_dir es tasks)
  have "\<exists>e. load_task_from_plugin open_plugin path task tasks = Inl e" for task
  proof (cases "open_plugin path")
    case (Inr p)
    have "as_task_handler s = None" if "plugin_lookup n p = Some s" for n s
      using named_symbols_never_load [of n p] that by simp
    then have "as_task_handler s = None"
      if "List.map_filter (\<lambda>n. plugin_lookup n p) [''Handler'', task, title_case task] = s # ss" for s ss
      using that by (auto simp: List.map_filter_def split: if_splits)
    then show ?thesis using Inr by (auto simp: load_task_from_plugin_def split: list.split)
  qed (simp add: load_task_from_plugin_def)
  then obtain e where "load_task_from_plugin open_plugin path (trim_so (path_base path)) tasks = Inl e" by blast
  then show ?case using 3 by (auto split: if_splits)
qed simp_all

lemma cli_overrides_settings:
  assumes "fl_schema fl \<noteq> []" "0 < fl_jobs fl" "0 < fl_max_pool_size fl"
  shows "ov_string (cli_overrides fl) ''schema'' = fl_schema fl"
    "ov_int (cli_overrides fl) ''concurrency'' = fl_jobs fl"
    "ov_int (cli_overrides fl) ''max_pool_size'' = fl_max_pool_size fl"
  using assms by (simp_all add: cli_overrides_def ov_string_def ov_int_def)

lemma pool_options_have_no_logger: "po_logger (to_worker_pool_options c) = None"
  by (simp add: to_worker_pool_options_def no_pool_options_def)

text \<open>
  The run-task-list command takes its schema, concurrency and pool size from its flags, which
  have defaults, whatever the environment and the configuration file say.  In a process that has
  not yet registered its signal handlers it never starts a pool: without an error before, it
  panics on the logger its options do not have.
\<close>

theorem run_task_list_panics:
  assumes "fl = subcommand_flags url schema" "schema \<noteq> []" "unlocked m" "\<not> gm_shutting_down m" "\<not> gm_registered m"
  shows "let c = load_configuration_with_overrides (cw_source cw) (cli_overrides fl) in
     cn_schema c = schema \<and> cn_concurrency c = 1 \<and> cn_max_pool_size c = 10 \<and>
     (case run_task_list_pool cw fl start m of
        Returns m' r \<Rightarrow> m' = m \<and> (\<exists>e. r = Inl e) | Blocks m' \<Rightarrow> False | Panics m' \<Rightarrow> True)"
proof -
  let ?c = "load_configuration_with_overrides (cw_source cw) (cli_overrides fl)"
  have f: "fl_schema fl = schema" "fl_jobs fl = 1" "fl_max_pool_size fl = 10" "\<not> fl_no_handle_signals fl"
    by (simp_all add: assms(1) subcommand_flags_def default_flags_def)
  have "cn_schema ?c = schema \<and> cn_concurrency ?c = 1 \<and> cn_max_pool_size ?c = 10"
    using cli_overrides_settings [of fl] f assms(2) by (simp add: schema_setting int_settings)
  moreover have "cn_no_handle_signals ?c = False"
    by (simp add: load_configuration_with_overrides_def override_bool_def cli_overrides_def Let_def)
  then have "\<not> po_no_handle_signals (to_worker_pool_options ?c)"
    by (simp add: to_worker_pool_options_def no_pool_options_def)
  then have "run_task_list_with_signal_handling (po_no_handle_signals (to_worker_pool_options ?c))
      (po_logger (to_worker_pool_options ?c)) s m = Panics m'"
    if "m' = (case register_signal_handlers None m of Panics n \<Rightarrow> n | _ \<Rightarrow> m)" for s m'
    using that assms(3-5)
    by (simp add: run_task_list_with_signal_handling_def pool_options_have_no_logger manager_defs unlocked_def)
  then show ?thesis
    using calculation f(4)
    by (auto simp: run_task_list_pool_def Let_def split: option.split sum.split)
qed

definition test_cli :: cli_world where
  "test_cli =
     \<lparr>cw_source = \<lparr>cs_env = (\<lambda>v. ''other''), cs_cwd = Some [], cs_files = (\<lambda>p. Some []),
        cs_json = (\<lambda>s. Some [(''concurrentJobs'', CfgInt 8)]), cs_yaml = (\<lambda>s. None)\<rparr>,
      cw_viper = (\<lambda>k. []), cw_viper_int = (\<lambda>k. 0), cw_runner = test_world, cw_new = (\<lambda>url. Inr 3)\<rparr>"

lemma run_task_list_panics_witness:
  "(let c = load_configuration_with_overrides (cw_source test_cli) (cli_overrides (subcommand_flags ''db'' ''mine''))
    in cn_schema c = ''mine'' \<and> cn_concurrency c = 1) \<and>
   (\<forall>p. run_task_list_pool test_cli (subcommand_flags ''db'' ''mine'')
      (\<lambda>o1. Inr (new_wpool o1 ''p'' [])) new_manager \<noteq> Returns new_manager (Inr p))"
proof -
  have "unlocked new_manager" "\<not> gm_shutting_down new_manager" "\<not> gm_registered new_manager"
    by (simp_all add: unlocked_def new_manager_def)
  from run_task_list_panics [OF refl _ this, of "''mine''" test_cli "''db''" "\<lambda>o1. Inr (new_wpool o1 ''p'' [])"]
  show ?thesis unfolding Let_def by (auto split: call.splits)
qed

end
