(* ===== verification/Schema_Dump.thy ===== *)
theory Schema_Dump
  imports Env_Config
begin

text \<open>
  The schema dump (cmd/schema-dump/main.go): its settings and the text it writes.  What the
  catalogue queries return is a record; \<open>None\<close> is an error of a query.
\<close>

section \<open>Settings\<close>

definition dump_schema_name :: "environment \<Rightarrow> string \<Rightarrow> string" where
  "dump_schema_name env schema =
     (if schema \<noteq> [] then schema
      else if env ''GRAPHILE_WORKER_SCHEMA'' \<noteq> [] then env ''GRAPHILE_WORKER_SCHEMA''
      else ''graphile_worker'')"

definition dump_output_file :: "string \<Rightarrow> string \<Rightarrow> string" where
  "dump_output_file schema file =
     (if file \<noteq> [] then file
      else if schema = ''graphile_worker'' then ''internal/migrate/schema/graphile_worker.sql''
      else ''internal/migrate/schema/'' @ schema @ ''.sql'')"

definition or_text :: "string \<Rightarrow> string \<Rightarrow> string" where
  "or_text s d = (if s = [] then d else s)"

definition dump_connection_string :: "environment \<Rightarrow> string \<Rightarrow> string" where
  "dump_connection_string env conn =
     (if conn \<noteq> [] then conn
      else if env ''DATABASE_URL'' \<noteq> [] then env ''DATABASE_URL''
      else
        (let host = or_text (env ''PGHOST'') ''localhost''; port = or_text (env ''PGPORT'') ''5432'';
             user = or_text (env ''PGUSER'') ''postgres''; password = env ''PGPASSWORD'';
             dbname = or_text (env ''PGDATABASE'') ''postgres''
         in if password \<noteq> []
            then ''postgres://'' @ user @ '':'' @ password @ ''@'' @ host @ '':'' @ port @ ''/'' @ dbname
            else ''postgres://'' @ user @ ''@'' @ host @ '':'' @ port @ ''/'' @ dbname))"

section \<open>The text\<close>

record column =
  cl_name :: string
  cl_type :: string
  cl_nullable :: string
  cl_default :: "string option"
  cl_char_length :: "string option"
  cl_precision :: "string option"
  cl_scale :: "string option"

record catalogue =
  ct_table_defs :: "(string \<times> string) list option"
  ct_tables :: "string list option"
  ct_columns :: "string \<Rightarrow> column list option"
  ct_indexes :: "(string \<times> string) list option"
  ct_functions :: "(string \<times> string) list option"

definition newline :: string where "newline = [CHR 0x0A]"

definition column_def :: "column \<Rightarrow> string" where
  "column_def c =
     ''    '' @ cl_name c @ '' '' @ cl_type c @
     (case (cl_char_length c, cl_precision c) of
        (Some n, _) \<Rightarrow> ''('' @ n @ '')''
      | (None, Some p) \<Rightarrow>
          (case cl_scale c of
             Some s \<Rightarrow> if s \<noteq> ''0'' then ''('' @ p @ '','' @ s @ '')'' else ''('' @ p @ '')''
           | None \<Rightarrow> ''('' @ p @ '')'')
      | (None, None) \<Rightarrow> []) @
     (if cl_nullable c = ''NO'' then '' NOT NULL'' else []) @
     (case cl_default c of Some d \<Rightarrow> '' DEFAULT '' @ d | None \<Rightarrow> [])"

fun join_text :: "string \<Rightarrow> string list \<Rightarrow> string" where
  "join_text sep [] = []"
| "join_text sep [s] = s"
| "join_text sep (s # t # ss) = s @ sep @ join_text sep (t # ss)"

definition dump_single_table :: "string \<Rightarrow> catalogue \<Rightarrow> string \<Rightarrow> string option" where
  "dump_single_table schema ct table =
     map_option (\<lambda>cols.
       newline @ ''-- Table: '' @ table @ newline @
       ''CREATE TABLE '' @ schema @ ''.'' @ table @ '' ('' @ newline @
       join_text ('','' @ newline) (map column_def cols) @ newline @ '');'' @ newline)
       (ct_columns ct table)"

fun concat_options :: "string option list \<Rightarrow> string option" where
  "concat_options [] = Some []"
| "concat_options (x # xs) =
     (case x of None \<Rightarrow> None | Some s \<Rightarrow> map_option (\<lambda>t. s @ t) (concat_options xs))"

definition dump_tables_manual :: "string \<Rightarrow> catalogue \<Rightarrow> string option" where
  "dump_tables_manual schema ct =
     Option.bind (ct_tables ct) (\<lambda>ts. concat_options (map (dump_single_table schema ct) ts))"

text \<open>A named definition, as the tables, the indexes and the functions are written.\<close>

definition named_defs :: "string \<Rightarrow> (string \<times> string) list \<Rightarrow> string" where
  "named_defs kind defs =
     concat (map (\<lambda>(n, d). newline @ ''-- '' @ kind @ '': '' @ n @ newline @ d @ '';'' @ newline) defs)"

text \<open>\<open>ct_table_defs\<close> asks for a function PostgreSQL does not have, so it is normally an error.\<close>

definition dump_tables :: "string \<Rightarrow> catalogue \<Rightarrow> string option" where
  "dump_tables schema ct =
     map_option (\<lambda>t. ''-- Tables'' @ newline @ t)
       (case ct_table_defs ct of None \<Rightarrow> dump_tables_manual schema ct | Some ds \<Rightarrow> Some (named_defs ''Table'' ds))"

definition dump_indexes :: "catalogue \<Rightarrow> string option" where
  "dump_indexes ct =
     map_option (\<lambda>ds. newline @ ''-- Indexes'' @ newline @ named_defs ''Index'' ds) (ct_indexes ct)"

definition dump_functions :: "catalogue \<Rightarrow> string option" where
  "dump_functions ct =
     map_option (\<lambda>ds. newline @ ''-- Functions'' @ newline @ named_defs ''Function'' ds) (ct_functions ct)"

definition dump_header :: "string \<Rightarrow> string \<Rightarrow> string" where
  "dump_header schema generated =
     ''-- KongTask Schema Dump'' @ newline @ ''-- Schema: '' @ schema @ newline @
     ''-- Generated: '' @ generated @ newline @
     ''-- WARNING: This file is auto-generated. Do not edit manually.'' @ newline @ newline @
     ''CREATE SCHEMA IF NOT EXISTS '' @ schema @ '';'' @ newline @ newline"

definition dump_schema :: "string \<Rightarrow> string \<Rightarrow> catalogue \<Rightarrow> string option" where
  "dump_schema schema generated ct =
     concat_options [Some (dump_header schema generated), dump_tables schema ct, dump_indexes ct, dump_functions ct]"

lemma concat_options_None: "concat_options xs = None \<longleftrightarrow> None \<in> set xs"
  by (induction xs) (auto split: option.splits)

lemma manual_None: "dump_tables_manual schema ct = None \<longleftrightarrow>
    (case ct_tables ct of None \<Rightarrow> True | Some ts \<Rightarrow> \<exists>t \<in> set ts. ct_columns ct t = None)"
proof (cases "ct_tables ct")
  case (Some ts)
  have t: "None = dump_single_table schema ct t \<longleftrightarrow> ct_columns ct t = None" for t
    by (cases "ct_columns ct t") (simp_all add: dump_single_table_def)
  have "None \<in> set (map (dump_single_table schema ct) ts) \<longleftrightarrow> (\<exists>t \<in> set ts. ct_columns ct t = None)"
    by (simp add: image_iff t)
  then show ?thesis by (simp only: dump_tables_manual_def Some bind.simps concat_options_None option.case)
qed (simp add: dump_tables_manual_def)

text \<open>The dump is written just when every query it needs succeeds.\<close>

lemma dump_fails_with_its_queries:
  "dump_schema schema generated ct = None \<longleftrightarrow>
     ct_indexes ct = None \<or> ct_functions ct = None \<or>
     ct_table_defs ct = None \<and> (case ct_tables ct of None \<Rightarrow> True | Some ts \<Rightarrow> \<exists>t \<in> set ts. ct_columns ct t = None)"
proof -
  have "dump_schema schema generated ct = None \<longleftrightarrow>
      dump_tables schema ct = None \<or> dump_indexes ct = None \<or> dump_functions ct = None"
    by (simp only: dump_schema_def concat_options_None) auto
  moreover have "dump_tables schema ct = None \<longleftrightarrow> ct_table_defs ct = None \<and> dump_tables_manual schema ct = None"
    by (simp add: dump_tables_def split: option.split)
  ultimately show ?thesis by (auto simp: manual_None dump_indexes_def dump_functions_def)
qed

section \<open>The program\<close>

text \<open>
  \<open>main\<close>: what it prints at the end, by how far it gets.  \<open>connect\<close> opens and pings the database,
  \<open>catalogue_of\<close> is what the queries find there, and \<open>write\<close> writes the file.
\<close>

datatype dump_outcome =
    Usage
  | NoConnectionString
  | ConnectFailed string
  | PingFailed string
  | DumpFailed
  | WriteFailed string
  | Exported string string

definition dump_main ::
  "environment \<Rightarrow> bool \<Rightarrow> string \<Rightarrow> string \<Rightarrow> string \<Rightarrow> string \<Rightarrow> (string \<Rightarrow> string option \<times> string option)
     \<Rightarrow> catalogue \<Rightarrow> (string \<Rightarrow> string \<Rightarrow> string option) \<Rightarrow> dump_outcome" where
  "dump_main env help conn schema output generated connect ct write_file =
     (if help then Usage
      else
        (let url = dump_connection_string env conn in
         if url = [] then NoConnectionString
         else case connect url of
           (Some e, _) \<Rightarrow> ConnectFailed e
         | (None, Some e) \<Rightarrow> PingFailed e
         | (None, None) \<Rightarrow>
             (let name = dump_schema_name env schema; file = dump_output_file name output in
              case dump_schema name generated ct of
                None \<Rightarrow> DumpFailed
              | Some content \<Rightarrow>
                  (case write_file file content of Some e \<Rightarrow> WriteFailed e | None \<Rightarrow> Exported name file))))"

text \<open>The check for a missing connection string is dead: the parts all have defaults.\<close>

lemma connection_string_given: "dump_connection_string env conn \<noteq> []"
  by (simp add: dump_connection_string_def Let_def)

lemma never_without_connection_string:
  "dump_main env help conn schema output generated connect ct write_file \<noteq> NoConnectionString"
  by (simp add: dump_main_def connection_string_given Let_def split: prod.split option.split)

end
