(* ===== verification/Task_Context.thy ===== *)
theory Task_Context
  imports Job_Helpers Log_Output
begin

text \<open>
  What a task handler is given: the helpers of a worker (\<open>CreateHelpers\<close> of
  pkg/worker/helpers.go) and those made from options (\<open>MakeJobHelpers\<close> of
  pkg/worker/helpers_factory.go): a logger with the scope of the job, the job, a transaction and
  a function that adds jobs.  A query's rows are left out.
\<close>

type_synonym tx_runner = "(store \<Rightarrow> store \<times> utils_error option) \<Rightarrow> store \<Rightarrow> store \<times> utils_error option"

record 's job_helpers =
  hp_logger :: logger
  hp_job :: go_job
  hp_with_pg_client :: tx_runner
  hp_add_job :: "string \<Rightarrow> payload \<Rightarrow> job_spec list \<Rightarrow> 's \<Rightarrow> 's \<times> string option"

definition create_helpers ::
  "worker \<Rightarrow> logger \<Rightarrow> tx_env \<Rightarrow> (worker_error \<Rightarrow> string) \<Rightarrow> go_job \<Rightarrow> wstate job_helpers" where
  "create_helpers wk lg e show_error job =
     \<lparr>hp_logger = scope_logger \<lparr>sc_label = ''job'', sc_worker = wk_id wk, sc_task = jb_task job,
        sc_job = Some (jb_id job)\<rparr> lg,
      hp_job = job, hp_with_pg_client = with_pg_client_from_pool e,
      hp_add_job = (\<lambda>task payload specs st.
        case worker_add_job_with_task_spec wk task payload specs st of
          (st', err) \<Rightarrow> (st', map_option show_error err))\<rparr>"

text \<open>
  Without a logger it asks for one with a nil factory, which \<open>NewLogger\<close> calls: a panic, \<open>None\<close>.
  The options are their logger and what \<open>shared_options\<close> holds.
\<close>

definition make_job_helpers ::
  "(logger option \<times> shared_options) option \<Rightarrow> go_job \<Rightarrow> tx_runner \<Rightarrow> logger option \<Rightarrow> int \<Rightarrow> int
     \<Rightarrow> (utils_error \<Rightarrow> string) \<Rightarrow> store job_helpers option" where
  "make_job_helpers options job with_pg_client override clock now show_error =
     (case (case override of Some lg \<Rightarrow> Some lg | None \<Rightarrow> Option.bind options fst) of
        None \<Rightarrow> None
      | Some lg \<Rightarrow>
          Some \<lparr>hp_logger = scope_logger \<lparr>sc_label = ''job'', sc_worker = [], sc_task = jb_task job,
                  sc_job = Some (jb_id job)\<rparr> lg,
            hp_job = job, hp_with_pg_client = with_pg_client,
            hp_add_job = (\<lambda>task payload specs st.
              case make_add_job_with_options (map_option snd options) with_pg_client clock now task payload specs st of
                (st', err) \<Rightarrow> (st', map_option show_error err))\<rparr>)"

lemma helpers_need_a_logger:
  "make_job_helpers options job tx override clock now show_error = None \<longleftrightarrow>
     override = None \<and> (\<forall>lg so. options \<noteq> Some (Some lg, so))"
  by (cases options) (auto simp: make_job_helpers_def split: option.splits)

text \<open>The helpers log under the worker, the task and the job they were made for.\<close>

lemma helpers_scope:
  "lg_scope (hp_logger (create_helpers wk lg e show_error job)) =
     merge_scope (lg_scope lg) \<lparr>sc_label = ''job'', sc_worker = wk_id wk, sc_task = jb_task job,
       sc_job = Some (jb_id job)\<rparr>"
  by (simp add: create_helpers_def scope_logger_def)

end
