(* ===== verification/Worker_Drain.thy ===== *)
theory Worker_Drain
  imports Worker_Facts Queue_Protocol "HOL-Library.Sublist"
begin

text \<open>
  What a worker that runs once gets done: over a working database, with tasks that succeed and
  leave the store alone, every job that it may run when it starts is run and completed.
\<close>

section \<open>Queues\<close>

definition queue_unlocked :: "string \<Rightarrow> store \<Rightarrow> bool" where
  "queue_unlocked n st \<longleftrightarrow> (\<forall>r. st_queues st n = Some r \<longrightarrow> q_locked_at r = None)"

lemma unlocked_delete: "queue_unlocked n st \<Longrightarrow> queue_unlocked n (delete_jobs P st)"
  by (auto simp: queue_unlocked_def delete_jobs_def dest!: fold_decrease_old)

lemma unlocked_again:
  "queue_unlocked n st \<Longrightarrow> queue_unlocked n (unlock_queue w q (update_jobs pg P f (lock_queue w now q st)))"
  by (auto simp: queue_unlocked_def unlock_queue_def update_jobs_def lock_queue_def split: option.splits if_splits)

lemma queue_free_iff:
  assumes "store_ok st" "j \<in> set (st_jobs st)"
  shows "queue_free none_held st (j_queue j) \<longleftrightarrow> (\<forall>n. j_queue j = Some n \<longrightarrow> queue_unlocked n st)"
  using queue_row_exists [OF _ assms(2)] store_okD [OF assms(1)]
  by (auto simp: queue_free_def queue_unlocked_def none_held_def split: option.split)

text \<open>Taking a job and completing it frees its queue again.\<close>

lemma completed_after_taken:
  assumes ok: "store_ok st" and j: "j \<in> set (st_jobs st)" "runnable none_held now ts fl st j"
    and db: "db = update_jobs pg (\<lambda>j'. j_id j' = j_id j) (claim w now) (lock_queue w now (j_queue j) st)"
  shows "find_job i (complete_job w (j_id j) db) = (if i = j_id j then None else find_job i st)"
    and "k \<in> set (st_jobs st) \<Longrightarrow> j_id k \<noteq> j_id j \<Longrightarrow> now \<le> now' \<Longrightarrow> runnable none_held now ts fl st k \<Longrightarrow>
      runnable none_held now' ts fl (complete_job w (j_id j) db) k"
proof -
  let ?st' = "complete_job w (j_id j) db"
  have okdb: "store_ok db" unfolding db by (rule update_jobs_ok [OF lock_queue_ok [OF ok] tame_claim])
  have ids: "ids_ok st" "ids_ok (lock_queue w now (j_queue j) st)" "ids_ok db"
    using store_okD ok okdb lock_queue_ok [OF ok] by blast+
  have fj: "find_job i db = map_option (\<lambda>k. if j_id k = j_id j then touch pg k (claim w now k) else k) (find_job i st)" for i
    unfolding db by (simp add: find_job_update [OF ids(2)] claim_def)
  have other: "find_job i db = find_job i st" if "i \<noteq> j_id j" for i
    using that find_job_iff [OF ids(1), of i "the (find_job i st)"] by (cases "find_job i st") (auto simp: fj)
  show f: "find_job i ?st' = (if i = j_id j then None else find_job i st)" for i
    using other by (simp add: find_job_complete [OF okdb])
  assume k: "k \<in> set (st_jobs st)" "j_id k \<noteq> j_id j" "now \<le> now'" "runnable none_held now ts fl st k"
  have "find_job (j_id j) st = Some j" using j(1) find_job_iff [OF ids(1)] by blast
  then obtain row where row: "find_job (j_id j) db = Some row" "j_queue row = j_queue j"
    by (auto simp: fj claim_def)
  have un: "queue_unlocked n ?st'" if "queue_unlocked n st" for n
    using unlocked_delete [OF unlocked_again [OF that, of w "j_queue j" pg _ _ now]]
    by (simp add: complete_job_def row db [symmetric]) (simp add: db)
  have "find_job (j_id k) ?st' = Some k" using k(1,2) find_job_iff [OF ids(1)] f by simp
  then have "k \<in> set (st_jobs ?st')" using find_job_iff store_okD complete_job_ok [OF okdb] by blast
  then show "runnable none_held now' ts fl ?st' k"
    using k queue_free_iff [OF complete_job_ok [OF okdb], of k] queue_free_iff [OF ok k(1)] un
    by (auto simp: runnable_def)
qed

section \<open>Obliging tasks\<close>

text \<open>What a task may change: the clocks go on, and it may emit events.\<close>

definition goes_on :: "wstate \<Rightarrow> wstate \<Rightarrow> bool" where
  "goes_on st st' \<longleftrightarrow>
     ws_script st' = ws_script st \<and> ws_cancelled st' = ws_cancelled st \<and>
     ws_pool_closed st' = ws_pool_closed st \<and> ws_now st \<le> ws_now st' \<and>
     ws_node_now st \<le> ws_node_now st' \<and> prefix (ws_events st) (ws_events st')"

definition obliging :: "worker \<Rightarrow> bool" where
  "obliging wk \<longleftrightarrow> wk_event_bus wk \<and> wk_handlers wk \<noteq> [] \<and> wk_forbidden wk = None \<and> wk_forbidden_fn wk = None \<and>
     (\<forall>(t, h) \<in> set (wk_handlers wk). \<forall>p job st. \<exists>st'. h p job st = (st', Returned None) \<and>
        goes_on st st' \<and> ws_store st' = ws_store st)"

definition undisturbed_db :: "wstate \<Rightarrow> bool" where
  "undisturbed_db st \<longleftrightarrow>
     store_ok (ws_store st) \<and> ws_script st = [] \<and> \<not> ws_cancelled st \<and> \<not> ws_pool_closed st"

abbreviation wanted :: "worker \<Rightarrow> wstate \<Rightarrow> job_row \<Rightarrow> bool" where
  "wanted wk st j \<equiv> j \<in> set (st_jobs (ws_store st)) \<and>
     runnable none_held (worker_now wk st) (Some (map fst (wk_handlers wk))) None (ws_store st) j"

definition succeeded :: "wstate \<Rightarrow> int \<Rightarrow> bool" where
  "succeeded st i \<longleftrightarrow> (\<exists>ev \<in> set (ws_events st). ev_type ev = JobSuccess \<and> ev_job ev = Some i)"

lemma goes_on_trans: "goes_on a b \<Longrightarrow> goes_on b c \<Longrightarrow> goes_on a c"
  by (auto simp: goes_on_def intro: prefix_order.trans)

lemma goes_on_emit: "goes_on st (emit wk ty i e st)"
  by (simp add: goes_on_def) (simp add: emit_def)

lemma goes_on_now: "goes_on st st' \<Longrightarrow> worker_now wk st \<le> worker_now wk st'"
  by (simp add: goes_on_def worker_now_def)

lemma goes_on_succeeded: "goes_on st st' \<Longrightarrow> succeeded st i \<Longrightarrow> succeeded st' i"
  by (auto simp: goes_on_def succeeded_def dest: set_mono_prefix)

lemma goes_on_db:
  "goes_on st st' \<Longrightarrow> undisturbed_db st \<Longrightarrow> undisturbed_db st' \<longleftrightarrow> store_ok (ws_store st')"
  by (simp add: goes_on_def undisturbed_db_def)

lemma obliging_quiet_call:
  assumes "undisturbed_db st"
  shows "wait wk st = st" "call_result st = DbWorks"
  using assms by (simp_all add: undisturbed_db_def wait_quiet call_result_def pool_result_def next_env_def quiet_def)

section \<open>One job\<close>

lemma obliging_get_job:
  assumes "obliging wk" "undisturbed_db st"
  obtains (none) st' where "worker_get_job wk st = (st', Inr None)" "goes_on st st'" "ws_store st' = ws_store st"
      "\<And>j. \<not> wanted wk st j"
  | (job) st' j where "worker_get_job wk st = (st', Inr (Some (touch (ws_now st) j (claim (wk_id wk) (worker_now wk st) j))))"
      "goes_on st st'" "wanted wk st j"
      "ws_store st' = update_jobs (ws_now st) (\<lambda>j'. j_id j' = j_id j) (claim (wk_id wk) (worker_now wk st))
         (lock_queue (wk_id wk) (worker_now wk st) (j_queue j) (ws_store st))"
proof -
  let ?st = "emit wk WorkerGetJobStart None None st"
  have "undisturbed_db ?st" using assms(2) by (simp add: undisturbed_db_def)
  then have c: "wait wk ?st = ?st" "call_result st = DbWorks" "es_held (next_env st) = none_held"
      "es_read (next_env st) = ClaimRead"
    using obliging_quiet_call assms(2) by (auto simp: undisturbed_db_def next_env_def quiet_def)
  have f: "forbidden_flags wk ?st = Inr []" "nonempty (map fst (wk_handlers wk)) = Some (map fst (wk_handlers wk))"
    "nonempty [] = None"
    using assms(1) by (simp_all add: obliging_def forbidden_flags_def nonempty_def)
  have g: "worker_get_job wk st =
    (case get_job none_held (ws_now st) (worker_now wk st) (wk_id wk) (Some (map fst (wk_handlers wk))) None (ws_store st) of
       (db, None) \<Rightarrow> (emit wk WorkerGetJobEmpty None None ?st, Inr None)
     | (db, Some job) \<Rightarrow> (?st\<lparr>ws_store := db\<rparr>, Inr (Some job)))"
    by (simp add: worker_get_job_def Let_def c f)
  show thesis
  proof (cases rule: get_job_cases [of none_held "ws_now st" "worker_now wk st" "wk_id wk"
        "Some (map fst (wk_handlers wk))" None "ws_store st"])
    case empty
    then show thesis
      by (intro none [of "emit wk WorkerGetJobEmpty None None ?st"])
         (auto simp: g intro: goes_on_trans goes_on_emit)
  next
    case (taken j)
    show thesis
      by (rule job [of "?st\<lparr>ws_store := fst (get_job none_held (ws_now st) (worker_now wk st) (wk_id wk)
            (Some (map fst (wk_handlers wk))) None (ws_store st))\<rparr>" j])
         (use taken goes_on_emit [of st wk WorkerGetJobStart None None] in \<open>auto simp: g goes_on_def\<close>)
  qed
qed

lemma obliging_process_job:
  assumes "obliging wk" "undisturbed_db st" "j_task row \<in> set (map fst (wk_handlers wk))"
  obtains st' where "process_job wk row st = (st', Returned None)" "goes_on st st'"
    "ws_store st' = complete_job (wk_id wk) (j_id row) (ws_store st)" "succeeded st' (j_id row)"
proof -
  obtain h where h: "map_of (wk_handlers wk) (j_task row) = Some h"
    using assms(3) by (metis dom_map_of_conv_image_fst domD image_set)
  let ?st1 = "emit wk JobStart (Some (j_id row)) None (st\<lparr>ws_active_job := Some (j_id row)\<rparr>)"
  obtain mid where mid: "h (j_payload row) row ?st1 = (mid, Returned None)" "goes_on ?st1 mid"
      "ws_store mid = ws_store ?st1"
    using assms(1) map_of_SomeD [OF h] unfolding obliging_def by fast
  have g1: "goes_on st ?st1" by (simp add: goes_on_def) (simp add: emit_def)
  let ?s = "emit wk JobSuccess (Some (j_id row)) None mid"
  let ?done = "?s\<lparr>ws_store := complete_job (wk_id wk) (j_id row) (ws_store st)\<rparr>"
  let ?fin = "emit wk JobComplete (Some (j_id row)) None ?done"
  have g: "goes_on st ?s" using goes_on_trans [OF g1 goes_on_trans [OF mid(2) goes_on_emit]] .
  have "undisturbed_db ?s" using goes_on_db [OF g assms(2)] assms(2) mid(3) by (simp add: undisturbed_db_def)
  note c = obliging_quiet_call [OF this]
  have "finish_job wk row None mid = (?fin, None)"
    using c mid(3) by (simp add: finish_job_def worker_complete_job_def statement_def Let_def)
  then have p: "process_job wk row st = (?fin\<lparr>ws_active_job := None\<rparr>, Returned None)"
    by (simp add: process_job_def h mid(1) Let_def)
  have bus: "wk_event_bus wk" using assms(1) by (simp add: obliging_def)
  have "goes_on ?s (?fin\<lparr>ws_active_job := None\<rparr>)"
    by (simp add: goes_on_def) (simp add: emit_def)
  then have "goes_on st (?fin\<lparr>ws_active_job := None\<rparr>)" by (rule goes_on_trans [OF g])
  moreover have "succeeded (?fin\<lparr>ws_active_job := None\<rparr>) (j_id row)"
    using bus by (simp add: succeeded_def emit_def)
  ultimately show thesis using that p by simp
qed


section \<open>All of them\<close>

lemma run_once_round:
  assumes "obliging wk" "undisturbed_db st"
  obtains (finished) st' where "run_once wk st = Some (st', Returned None)" "goes_on st st'" "ws_store st' = ws_store st"
      "\<And>j. \<not> wanted wk st j"
  | (next_job) st' j where "run_once wk st = run_once wk st'" "goes_on st st'" "undisturbed_db st'" "wanted wk st j"
      "succeeded st' (j_id j)" "find_job (j_id j) (ws_store st') = None"
      "\<And>i. i \<noteq> j_id j \<Longrightarrow> find_job i (ws_store st') = find_job i (ws_store st)"
      "\<And>k. wanted wk st k \<Longrightarrow> j_id k \<noteq> j_id j \<Longrightarrow> wanted wk st' k"
      "attempts_left (ws_store st') < attempts_left (ws_store st)"
proof (cases rule: obliging_get_job [OF assms])
  case (1 st')
  then show thesis using assms(2)
    by (intro finished [of st']) (auto simp: undisturbed_db_def run_once.simps [of wk st])
next
  case (2 st1 j)
  let ?w = "wk_id wk" and ?now = "worker_now wk st"
  let ?row = "touch (ws_now st) j (claim ?w ?now j)"
  have ok: "store_ok (ws_store st)" using assms(2) by (simp add: undisturbed_db_def)
  have ok1: "store_ok (ws_store st1)"
    unfolding 2(4) by (rule update_jobs_ok [OF lock_queue_ok [OF ok] tame_claim])
  have u1: "undisturbed_db st1" using goes_on_db [OF 2(2) assms(2)] ok1 by simp
  have row: "j_id ?row = j_id j" "j_task ?row \<in> set (map fst (wk_handlers wk))"
    using 2(3) by (auto simp: claim_def runnable_def)
  obtain st2 where p: "process_job wk ?row st1 = (st2, Returned None)" "goes_on st1 st2"
      "ws_store st2 = complete_job ?w (j_id j) (ws_store st1)" "succeeded st2 (j_id j)"
    using obliging_process_job [OF assms(1) u1 row(2)] row(1) by metis
  have g: "goes_on st st2" using goes_on_trans [OF 2(2) p(2)] .
  have ok2: "store_ok (ws_store st2)" unfolding p(3) by (rule complete_job_ok [OF ok1])
  note taken = completed_after_taken [OF ok _ _ 2(4), of "Some (map fst (wk_handlers wk))" None, folded p(3)]
  have jw: "j \<in> set (st_jobs (ws_store st))"
    "runnable none_held ?now (Some (map fst (wk_handlers wk))) None (ws_store st) j" using 2(3) by auto
  show thesis
  proof (rule next_job [of st2 j])
    show "run_once wk st = run_once wk st2"
      using assms(2) by (simp add: run_once.simps [of wk st] undisturbed_db_def 2(1) p(1))
    show "undisturbed_db st2" using goes_on_db [OF g assms(2)] ok2 by simp
    show "find_job (j_id j) (ws_store st2) = None" using taken(1) [OF jw] by simp
    show "find_job i (ws_store st2) = find_job i (ws_store st)" if "i \<noteq> j_id j" for i
      using taken(1) [OF jw] that by simp
    show "wanted wk st2 k" if "wanted wk st k" "j_id k \<noteq> j_id j" for k
    proof
      show "runnable none_held (worker_now wk st2) (Some (map fst (wk_handlers wk))) None (ws_store st2) k"
        using taken(2) [OF jw _ that(2) goes_on_now [OF g]] that(1) by simp
      have "find_job (j_id k) (ws_store st2) = Some k"
        using taken(1) [OF jw] that find_job_iff store_okD [OF ok] by simp
      then show "k \<in> set (st_jobs (ws_store st2))" using find_job_iff store_okD [OF ok2] by blast
    qed
    have "attempts_left (ws_store st1) < attempts_left (ws_store st)"
      using worker_get_job_attempts [OF 2(1)] .
    then show "attempts_left (ws_store st2) < attempts_left (ws_store st)"
      unfolding p(3) using attempts_left_complete by (meson le_less_trans)
  qed (use g p(4) 2(3) in auto)
qed

lemma run_once_all:
  assumes "obliging wk" "undisturbed_db st"
  shows "\<exists>st'. run_once wk st = Some (st', Returned None) \<and> store_ok (ws_store st') \<and> goes_on st st' \<and>
    (\<forall>j. wanted wk st j \<longrightarrow> succeeded st' (j_id j) \<and> find_job (j_id j) (ws_store st') = None) \<and>
    (\<forall>i j. find_job i (ws_store st') = Some j \<longrightarrow> find_job i (ws_store st) = Some j)"
  using assms
proof (induction "attempts_left (ws_store st)" arbitrary: st rule: less_induct)
  case less
  show ?case
  proof (cases rule: run_once_round [OF less.prems])
    case (1 st')
    then show ?thesis using less.prems(2) by (auto simp: undisturbed_db_def)
  next
    case (2 st1 j)
    from less.hyps [OF 2(9) less.prems(1) 2(3)] obtain st' where st':
        "run_once wk st1 = Some (st', Returned None)" "store_ok (ws_store st')" "goes_on st1 st'"
        "\<And>k. wanted wk st1 k \<Longrightarrow> succeeded st' (j_id k) \<and> find_job (j_id k) (ws_store st') = None"
        "\<And>i k. find_job i (ws_store st') = Some k \<Longrightarrow> find_job i (ws_store st1) = Some k" by blast
    have "succeeded st' (j_id k) \<and> find_job (j_id k) (ws_store st') = None" if "wanted wk st k" for k
    proof (cases "j_id k = j_id j")
      case True
      then show ?thesis
        using goes_on_succeeded [OF st'(3) 2(5)] 2(6) st'(5) [of "j_id j"] by (cases "find_job (j_id j) (ws_store st')") auto
    qed (use st'(4) 2(8) that in blast)
    moreover have "find_job i (ws_store st) = Some k" if "find_job i (ws_store st') = Some k" for i k
      using st'(5) [OF that] 2(6,7) by (cases "i = j_id j") auto
    moreover have "run_once wk st = Some (st', Returned None)" unfolding 2(1) by (rule st'(1))
    ultimately show ?thesis using st'(2) goes_on_trans [OF 2(2) st'(3)] by blast
  qed
qed

text \<open>
  C7: over a working database, with tasks that succeed and leave the store alone, \<open>RunOnce\<close>
  returns without an error, and every job the worker may run when it starts, one after the other
  in a queue as well, has been run with success and is gone; the jobs that are left are unchanged.
\<close>

theorem run_once_completes_everything:
  assumes "obliging wk" "undisturbed_db st"
  shows "\<exists>st'. run_once wk st = Some (st', Returned None) \<and> store_ok (ws_store st') \<and>
    (\<forall>j. wanted wk st j \<longrightarrow> succeeded st' (j_id j) \<and> find_job (j_id j) (ws_store st') = None) \<and>
    (\<forall>i j. find_job i (ws_store st') = Some j \<longrightarrow> find_job i (ws_store st) = Some j)"
  using run_once_all [OF assms] by blast

lemma run_once_completes_everything_witness:
  "\<exists>st'. run_once (test_worker [(''t'', always_ok)]\<lparr>wk_event_bus := True\<rparr>) (new_state (jobs_added 3) 5 5 (\<lambda>_. 1) [])
       = Some (st', Returned None) \<and> (\<forall>i \<in> {1..3}. succeeded st' i \<and> find_job i (ws_store st') = None)"
proof -
  let ?wk = "test_worker [(''t'', always_ok)]\<lparr>wk_event_bus := True\<rparr>"
  let ?st = "new_state (jobs_added 3) 5 5 (\<lambda>_. 1) []"
  have "obliging ?wk"
    by (simp add: obliging_def test_worker_def new_worker_def always_ok_def goes_on_def)
  moreover have "undisturbed_db ?st" using jobs_added_ok by (simp add: undisturbed_db_def new_state_def)
  ultimately obtain st' where st': "run_once ?wk ?st = Some (st', Returned None)"
      "\<And>j. wanted ?wk ?st j \<Longrightarrow> succeeded st' (j_id j) \<and> find_job (j_id j) (ws_store st') = None"
    using run_once_completes_everything [of ?wk ?st] by blast
  have "succeeded st' i \<and> find_job i (ws_store st') = None" if i: "i \<in> {1..3}" for i
  proof -
    let ?j = "(row_of_spec 0 (plain_spec ''t'' None))\<lparr>j_id := i\<rparr>"
    have "ws_store ?st = jobs_added 3" by (simp add: new_state_def)
    then have "?j \<in> set (st_jobs (ws_store ?st))" using i jobs_added_rows [of 3] by simp
    moreover have "runnable none_held (worker_now ?wk ?st) (Some (map fst (wk_handlers ?wk))) None (ws_store ?st) ?j"
      by (simp add: new_state_def worker_now_def test_worker_def new_worker_def runnable_def queue_free_def
          row_of_spec_def plain_spec_def coalesce_def none_held_def)
    ultimately show ?thesis using st'(2) [of ?j] by simp
  qed
  then show ?thesis using st'(1) by blast
qed

end
