(* ===== verification/Cron_To_Worker.thy ===== *)
theory Cron_To_Worker
  imports Cron_Scheduler_Facts Cron_Parser_Facts Worker_Drain
begin

text \<open>
  The crontab, the scheduler, the job store and a worker together: a line of a crontab whose
  minute has come is run.
\<close>

section \<open>The rows a tick adds\<close>

lemma log_tick_keeps:
  assumes "P s" "\<And>i x s. (i, x) \<in> set xs \<Longrightarrow> P s \<Longrightarrow> P (add x t (rec i t s))"
  shows "P (log_tick seen rec add t xs s)"
  using assms
proof (induction xs arbitrary: s)
  case (Cons p xs)
  obtain i x where p: "p = (i, x)" by force
  have "P (if seen i t s then s else add x t (rec i t s))" using Cons.prems by (simp add: p)
  then show ?case using Cons by (auto simp: p)
qed simp

definition cron_row :: "int \<Rightarrow> int \<Rightarrow> parsed_cron_item \<Rightarrow> job_row" where
  "cron_row pg t item =
     row_of_spec pg (spec_call (cj_task (pci_job item)) (coalesce (cj_payload (pci_job item)) ''null'')
       [cron_spec (pci_job item) t])"

lemma cron_row_fields [simp]:
  "j_task (cron_row pg t item) = cj_task (pci_job item)" "j_run_at (cron_row pg t item) = micro t"
  "j_queue (cron_row pg t item) = cj_queue_name (pci_job item)" "j_key (cron_row pg t item) = cj_job_key (pci_job item)"
  "j_locked_at (cron_row pg t item) = None" "j_locked_by (cron_row pg t item) = None"
  "j_attempts (cron_row pg t item) = 0"
  by (simp_all add: cron_row_def row_of_spec_def coalesce_def)

lemma cron_row_attempts: "plain_cron_item c item \<Longrightarrow> 0 < j_max_attempts (cron_row pg t item)"
  by (auto simp: plain_cron_item_def check_spec_def cron_row_def row_of_spec_def coalesce_def
      split: if_splits option.splits)

lemma cron_add_inserts:
  assumes "plain_cron_item c item"
  shows "cron_add c pg item t st = fst (insert_job (cron_row pg t item) (notify st))"
proof -
  let ?s = "spec_call (cj_task (pci_job item)) (coalesce (cj_payload (pci_job item)) ''null'') [cron_spec (pci_job item) t]"
  have c: "check_spec ?s = None" "s_key ?s = None" by (rule plain_item_spec [OF assms])+
  then have "add_job pg ?s st = Inr (insert_job (cron_row pg t item) (notify st))"
    by (simp add: add_job_def cron_row_def)
  then show ?thesis using assms
    by (auto simp: cron_add_def quick_add_job_def acquire_def plain_cron_item_def split: prod.split)
qed

lemma record_execution_frame [simp]:
  "st_queues (record_execution i t st) = st_queues st" "st_next_id (record_execution i t st) = st_next_id st"
  by (simp_all add: record_execution_def split: option.split)

lemma store_ok_crontabs: "st_jobs st' = st_jobs st \<Longrightarrow> st_queues st' = st_queues st \<Longrightarrow> st_next_id st' = st_next_id st \<Longrightarrow>
    store_ok st' = store_ok st"
  by (simp add: store_ok_def ids_ok_def keys_ok_def queues_ok_def locks_ok_def)

lemma cron_step_keeps:
  assumes "plain_cron_item c item"
  shows "store_ok st \<Longrightarrow> store_ok (cron_add c pg item t (record_execution i u st))"
    and "queue_unlocked n st \<Longrightarrow> queue_unlocked n (cron_add c pg item t (record_execution i u st))"
    and "st_next_id (cron_add c pg item t (record_execution i u st)) = st_next_id st + 1"
proof -
  let ?st = "notify (record_execution i u st)"
  note add = cron_add_inserts [OF assms, of pg t "record_execution i u st"]
  show "store_ok (cron_add c pg item t (record_execution i u st))" if "store_ok st"
  proof -
    have "store_ok ?st" using that store_ok_crontabs [of ?st st] by simp
    then show ?thesis unfolding add
      using assms by (intro insert_job_ok) (auto simp: plain_cron_item_def)
  qed
  show "queue_unlocked n (cron_add c pg item t (record_execution i u st))" if "queue_unlocked n st"
    using that by (auto simp: add queue_unlocked_def insert_job_def increase_count_def Let_def split: option.splits if_splits)
  show "st_next_id (cron_add c pg item t (record_execution i u st)) = st_next_id st + 1"
    by (simp add: add insert_job_def increase_count_def Let_def split: option.split)
qed

lemma tick_keeps:
  assumes "\<forall>item \<in> set items. plain_cron_item c item"
  shows "store_ok st \<Longrightarrow> store_ok (tick_store c pg t items st)"
    and "queue_unlocked n st \<Longrightarrow> queue_unlocked n (tick_store c pg t items st)"
  unfolding tick_store_def
  by (rule log_tick_keeps, assumption, rule cron_step_keeps; use assms in \<open>auto simp: due_def\<close>)+

text \<open>Every due item has a new row of its own.\<close>

lemma tick_adds_row:
  assumes "\<forall>item \<in> set items. plain_cron_item c item" "distinct (map pci_identifier items)"
    and "item \<in> set items" "matches (sc_loc c) item t" "\<not> execution_seen c (pci_identifier item) t st"
  shows "\<exists>i \<ge> st_next_id st. (cron_row pg t item)\<lparr>j_id := i\<rparr> \<in> set (st_jobs (tick_store c pg t items st))"
  using assms
proof (induction items arbitrary: st)
  case (Cons x items)
  let ?i = "pci_identifier x"
  let ?st = "cron_add c pg x t (record_execution ?i (micro t) st)"
  have x: "plain_cron_item c x" using Cons.prems(1) by simp
  note add = cron_add_inserts [OF x, of pg t "record_execution ?i (micro t) st"]
  show ?case
  proof (cases "matches (sc_loc c) x t \<and> \<not> execution_seen c ?i t st")
    case False
    then have "tick_store c pg t (x # items) st = tick_store c pg t items st"
      by (auto simp: tick_store_def due_def)
    moreover have "item \<noteq> x" using False Cons.prems(4,5) by auto
    ultimately show ?thesis using Cons.IH [of st] Cons.prems by auto
  next
    case True
    then have eq: "tick_store c pg t (x # items) st = tick_store c pg t items ?st"
      by (simp add: tick_store_def due_def)
    show ?thesis
    proof (cases "item = x")
      case True
      let ?row = "(cron_row pg t item)\<lparr>j_id := st_next_id st\<rparr>"
      have "?row \<in> set (st_jobs ?st)" by (simp add: add True insert_job_def Let_def)
      then have "?row \<in> set (st_jobs (tick_store c pg t items ?st))"
        unfolding tick_store_def
      proof (rule log_tick_keeps)
        fix i y and s :: store assume y: "(i, y) \<in> set (due c t items)" "?row \<in> set (st_jobs s)"
        then have "plain_cron_item c y" using Cons.prems(1) by (auto simp: due_def)
        from cron_add_inserts [OF this] show "?row \<in> set (st_jobs (cron_add c pg y t (record_execution i (micro t) s)))"
          using y(2) by (simp add: insert_job_def Let_def)
      qed
      then show ?thesis unfolding eq by blast
    next
      case False
      then have "item \<in> set items" using Cons.prems(3) by simp
      then have "pci_identifier item \<noteq> ?i"
        using Cons.prems(2) by (metis distinct.simps(2) image_eqI image_set list.simps(9))
      then have "\<not> execution_seen c (pci_identifier item) t ?st"
        using Cons.prems(5) by (simp add: crontabs.seen_add crontabs.seen_rec_other)
      then obtain i where "i \<ge> st_next_id ?st" "(cron_row pg t item)\<lparr>j_id := i\<rparr> \<in> set (st_jobs (tick_store c pg t items ?st))"
        using Cons.IH [of ?st] Cons.prems \<open>item \<in> set items\<close> by auto
      then show ?thesis unfolding eq using cron_step_keeps(3) [OF x, of pg t ?i "micro t" st]
        by (intro exI [of _ i]) simp
    qed
  qed
qed simp


section \<open>From the line to the run\<close>

lemma parsed_line_task:
  "match_line line = Some (fs, task, opts, payload) \<Longrightarrow> parse_crontab_line json ord line n = Some (Inr item) \<Longrightarrow>
     cj_task (pci_job item) = task"
  by (auto simp: parse_crontab_line_def make_job_def Let_def)

lemma parsed_line_in_crontab:
  assumes "parse_crontab json ord crontab = Some (Inr items)"
    and "(n, line) \<in> set (entry_lines 0 (split_on (CHR 0x0A) crontab))"
  obtains item where "item \<in> set items" "parse_crontab_line json ord line n = Some (Inr item)"
proof -
  have "list_all2 (\<lambda>(i, line) item. parse_crontab_line json ord line i = Some (Inr item))
      (entry_lines 0 (split_on (CHR 0x0A) crontab)) items"
    using assms(1) parse_crontab_iff by blast
  moreover obtain k where k: "k < length (entry_lines 0 (split_on (CHR 0x0A) crontab))"
      "entry_lines 0 (split_on (CHR 0x0A) crontab) ! k = (n, line)"
    using assms(2) by (auto simp: in_set_conv_nth)
  ultimately have "k < length items" "parse_crontab_line json ord line n = Some (Inr (items ! k))"
    using list_all2_nthD list_all2_lengthD by fastforce+
  then show thesis using that [of "items ! k"] by simp
qed

text \<open>
  C6: in a crontab that parses, a line whose five fields cover the present minute makes its task
  run: the tick of a scheduler over a working database adds a job for the task, and a worker
  that has the task and then runs once, when nothing else disturbs the database and its tasks
  succeed, runs that job with success and removes it.
\<close>

theorem due_crontab_line_is_run:
  assumes "parse_crontab json ord crontab = Some (Inr (ss_items s))"
    and "(n, line) \<in> set (entry_lines 0 (split_on (CHR 0x0A) crontab))"
    and "match_line line = Some ([mi, h, d, mo, w], task, opts, payload)" "no_huge_step d" "no_huge_step mo"
    and "cron_meaning (field_set 0 59 False mi) (field_set 0 23 False h) (field_set 1 31 False d)
           (field_set 1 12 False mo) (field_set 0 6 True w) (digest_timestamp (sc_loc c) (ss_now s))"
    and "quiet_db s" "\<forall>item \<in> set (ss_items s). plain_cron_item c item"
    and "\<forall>item \<in> set (ss_items s). \<not> execution_seen c (pci_identifier item) (ss_now s) (ss_store s)"
    and "store_ok (ss_store s)" "\<forall>q. queue_unlocked q (ss_store s)"
    and "obliging wk" "task \<in> set (map fst (wk_handlers wk))"
    and "ws_store st = ss_store (scheduling_tick c s)"
    and "ws_script st = []" "\<not> ws_cancelled st" "\<not> ws_pool_closed st" "micro (ss_now s) \<le> worker_now wk st"
  shows "\<exists>job st'. find_job (j_id job) (ss_store s) = None \<and>
     find_job (j_id job) (ss_store (scheduling_tick c s)) = Some job \<and>
     j_task job = task \<and> j_run_at job = micro (ss_now s) \<and>
     run_once wk st = Some (st', Returned None) \<and>
     succeeded st' (j_id job) \<and> find_job (j_id job) (ws_store st') = None"
proof -
  let ?tick = "tick_store c (ss_pg_now s) (ss_now s) (ss_items s) (ss_store s)"
  obtain item where item: "item \<in> set (ss_items s)" "parse_crontab_line json ord line n = Some (Inr item)"
    using parsed_line_in_crontab [OF assms(1,2)] .
  obtain f where f: "pci_match item = Some f" "f (digest_timestamp (sc_loc c) (ss_now s))"
    using line_matcher [OF assms(3-5) item(2)] assms(6) by blast
  have m: "matches (sc_loc c) item (ss_now s)" using f by (simp add: matches_def is_parsed_def)
  have dist: "distinct (map pci_identifier (ss_items s))" using assms(1) parse_crontab_iff by blast
  have tick: "ss_store (scheduling_tick c s) = ?tick" using scheduling_tick_quiet [OF assms(7), of c] by simp
  have ok: "store_ok ?tick" and un: "queue_unlocked q ?tick" for q
    using tick_keeps [OF assms(8)] assms(10,11) by auto
  obtain i where i: "st_next_id (ss_store s) \<le> i" "(cron_row (ss_pg_now s) (ss_now s) item)\<lparr>j_id := i\<rparr> \<in> set (st_jobs ?tick)"
    using tick_adds_row [OF assms(8) dist item(1) m] assms(9) item(1) by blast
  let ?job = "(cron_row (ss_pg_now s) (ss_now s) item)\<lparr>j_id := i\<rparr>"
  have new: "find_job i (ss_store s) = None"
    using i(1) store_okD [OF assms(10)] by (force simp: find_job_def find_None_iff ids_ok_def)
  have found: "find_job i ?tick = Some ?job" using i(2) find_job_iff store_okD [OF ok] by simp
  have task: "cj_task (pci_job item) = task" by (rule parsed_line_task [OF assms(3) item(2)])
  have plain: "plain_cron_item c item" using assms(8) item(1) by blast
  have "queue_free none_held ?tick (j_queue ?job)" using queue_free_iff [OF ok i(2)] un by simp
  then have "wanted wk st ?job"
    using i(2) assms(13,18) cron_row_attempts [OF plain, of "ss_pg_now s" "ss_now s"]
    by (simp add: assms(14) tick runnable_def task none_held_def)
  moreover have "undisturbed_db st" using assms(14-17) ok by (simp add: undisturbed_db_def tick)
  ultimately obtain st' where "run_once wk st = Some (st', Returned None)" "succeeded st' i" "find_job i (ws_store st') = None"
    using run_once_all [OF assms(12)] by fastforce
  then show ?thesis using new found task by (intro exI [of _ ?job] exI [of _ st']) (simp add: tick)
qed

text \<open>The crontab of one line, at three minutes past the epoch.\<close>

definition minutely_text :: string where "minutely_text = ''* * * * * a''"

lemma minutely_text_parses:
  obtains item where "parse_crontab (\<lambda>_. None) (\<lambda>_ xs. xs) minutely_text = Some (Inr [item])"
    "pci_job item = make_job ''a'' None no_options"
    "entry_lines 0 (split_on (CHR 0x0A) minutely_text) = [(1, minutely_text)]"
    "match_line minutely_text = Some ([''*'', ''*'', ''*'', ''*'', ''*''], ''a'', [], [])"
proof -
  have m: "match_line minutely_text = Some ([''*'', ''*'', ''*'', ''*'', ''*''], ''a'', [], [])"
    by code_simp
  have e: "entry_lines 0 (split_on (CHR 0x0A) minutely_text) = [(1, minutely_text)]" by code_simp
  have "\<exists>q. parse_time_fields [''*'', ''*'', ''*'', ''*'', ''*''] = Some (Inr q)"
    using parse_time_fields_iff [of "[''*'', ''*'', ''*'', ''*'', ''*'']"] star_field by simp
  then obtain item where "parse_crontab_line (\<lambda>_. None) (\<lambda>_ xs. xs) minutely_text 1 = Some (Inr item)"
      "pci_job item = make_job ''a'' None no_options"
    by (auto simp: parse_crontab_line_def m parse_crontab_options_def parse_crontab_payload_def Let_def)
  then show thesis using that m e by (simp add: parse_crontab_iff)
qed

lemma due_crontab_line_witness:
  "\<exists>(job :: job_row) st' s. ss_store s = empty_store \<and> j_task job = ''a'' \<and>
     run_once (test_worker [(''a'', always_ok)]\<lparr>wk_event_bus := True\<rparr>)
       (new_state (ss_store (scheduling_tick utc_scheduler s)) 180000000 180000000 (\<lambda>_. 1) []) = Some (st', Returned None) \<and>
     succeeded st' (j_id job)"
proof -
  obtain item where p: "parse_crontab (\<lambda>_. None) (\<lambda>_ xs. xs) minutely_text = Some (Inr [item])"
    "pci_job item = make_job ''a'' None no_options"
    "entry_lines 0 (split_on (CHR 0x0A) minutely_text) = [(1, minutely_text)]"
    "match_line minutely_text = Some ([''*'', ''*'', ''*'', ''*'', ''*''], ''a'', [], [])"
    by (rule minutely_text_parses)
  let ?s = "new_sstate [item] empty_store 180000000000 180000000 []"
  let ?wk = "test_worker [(''a'', always_ok)]\<lparr>wk_event_bus := True\<rparr>"
  let ?st = "new_state (ss_store (scheduling_tick utc_scheduler ?s)) 180000000 180000000 (\<lambda>_. 1) []"
  have s: "ss_items ?s = [item]" "ss_store ?s = empty_store" "ss_now ?s = 180000000000" "quiet_db ?s"
    by (simp_all add: new_sstate_def quiet_db_def)
  have ok: "digest_ok (digest_timestamp (sc_loc utc_scheduler) (ss_now ?s))" by (rule digest_timestamp_ok)
  have c: "cron_meaning (field_set 0 59 False ''*'') (field_set 0 23 False ''*'') (field_set 1 31 False ''*'')
      (field_set 1 12 False ''*'') (field_set 0 6 True ''*'') (digest_timestamp (sc_loc utc_scheduler) (ss_now ?s))"
    using ok by (simp add: cron_meaning_def star_field digest_ok_def)
  have plain: "\<forall>x \<in> set (ss_items ?s). plain_cron_item utc_scheduler x"
    using p(2) by (simp add: s plain_cron_item_def utc_scheduler_def new_scheduler_def new_worker_utils_def
        make_job_def no_options_def check_spec_def)
  have seen: "\<forall>x \<in> set (ss_items ?s). \<not> execution_seen utc_scheduler (pci_identifier x) (ss_now ?s) (ss_store ?s)"
    unfolding s by (simp add: execution_seen_iff last_execution_def empty_store_def)
  have q: "store_ok (ss_store ?s)" "\<forall>n. queue_unlocked n (ss_store ?s)"
    unfolding s(2) by (rule empty_store_ok) (simp add: queue_unlocked_def empty_store_def)
  have wk: "obliging ?wk" "''a'' \<in> set (map fst (wk_handlers ?wk))"
    by (simp_all add: obliging_def test_worker_def new_worker_def always_ok_def goes_on_def)
  have st: "ws_store ?st = ss_store (scheduling_tick utc_scheduler ?s)" "ws_script ?st = []"
    "\<not> ws_cancelled ?st" "\<not> ws_pool_closed ?st" "micro (ss_now ?s) \<le> worker_now ?wk ?st"
    by (simp_all add: new_state_def s(3) micro_def worker_now_def)
  have l: "(1, minutely_text) \<in> set (entry_lines 0 (split_on (CHR 0x0A) minutely_text))" by (simp add: p(3))
  note n = star_field [THEN conjunct2, THEN conjunct2]
  have p1: "parse_crontab (\<lambda>_. None) (\<lambda>_ xs. xs) minutely_text = Some (Inr (ss_items ?s))"
    by (simp only: s(1) p(1))
  obtain job :: job_row and st' where "j_task job = ''a''" "run_once ?wk ?st = Some (st', Returned None)" "succeeded st' (j_id job)"
    using due_crontab_line_is_run [OF p1 l p(4) n n c s(4) plain seen q wk st] by blast
  then show ?thesis using s(2) by (intro exI [of _ job] exI [of _ st'] exI [of _ ?s] conjI)
qed

end
