(* ===== verification/Job_Scan.thy ===== *)
theory Job_Scan
  imports Worker_Utils
begin

text \<open>
  From the row of the \<open>get_job\<close> statement to the \<open>Job\<close> a task is given: the nullable columns
  that \<open>Worker.GetJob\<close> (worker.go) and \<open>GetJob\<close> (sql/get_job.go) scan, and how each of them
  fills the struct.  \<open>json.Unmarshal\<close> into \<open>map[string]bool\<close> is the argument \<open>unmarshal\<close>, and the
  text PostgreSQL writes for an object of flags the argument \<open>flags_text\<close>.
\<close>

section \<open>The scanned columns\<close>

record scanned =
  sn_id :: "int option"
  sn_queue :: "string option"
  sn_task :: "string option"
  sn_payload :: "string option"
  sn_priority :: "int option"
  sn_run_at :: "int option"
  sn_attempts :: "int option"
  sn_max_attempts :: "int option"
  sn_last_error :: "string option"
  sn_created_at :: "int option"
  sn_updated_at :: "int option"
  sn_key :: "string option"
  sn_revision :: "int option"
  sn_flags :: "string option"
  sn_locked_at :: "int option"
  sn_locked_by :: "string option"

text \<open>The driver gives a value for every column that is not null.\<close>

definition scan_row :: "(string list \<Rightarrow> string) \<Rightarrow> job_row \<Rightarrow> scanned" where
  "scan_row flags_text j =
     \<lparr>sn_id = Some (j_id j), sn_queue = j_queue j, sn_task = Some (j_task j),
      sn_payload = Some (j_payload j), sn_priority = Some (j_priority j), sn_run_at = Some (j_run_at j),
      sn_attempts = Some (j_attempts j), sn_max_attempts = Some (j_max_attempts j),
      sn_last_error = j_last_error j, sn_created_at = Some (j_created_at j),
      sn_updated_at = Some (j_updated_at j), sn_key = j_key j, sn_revision = Some (j_revision j),
      sn_flags = map_option flags_text (j_flags j), sn_locked_at = j_locked_at j,
      sn_locked_by = j_locked_by j\<rparr>"

text \<open>The zero value of the struct.\<close>

definition zero_job :: go_job where
  "zero_job = \<lparr>jb_id = [], jb_queue = None, jb_task = [], jb_payload = [], jb_priority = 0,
     jb_run_at = 0, jb_attempts = 0, jb_max_attempts = 0, jb_last_error = None, jb_created_at = 0,
     jb_updated_at = 0, jb_key = None, jb_revision = 0, jb_flags = None, jb_locked_at = None,
     jb_locked_by = None\<rparr>"

section \<open>Filling the struct\<close>

type_synonym flags_decoder = "string \<Rightarrow> (string, (string \<times> bool) list) result"

definition has_null :: "scanned \<Rightarrow> bool" where
  "has_null c \<longleftrightarrow> sn_id c = None \<or> sn_task c = None \<or> sn_payload c = None \<or> sn_priority c = None \<or>
     sn_run_at c = None \<or> sn_attempts c = None \<or> sn_max_attempts c = None \<or>
     sn_created_at c = None \<or> sn_updated_at c = None"

text \<open>
  \<open>Worker.GetJob\<close>: a null in a column that must have a value is read as no job, and flags that do
  not parse are an error.
\<close>

definition worker_scan :: "flags_decoder \<Rightarrow> scanned \<Rightarrow> (string, go_job option) result" where
  "worker_scan unmarshal c =
     (if has_null c then Inr None
      else
        let job = zero_job\<lparr>jb_id := itoa (the (sn_id c)), jb_queue := sn_queue c,
              jb_task := the (sn_task c), jb_payload := the (sn_payload c),
              jb_priority := the (sn_priority c), jb_run_at := the (sn_run_at c),
              jb_attempts := the (sn_attempts c), jb_max_attempts := the (sn_max_attempts c),
              jb_last_error := sn_last_error c, jb_created_at := the (sn_created_at c),
              jb_updated_at := the (sn_updated_at c), jb_key := sn_key c,
              jb_revision := (case sn_revision c of Some r \<Rightarrow> r | None \<Rightarrow> jb_revision zero_job)\<rparr>
        in case (case sn_flags c of
                   Some t \<Rightarrow> (case unmarshal t of Inl m \<Rightarrow> Inl m | Inr fl \<Rightarrow> Inr (Some fl))
                 | None \<Rightarrow> Inr None) of
             Inl m \<Rightarrow> Inl m
           | Inr fl \<Rightarrow> Inr (Some (job\<lparr>jb_flags := fl, jb_locked_at := sn_locked_at c,
                                  jb_locked_by := sn_locked_by c\<rparr>)))"

text \<open>
  \<open>GetJob\<close> of the sql package: a null leaves the zero value, and flags that do not parse are left
  out.
\<close>

definition set_if :: "'a option \<Rightarrow> ('a \<Rightarrow> go_job \<Rightarrow> go_job) \<Rightarrow> go_job \<Rightarrow> go_job" where
  "set_if v f job = (case v of Some x \<Rightarrow> f x job | None \<Rightarrow> job)"

definition sql_scan :: "flags_decoder \<Rightarrow> scanned \<Rightarrow> go_job" where
  "sql_scan unmarshal c =
     (let j1 = set_if (sn_id c) (\<lambda>x. jb_id_update (\<lambda>_. itoa x)) zero_job;
          j2 = set_if (sn_queue c) (\<lambda>x. jb_queue_update (\<lambda>_. Some x)) j1;
          j3 = set_if (sn_task c) (\<lambda>x. jb_task_update (\<lambda>_. x)) j2;
          j4 = set_if (sn_payload c) (\<lambda>x. jb_payload_update (\<lambda>_. x)) j3;
          j5 = set_if (sn_priority c) (\<lambda>x. jb_priority_update (\<lambda>_. x)) j4;
          j6 = set_if (sn_run_at c) (\<lambda>x. jb_run_at_update (\<lambda>_. x)) j5;
          j7 = set_if (sn_attempts c) (\<lambda>x. jb_attempts_update (\<lambda>_. x)) j6;
          j8 = set_if (sn_max_attempts c) (\<lambda>x. jb_max_attempts_update (\<lambda>_. x)) j7;
          j9 = set_if (sn_last_error c) (\<lambda>x. jb_last_error_update (\<lambda>_. Some x)) j8;
          j10 = set_if (sn_created_at c) (\<lambda>x. jb_created_at_update (\<lambda>_. x)) j9;
          j11 = set_if (sn_updated_at c) (\<lambda>x. jb_updated_at_update (\<lambda>_. x)) j10;
          j12 = set_if (sn_key c) (\<lambda>x. jb_key_update (\<lambda>_. Some x)) j11;
          j13 = set_if (sn_revision c) (\<lambda>x. jb_revision_update (\<lambda>_. x)) j12;
          j14 = (case sn_flags c of
                   Some t \<Rightarrow> (case unmarshal t of Inr fl \<Rightarrow> j13\<lparr>jb_flags := Some fl\<rparr> | Inl _ \<Rightarrow> j13)
                 | None \<Rightarrow> j13\<lparr>jb_flags := None\<rparr>);
          j15 = set_if (sn_locked_at c) (\<lambda>x. jb_locked_at_update (\<lambda>_. Some x)) j14
      in set_if (sn_locked_by c) (\<lambda>x. jb_locked_by_update (\<lambda>_. Some x)) j15)"

section \<open>The row arrives as it is\<close>

lemma set_if_simps [simp]: "set_if (Some x) f job = f x job" "set_if None f job = job"
  by (simp_all add: set_if_def)

lemma set_if_option:
  "jb_queue job = None \<Longrightarrow> set_if q (\<lambda>x. jb_queue_update (\<lambda>_. Some x)) job = job\<lparr>jb_queue := q\<rparr>"
  "jb_last_error job = None \<Longrightarrow> set_if e (\<lambda>x. jb_last_error_update (\<lambda>_. Some x)) job = job\<lparr>jb_last_error := e\<rparr>"
  "jb_key job = None \<Longrightarrow> set_if k (\<lambda>x. jb_key_update (\<lambda>_. Some x)) job = job\<lparr>jb_key := k\<rparr>"
  "jb_locked_at job = None \<Longrightarrow> set_if t (\<lambda>x. jb_locked_at_update (\<lambda>_. Some x)) job = job\<lparr>jb_locked_at := t\<rparr>"
  "jb_locked_by job = None \<Longrightarrow> set_if w (\<lambda>x. jb_locked_by_update (\<lambda>_. Some x)) job = job\<lparr>jb_locked_by := w\<rparr>"
  by (auto simp: set_if_def split: option.split)

text \<open>Where the worker gets a job, the sql package gets the same.\<close>

lemma scans_agree:
  assumes "worker_scan unmarshal c = Inr (Some job)"
  shows "sql_scan unmarshal c = job"
proof -
  have n: "\<not> has_null c" using assms by (auto simp: worker_scan_def split: if_splits)
  then obtain i t p pr ra at ma ca ua where some:
    "sn_id c = Some i" "sn_task c = Some t" "sn_payload c = Some p" "sn_priority c = Some pr"
    "sn_run_at c = Some ra" "sn_attempts c = Some at" "sn_max_attempts c = Some ma"
    "sn_created_at c = Some ca" "sn_updated_at c = Some ua"
    by (auto simp: has_null_def)
  show ?thesis using assms n
    by (auto simp: worker_scan_def sql_scan_def some set_if_option zero_job_def Let_def
        split: option.splits sum.splits)
qed

lemma worker_scan_row:
  "(\<And>fs. j_flags row = Some fs \<Longrightarrow> unmarshal (flags_text fs) = Inr (map (\<lambda>f. (f, True)) fs)) \<Longrightarrow>
     worker_scan unmarshal (scan_row flags_text row) = Inr (Some (job_of_row row))"
  by (cases "j_flags row")
     (simp_all add: worker_scan_def scan_row_def has_null_def job_of_row_def zero_job_def)

text \<open>
  C8: the job a task is given is the row the statement claimed, column by column, with the claim
  in it: locked now by the worker, one attempt more; the worker and the sql package agree on it.
  They part when the flags do not parse: the worker returns an error, with the row already
  claimed, and the sql package a job without flags.
\<close>

theorem claimed_row_is_given:
  assumes "get_job held pg now w tasks forbidden st = (st', Some row)" "ids_ok st"
    and "\<And>fs. j_flags row = Some fs \<Longrightarrow> unmarshal (flags_text fs) = Inr (map (\<lambda>f. (f, True)) fs)"
  shows "worker_scan unmarshal (scan_row flags_text row) = Inr (Some (job_of_row row)) \<and>
    sql_scan unmarshal (scan_row flags_text row) = job_of_row row \<and>
    jb_locked_by (job_of_row row) = Some w \<and> jb_locked_at (job_of_row row) = Some now \<and>
    (\<exists>old. find_job (j_id row) st = Some old \<and> jb_attempts (job_of_row row) = j_attempts old + 1 \<and>
       jb_payload (job_of_row row) = j_payload old \<and> jb_task (job_of_row row) = j_task old) \<and>
    (\<forall>m. j_flags row \<noteq> None \<longrightarrow>
       worker_scan (\<lambda>_. Inl m) (scan_row flags_text row) = Inl m \<and>
       sql_scan (\<lambda>_. Inl m) (scan_row flags_text row) = (job_of_row row)\<lparr>jb_flags := None\<rparr>)"
proof -
  have w: "worker_scan unmarshal (scan_row flags_text row) = Inr (Some (job_of_row row))"
    using assms(3) by (rule worker_scan_row)
  obtain j where j: "j \<in> set (st_jobs st)" "row = touch pg j (claim w now j)"
    using assms(1) by (cases rule: get_job_cases [of held pg now w tasks forbidden st]) auto
  have "find_job (j_id row) st = Some j" using j find_job_iff [OF assms(2)] by (simp add: claim_def)
  moreover have "worker_scan (\<lambda>_. Inl m) (scan_row flags_text row) = Inl m \<and>
      sql_scan (\<lambda>_. Inl m) (scan_row flags_text row) = (job_of_row row)\<lparr>jb_flags := None\<rparr>"
    if "j_flags row \<noteq> None" for m
    using that by (auto simp: worker_scan_def sql_scan_def scan_row_def has_null_def zero_job_def
        job_of_row_def set_if_option Let_def)
  ultimately show ?thesis using w scans_agree [OF w]
    by (auto simp: job_of_row_def j(2) claim_def)
qed

lemma claimed_row_is_given_witness:
  "let j = (row_of_spec 0 (plain_spec ''t'' (Some ''[1]'')))\<lparr>j_flags := Some [''f'']\<rparr>;
       st = fst (insert_job j empty_store);
       dec = \<lambda>t. Inr [(t, True)]
   in \<exists>st' row. get_job none_held 5 5 ''w'' None None st = (st', Some row) \<and>
        worker_scan dec (scan_row concat row) = Inr (Some (job_of_row row)) \<and>
        jb_flags (job_of_row row) = Some [(''f'', True)] \<and> jb_locked_by (job_of_row row) = Some ''w''"
proof -
  let ?j = "(row_of_spec 0 (plain_spec ''t'' (Some ''[1]'')))\<lparr>j_flags := Some [''f'']\<rparr>"
  let ?st = "fst (insert_job ?j empty_store)"
  let ?row = "touch 5 (?j\<lparr>j_id := 1\<rparr>) (claim ''w'' 5 (?j\<lparr>j_id := 1\<rparr>))"
  have ok: "store_ok ?st" by (rule insert_job_ok [OF empty_store_ok]) (simp_all add: plain_spec_def)
  have g: "snd (get_job none_held 5 5 ''w'' None None ?st) = Some ?row"
    by (simp add: get_job_def insert_job_def empty_store_def runnable_def row_of_spec_def plain_spec_def
        coalesce_def queue_free_def none_held_def increase_count_def Let_def)
  then obtain st' where g': "get_job none_held 5 5 ''w'' None None ?st = (st', Some ?row)"
    by (metis prod.collapse)
  have fl: "j_flags ?row = Some [''f'']" by (simp add: touch_def claim_def)
  have "worker_scan (\<lambda>t. Inr [(t, True)]) (scan_row concat ?row) = Inr (Some (job_of_row ?row)) \<and>
      jb_locked_by (job_of_row ?row) = Some ''w''"
    using claimed_row_is_given [OF g' store_okD(1) [OF ok], of "\<lambda>t. Inr [(t, True)]" concat] fl by simp
  then show ?thesis unfolding Let_def using g' fl by (intro exI conjI) (auto simp: job_of_row_def)
qed

end
