(* ===== verification/Cron_Calendar.thy ===== *)
theory Cron_Calendar
  imports Cron_Matcher
begin

text \<open>
  The calendar both ways, for the matchers that take a date apart or put one together:
  \<open>CreateConditionalMatcher\<close> (matcher_builder.go) and the condition of the example
  (examples/cron_enhanced_matching/main.go) that accepts the last Friday of a month.
\<close>

section \<open>Years\<close>

definition year_length :: "int \<Rightarrow> int" where "year_length y = (if leap_year y then 366 else 365)"

lemma div_step: "0 < k \<Longrightarrow> y div k - (y - 1) div k = (if y mod k = 0 then 1 else 0)" for y k :: int
proof -
  assume k: "0 < k"
  have y: "y = k * (y div k) + y mod k" by simp
  show ?thesis
  proof (cases "y mod k = 0")
    case True
    then have "y - 1 = k * (y div k - 1) + (k - 1)" using y by (simp add: algebra_simps)
    then have "(y - 1) div k = (y div k - 1) + (k - 1) div k" using k by (metis div_mult_self4 less_irrefl)
    then show ?thesis using True k by (simp add: div_pos_pos_trivial)
  next
    case False
    then have r: "0 \<le> y mod k - 1" "y mod k - 1 < k" using k pos_mod_sign [of k y] pos_mod_bound [of k y] by linarith+
    have "y - 1 = k * (y div k) + (y mod k - 1)" using y by simp
    then have "(y - 1) div k = y div k + (y mod k - 1) div k" using k by (metis div_mult_self4 less_irrefl)
    then show ?thesis using False r by (simp add: div_pos_pos_trivial)
  qed
qed

lemma days_before_next: "days_before_year (y + 1) = days_before_year y + year_length y"
proof -
  have d: "y mod 400 = 0 \<Longrightarrow> y mod 100 = 0" "y mod 100 = 0 \<Longrightarrow> y mod 4 = 0"
    by (auto simp: mod_eq_0_iff_dvd elim: dvd_trans [rotated])
  have "days_before_year (y + 1) - days_before_year y =
      365 + (y div 4 - (y - 1) div 4) - (y div 100 - (y - 1) div 100) + (y div 400 - (y - 1) div 400)"
    by (simp add: days_before_year_def)
  also have "\<dots> = 365 + (if y mod 4 = 0 then 1 else 0) - (if y mod 100 = 0 then 1 else 0)
      + (if y mod 400 = 0 then 1 else 0)"
    by (simp only: div_step zero_less_numeral)
  also have "\<dots> = year_length y"
    using d by (cases "y mod 400 = 0"; cases "y mod 100 = 0"; cases "y mod 4 = 0")
      (simp_all add: year_length_def leap_year_def)
  finally show ?thesis by linarith
qed

lemma days_before_mono: "y \<le> y' \<Longrightarrow> days_before_year y \<le> days_before_year y'"
proof (induction "nat (y' - y)" arbitrary: y')
  case (Suc n)
  have "days_before_year y \<le> days_before_year (y' - 1)" using Suc by (intro Suc.hyps) auto
  then show ?case using days_before_next [of "y' - 1"] by (simp add: year_length_def split: if_splits)
qed simp

text \<open>The days of a year, and the year of a day.\<close>

lemma year_day_days:
  assumes "year_day days = (y, yd)"
  shows "days_before_year y + yd = days" "0 \<le> yd" "yd < year_length y"
proof -
  define d400 where "d400 = days mod 146097"
  define n100 where "n100 = min 3 (d400 div 36524)"
  define d100 where "d100 = d400 - 36524 * n100"
  define n4 where "n4 = d100 div 1461"
  define d4 where "d4 = d100 mod 1461"
  define n1 where "n1 = min 3 (d4 div 365)"
  have eq: "yd = d4 - 365 * n1" "y = 400 * (days div 146097) + 100 * n100 + 4 * n4 + n1 + 1"
    using assms unfolding year_day_def Let_def d400_def n100_def d100_def n4_def d4_def n1_def by auto
  have "0 \<le> d400" "d400 < 4 * 36524 + 1" unfolding d400_def by simp_all
  note n = cut_cycle [OF this _ d100_def [unfolded n100_def], folded n100_def, simplified]
  have "0 \<le> d4" "d4 < 4 * 365 + 1" unfolding d4_def by simp_all
  note one = cut_cycle [OF this _ eq(1) [unfolded n1_def], folded n1_def, simplified]
  have c: "d100 = 1461 * n4 + d4" "days = 146097 * (days div 146097) + d400"
    unfolding n4_def d4_def d400_def by simp_all
  have m: "n100 \<le> 3" "n1 \<le> 3" unfolding n100_def n1_def by simp_all
  have "0 \<le> n100" "0 \<le> n1" "0 \<le> d100" "d100 \<le> 36524" using n one by simp_all
  moreover have "0 \<le> n4" using \<open>0 \<le> d100\<close> unfolding n4_def by (simp add: pos_imp_zdiv_nonneg_iff)
  moreover have "n4 \<le> 24" using c(1) \<open>0 \<le> d4\<close> \<open>d100 \<le> 36524\<close> by linarith
  ultimately have b: "0 \<le> n100" "n100 \<le> 3" "0 \<le> n4" "n4 \<le> 24" "0 \<le> n1" "n1 \<le> 3"
    using m by blast+
  define a where "a = days div 146097"
  have y: "y - 1 = 400 * a + (100 * n100 + 4 * n4 + n1)" using eq(2) by (simp add: a_def)
  have "(y - 1) div 400 = a" using b unfolding y by (simp add: div_pos_pos_trivial)
  moreover have "(y - 1) div 100 = 4 * a + n100"
  proof -
    have "y - 1 = 100 * (4 * a + n100) + (4 * n4 + n1)" using y by simp
    then show ?thesis using b by (simp add: div_pos_pos_trivial)
  qed
  moreover have "(y - 1) div 4 = 100 * a + 25 * n100 + n4"
  proof -
    have "y - 1 = 4 * (100 * a + 25 * n100 + n4) + n1" using y by simp
    then show ?thesis using b by (simp add: div_pos_pos_trivial)
  qed
  ultimately show "days_before_year y + yd = days"
    using y c eq(1) d100_def by (simp add: days_before_year_def a_def)
  show "0 \<le> yd" "yd < year_length y"
    using year_day_bounds [OF assms] year_day_leap [of days y] assms
    by (auto simp: year_length_def le_less)
qed

lemma year_day_unique:
  assumes "0 \<le> yd" "yd < year_length y"
  shows "year_day (days_before_year y + yd) = (y, yd)"
proof -
  obtain y' yd' where y': "year_day (days_before_year y + yd) = (y', yd')" by force
  note d = year_day_days [OF y']
  have "\<not> y' < y"
  proof
    assume "y' < y"
    then have "days_before_year (y' + 1) \<le> days_before_year y" by (intro days_before_mono) simp
    then show False using d assms days_before_next [of y'] by linarith
  qed
  moreover have "\<not> y < y'"
  proof
    assume "y < y'"
    then have "days_before_year (y + 1) \<le> days_before_year y'" by (intro days_before_mono) simp
    then show False using d assms days_before_next [of y] by linarith
  qed
  ultimately have "y' = y" by simp
  then show ?thesis using y' d(1) by simp
qed

section \<open>Months\<close>

lemma walk_months_sound:
  assumes "walk_months k d ls = (m, e)" "0 \<le> d" "d < sum_list ls" "ls \<noteq> []"
  shows "k \<le> m \<and> nat (m - k) < length ls \<and> d = sum_list (take (nat (m - k)) ls) + e - 1
    \<and> 1 \<le> e \<and> e \<le> ls ! nat (m - k)"
  using assms
proof (induction k d ls rule: walk_months.induct)
  case (3 k d l l' ls)
  show ?case
  proof (cases "d < l")
    case False
    then have i: "k + 1 \<le> m \<and> nat (m - (k + 1)) < length (l' # ls)
        \<and> d - l = sum_list (take (nat (m - (k + 1))) (l' # ls)) + e - 1
        \<and> 1 \<le> e \<and> e \<le> (l' # ls) ! nat (m - (k + 1))"
      using "3.prems" by (intro "3.IH") auto
    moreover from i have "nat (m - k) = Suc (nat (m - (k + 1)))" by linarith
    ultimately show ?thesis by auto
  qed (use "3.prems" in auto)
qed auto

lemma walk_months_complete:
  "i < length ls \<Longrightarrow> 1 \<le> e \<Longrightarrow> e \<le> ls ! i \<Longrightarrow> \<forall>l\<in>set ls. (0::int) \<le> l \<Longrightarrow>
   walk_months k (sum_list (take i ls) + e - 1) ls = (k + int i, e)"
proof (induction ls arbitrary: i k)
  case (Cons l ls)
  show ?case
  proof (cases i)
    case 0
    then show ?thesis using Cons.prems by (cases ls) auto
  next
    case (Suc j)
    then obtain l' ls' where ls: "ls = l' # ls'" using Cons.prems(1) by (cases ls) auto
    have p: "0 \<le> sum_list (take j ls)"
      using Cons.prems(4) by (intro sum_list_nonneg) (auto dest: in_set_takeD)
    have "walk_months (k + 1) (sum_list (take j ls) + e - 1) ls = (k + 1 + int j, e)"
      using Cons.prems Suc by (intro Cons.IH) auto
    then show ?thesis using Suc p Cons.prems(2) unfolding ls by (auto simp: algebra_simps)
  qed
qed simp

definition month_days :: "int \<Rightarrow> int \<Rightarrow> int" where
  "month_days y m = month_lengths y ! nat (m - 1)"

definition valid_date :: "int \<Rightarrow> int \<Rightarrow> int \<Rightarrow> bool" where
  "valid_date y m d \<longleftrightarrow> 1 \<le> m \<and> m \<le> 12 \<and> 1 \<le> d \<and> d \<le> month_days y m"

text \<open>The day of a date, counted from 1 January 1970.\<close>

definition day_number :: "int \<Rightarrow> int \<Rightarrow> int \<Rightarrow> int" where
  "day_number y m d =
     days_before_year y + sum_list (take (nat (m - 1)) (month_lengths y)) + d - 1 - 719162"

lemma length_month_lengths [simp]: "length (month_lengths y) = 12"
  by (simp add: month_lengths_def)

lemma sum_month_lengths: "sum_list (month_lengths y) = year_length y"
  by (simp add: month_lengths_def year_length_def)

lemma month_lengths_nonneg: "\<forall>l\<in>set (month_lengths y). 28 \<le> l \<and> l \<le> 31"
  by (simp add: month_lengths_def)

definition civil_day :: "int \<Rightarrow> int \<times> int \<times> int" where
  "civil_day n = (let (y, yd) = year_day (n + 719162); (m, d) = walk_months 1 yd (month_lengths y) in (y, m, d))"

lemma civil_is_civil_day: "civil loc t = civil_day (local_days loc t)"
  by (simp add: civil_def civil_day_def)

lemma civil_day_date:
  assumes "civil_day n = (y, m, d)"
  shows "valid_date y m d \<and> day_number y m d = n"
proof -
  obtain yd where y: "year_day (n + 719162) = (y, yd)" and w: "walk_months 1 yd (month_lengths y) = (m, d)"
    using assms unfolding civil_day_def by (auto split: prod.splits)
  note yd = year_day_days [OF y]
  have "1 \<le> m \<and> nat (m - 1) < length (month_lengths y)
      \<and> yd = sum_list (take (nat (m - 1)) (month_lengths y)) + d - 1
      \<and> 1 \<le> d \<and> d \<le> month_lengths y ! nat (m - 1)"
    using yd by (intro walk_months_sound [OF w]) (simp_all add: sum_month_lengths flip: length_0_conv)
  then show ?thesis using yd(1) by (auto simp: valid_date_def month_days_def day_number_def)
qed

lemma civil_day_of_number:
  assumes v: "valid_date y m d"
  shows "civil_day (day_number y m d) = (y, m, d)"
proof -
  define yd where "yd = sum_list (take (nat (m - 1)) (month_lengths y)) + d - 1"
  have i: "nat (m - 1) < length (month_lengths y)" using v by (auto simp: valid_date_def)
  have "sum_list (take (nat (m - 1)) (month_lengths y)) + month_lengths y ! nat (m - 1)
      + sum_list (drop (Suc (nat (m - 1))) (month_lengths y)) = year_length y"
    using id_take_nth_drop [OF i] by (metis sum_list.append sum_list.Cons sum_month_lengths add.assoc)
  moreover have "0 \<le> sum_list (drop (Suc (nat (m - 1))) (month_lengths y))"
      "0 \<le> sum_list (take (nat (m - 1)) (month_lengths y))"
    using month_lengths_nonneg by (force intro!: sum_list_nonneg dest: in_set_dropD in_set_takeD)+
  ultimately have "0 \<le> yd" "yd < year_length y"
    using v unfolding yd_def valid_date_def month_days_def by linarith+
  then have "year_day (days_before_year y + yd) = (y, yd)" by (rule year_day_unique)
  moreover have "walk_months 1 yd (month_lengths y) = (m, d)"
    using walk_months_complete [OF i, of d 1] v month_lengths_nonneg [of y]
    unfolding yd_def valid_date_def month_days_def by force
  moreover have "day_number y m d + 719162 = days_before_year y + yd"
    by (simp add: day_number_def yd_def)
  ultimately show ?thesis by (simp add: civil_day_def)
qed

section \<open>Dates of UTC\<close>

lemma local_days_utc_date:
  assumes "0 \<le> h" "h \<le> 23" "0 \<le> mi" "mi \<le> 59"
  shows "local_days utc (utc_date y m d h mi) = day_number y m d"
proof -
  have "utc_date y m d h mi = day_number y m d * ns_day + (h * ns_hour + mi * ns_minute)"
    by (simp add: utc_date_def day_number_def)
  moreover have "0 \<le> h * ns_hour + mi * ns_minute" "h * ns_hour + mi * ns_minute < ns_day"
    using assms by (simp_all add: ns_hour_def ns_minute_def ns_day_def)
  ultimately show ?thesis
    by (simp add: local_days_def utc_def div_pos_pos_trivial ns_day_def)
qed

lemma civil_utc_date:
  "valid_date y m d \<Longrightarrow> 0 \<le> h \<Longrightarrow> h \<le> 23 \<Longrightarrow> 0 \<le> mi \<Longrightarrow> mi \<le> 59 \<Longrightarrow>
   civil utc (utc_date y m d h mi) = (y, m, d)"
  by (simp add: civil_is_civil_day local_days_utc_date civil_day_of_number)

text \<open>\<open>time.Date\<close> with a month past December, and \<open>AddDate\<close> of days, which is \<open>time.Date\<close> again.\<close>

definition time_date :: "int \<Rightarrow> int \<Rightarrow> int \<Rightarrow> int \<Rightarrow> int \<Rightarrow> int" where
  "time_date y m d h mi = utc_date (y + (m - 1) div 12) ((m - 1) mod 12 + 1) d h mi"

definition add_days :: "int \<Rightarrow> int \<Rightarrow> int" where
  "add_days t n =
     (case civil utc t of (y, m, d) \<Rightarrow>
        time_date y m (d + n) (time_hour utc t) (time_minute utc t) + t mod ns_minute)"

lemma clock_face:
  fixes x :: int
  shows "x div ns_day * ns_day + x mod ns_day div ns_hour * ns_hour + x mod ns_hour div ns_minute * ns_minute
    = x - x mod ns_minute"
proof -
  have "x mod ns_day mod ns_hour = x mod ns_hour" "x mod ns_hour mod ns_minute = x mod ns_minute"
    by (simp_all add: mod_mod_cancel ns_day_def ns_hour_def ns_minute_def)
  moreover have "x mod ns_day div ns_hour * ns_hour = x mod ns_day - x mod ns_day mod ns_hour"
    "x mod ns_hour div ns_minute * ns_minute = x mod ns_hour - x mod ns_hour mod ns_minute"
    "x div ns_day * ns_day = x - x mod ns_day"
    by (simp_all add: minus_mod_eq_div_mult)
  ultimately show ?thesis by linarith
qed

text \<open>
  C15: the digest of a time, in any zone, is a real date: its day exists in its month of the year, leap years
  included, and the other fields are in their ranges.  Nothing but the seconds is lost: put together
  again, year and digest are the minute of the clock on the wall.
\<close>

theorem digest_dates_are_real:
  "let d = digest_timestamp loc t; y = fst (civil loc t)
   in td_minute d \<in> {0..59} \<and> td_hour d \<in> {0..23} \<and> td_dow d \<in> {0..6} \<and>
      td_month d \<in> {1..12} \<and> td_date d \<in> {1..month_days y (td_month d)} \<and>
      utc_date y (td_month d) (td_date d) (td_hour d) (td_minute d) = truncate_minute (t + loc t)"
proof -
  obtain y m d where c: "civil loc t = (y, m, d)" by (metis surj_pair)
  have v: "valid_date y m d" "day_number y m d = local_days loc t"
    using civil_day_date c unfolding civil_is_civil_day by auto
  have ok: "digest_ok (digest_timestamp loc t)" by (rule digest_timestamp_ok)
  have "utc_date y m d (time_hour loc t) (time_minute loc t) = truncate_minute (t + loc t)"
    using clock_face [of "t + loc t"] v(2)
    by (simp add: utc_date_def day_number_def local_days_def time_hour_def time_minute_def truncate_minute_def)
  then show ?thesis
    using ok v(1) by (simp add: digest_timestamp_def c digest_ok_def valid_date_def)
qed

section \<open>The last Friday of a month\<close>

text \<open>The condition given to \<open>CreateConditionalMatcher\<close> in examples/cron_enhanced_matching/main.go.\<close>

definition last_friday_condition :: "int \<Rightarrow> timestamp_digest \<Rightarrow> bool" where
  "last_friday_condition t digest =
     (if td_dow digest \<noteq> 5 \<or> td_hour digest \<noteq> 16 \<or> td_minute digest \<noteq> 0 then False
      else
        (let (year, month, day) = civil utc t;
             next_month = time_date year (month + 1) 1 0 0;
             last_day_of_month = add_days next_month (-1);
             (y, m, last_day) = civil utc last_day_of_month;
             last_weekday = time_weekday utc last_day_of_month;
             days_to_subtract = (last_weekday - 5 + 7) mod 7;
             last_friday = last_day - days_to_subtract
         in day = last_friday))"

lemma month_days_bounds: "1 \<le> m \<Longrightarrow> m \<le> 12 \<Longrightarrow> 28 \<le> month_days y m \<and> month_days y m \<le> 31"
  using month_lengths_nonneg [of y] by (auto simp: month_days_def)

text \<open>The first of the next month is the day after the last, in December also.\<close>

lemma first_of_next_month:
  assumes "1 \<le> m" "m \<le> 12"
  shows "day_number (y + m div 12) (m mod 12 + 1) 1 = day_number y m (month_days y m) + 1"
proof (cases "m = 12")
  case True
  have "sum_list (take 11 (month_lengths y)) + 31 = year_length y"
    by (simp add: month_lengths_def year_length_def)
  then show ?thesis using True days_before_next [of y]
    by (simp add: day_number_def month_days_def month_lengths_def)
next
  case False
  then have i: "nat (m - 1) < length (month_lengths y)" "nat m = Suc (nat (m - 1))" and m: "m div 12 = 0" "m mod 12 = m"
    using assms by (auto simp: div_pos_pos_trivial mod_pos_pos_trivial)
  show ?thesis
    using take_Suc_conv_app_nth [OF i(1)] by (simp add: m day_number_def month_days_def i(2))
qed

lemma valid_first: "1 \<le> m \<Longrightarrow> m \<le> 12 \<Longrightarrow> valid_date (y + m div 12) (m mod 12 + 1) 1"
proof -
  assume "1 \<le> m" "m \<le> 12"
  then have "1 \<le> m mod 12 + 1" "m mod 12 + 1 \<le> 12" by presburger+
  then show ?thesis using month_days_bounds [of "m mod 12 + 1" "y + m div 12"] by (simp add: valid_date_def)
qed

text \<open>Subtracting a day from the first of the next month gives the last day of the month.\<close>

lemma last_day_of_month:
  fixes y m :: int
  assumes "1 \<le> m" "m \<le> 12"
  defines "t \<equiv> add_days (time_date y (m + 1) 1 0 0) (-1)"
  shows "civil utc t = (y, m, month_days y m)" "local_days utc t = day_number y m (month_days y m)"
proof -
  have c: "civil utc (time_date y (m + 1) 1 0 0) = (y + m div 12, m mod 12 + 1, 1)"
    using valid_first [OF assms(1,2)] by (simp add: time_date_def civil_utc_date)
  have z: "time_hour utc (time_date y (m + 1) 1 0 0) = 0" "time_minute utc (time_date y (m + 1) 1 0 0) = 0"
      "time_date y (m + 1) 1 0 0 mod ns_minute = 0"
    by (simp_all add: time_date_def utc_date_def time_hour_def time_minute_def utc_def ns_day_def ns_hour_def
        ns_minute_def mod_mult_eq)
  have "t = utc_date (y + m div 12) (m mod 12 + 1) 0 0 0"
    unfolding t_def add_days_def c prod.case z by (simp add: time_date_def)
  moreover have "local_days utc (utc_date (y + m div 12) (m mod 12 + 1) 0 0 0) = day_number y m (month_days y m)"
    using first_of_next_month [OF assms(1,2), of y]
    by (simp add: local_days_utc_date) (simp add: day_number_def)
  ultimately show l: "local_days utc t = day_number y m (month_days y m)" by simp
  show "civil utc t = (y, m, month_days y m)"
    unfolding civil_is_civil_day l using assms(1,2) month_days_bounds [of m y]
    by (intro civil_day_of_number) (simp add: valid_date_def)
qed

lemma last_friday_condition_date:
  assumes "valid_date y m d" "0 \<le> h" "h \<le> 23" "0 \<le> mi" "mi \<le> 59"
  shows "last_friday_condition (utc_date y m d h mi) digest \<longleftrightarrow>
    td_dow digest = 5 \<and> td_hour digest = 16 \<and> td_minute digest = 0 \<and>
    d = month_days y m - ((day_number y m (month_days y m) + 4) mod 7 - 5 + 7) mod 7"
proof -
  have "1 \<le> m" "m \<le> 12" using assms(1) by (auto simp: valid_date_def)
  note last = last_day_of_month [OF this, of y]
  show ?thesis
    by (auto simp: last_friday_condition_def civil_utc_date [OF assms] Let_def last(1) time_weekday_def last(2))
qed

text \<open>A week later it is still the same month, exactly when the date is not in the last seven.\<close>

lemma month_of_next_week:
  assumes "civil utc t = (y, m, d)"
  shows "(fst (snd (civil utc (t + 7 * ns_day))) \<noteq> m) = (month_days y m < d + 7)"
proof -
  have v: "valid_date y m d" "day_number y m d = local_days utc t"
    using civil_day_date assms unfolding civil_is_civil_day by auto
  have l: "local_days utc (t + 7 * ns_day) = day_number y m (d + 7)"
    using v(2) by (simp add: local_days_def utc_def ns_day_def day_number_def)
  show ?thesis
  proof (cases "month_days y m < d + 7")
    case True
    have m: "1 \<le> m" "m \<le> 12" using v(1) by (auto simp: valid_date_def)
    then have n: "m \<noteq> m mod 12 + 1" "1 \<le> m mod 12 + 1" "m mod 12 + 1 \<le> 12" by presburger+
    note n(1)
    moreover have "valid_date (y + m div 12) (m mod 12 + 1) (d + 7 - month_days y m)"
      using True v(1) month_days_bounds [OF n(2,3), of "y + m div 12"] by (simp add: valid_date_def)
    moreover have "day_number (y + m div 12) (m mod 12 + 1) (d + 7 - month_days y m) = day_number y m (d + 7)"
      using first_of_next_month [of m y] v(1) by (simp add: day_number_def valid_date_def)
    ultimately show ?thesis
      using True civil_day_of_number [of "y + m div 12" "m mod 12 + 1" "d + 7 - month_days y m"]
      unfolding civil_is_civil_day l by (metis fst_conv snd_conv)
  next
    case False
    then have "valid_date y m (d + 7)" using v(1) by (auto simp: valid_date_def)
    then show ?thesis using False unfolding civil_is_civil_day l by (simp add: civil_day_of_number)
  qed
qed

lemma same_week_day: "(r + 4) mod 7 = 5 \<Longrightarrow> ((r + k + 4) mod 7 - 5 + 7) mod 7 = k mod 7" for r k :: int
  by presburger

lemma within_week: "d \<le> l \<Longrightarrow> (d = l - (l - d) mod 7) = (l < d + 7)" for d l :: int
proof -
  assume "d \<le> l"
  then have "(l - d) mod 7 = l - d" if "l - d < 7" using that by (intro mod_pos_pos_trivial) simp_all
  moreover have "(l - d) mod 7 < 7" by simp
  ultimately show ?thesis by linarith
qed

text \<open>
  C35: for a digest taken in UTC, by a clock whose year is still that of the digest's time when the
  matcher runs, the conditional matcher of the example accepts exactly the minutes at 16:00 of a
  Friday whose next week is in another month, leap years and December included.  The year has to be
  said, since it is not in the digest: \<open>last_friday_next_year\<close> shows another date asked about.
\<close>

theorem last_friday_is_last:
  assumes "fst (civil loc now) = fst (civil utc t)"
  shows "create_conditional_matcher loc now last_friday_condition (digest_timestamp utc t) \<longleftrightarrow>
    time_weekday utc t = 5 \<and> time_hour utc t = 16 \<and> time_minute utc t = 0 \<and>
    fst (snd (civil utc (t + 7 * ns_day))) \<noteq> fst (snd (civil utc t))"
proof -
  obtain y m d where c: "civil utc t = (y, m, d)" by (metis surj_pair)
  have v: "valid_date y m d" "day_number y m d = local_days utc t"
    using civil_day_date c unfolding civil_is_civil_day by auto
  have m: "1 \<le> m" "m \<le> 12" "d \<le> month_days y m" using v(1) by (auto simp: valid_date_def)
  show ?thesis
  proof (cases "time_weekday utc t = 5 \<and> time_hour utc t = 16 \<and> time_minute utc t = 0")
    case True
    have "day_number y m (month_days y m) = local_days utc t + (month_days y m - d)"
      unfolding v(2) [symmetric] day_number_def by simp
    then have "((day_number y m (month_days y m) + 4) mod 7 - 5 + 7) mod 7 = (month_days y m - d) mod 7"
      using True same_week_day [of "local_days utc t" "month_days y m - d"] by (simp add: time_weekday_def)
    moreover have "(d = month_days y m - (month_days y m - d) mod 7) = (month_days y m < d + 7)"
      by (rule within_week [OF m(3)])
    ultimately show ?thesis
      using True assms month_of_next_week [OF c] last_friday_condition_date [OF v(1)]
      by (simp add: create_conditional_matcher_def digest_timestamp_def c)
  qed (auto simp: create_conditional_matcher_def digest_timestamp_def c last_friday_condition_def)
qed

text \<open>Friday 26 September 2025, 16:00; and the Friday before, refused.\<close>

lemma last_friday_is_last_witness:
  "create_conditional_matcher utc 1758900000000000000 last_friday_condition
     (digest_timestamp utc 1758902400000000000) \<and>
   \<not> create_conditional_matcher utc 1758900000000000000 last_friday_condition
     (digest_timestamp utc 1758297600000000000)"
proof -
  have y: "fst (civil utc 1758900000000000000) = fst (civil utc 1758902400000000000)"
    "fst (civil utc 1758900000000000000) = fst (civil utc 1758297600000000000)" by code_simp+
  have a: "time_weekday utc 1758902400000000000 = 5 \<and> time_hour utc 1758902400000000000 = 16 \<and>
    time_minute utc 1758902400000000000 = 0 \<and>
    fst (snd (civil utc (1758902400000000000 + 7 * ns_day))) \<noteq> fst (snd (civil utc 1758902400000000000))"
    by code_simp
  have b: "fst (snd (civil utc (1758297600000000000 + 7 * ns_day))) = fst (snd (civil utc 1758297600000000000))"
    by code_simp
  show ?thesis unfolding last_friday_is_last [OF y(1)] last_friday_is_last [OF y(2)] using a b by blast
qed

text \<open>
  The year is that of the clock when the matcher runs: the catch-up of a backlog over New Year asks
  about another year's date.  31 December 2027 is the last Friday of its month, but on 1 January
  2028 the matcher asks about 31 December 2028, which the condition refuses.
\<close>

lemma last_friday_next_year:
  "create_conditional_matcher utc 1830268800000000000 last_friday_condition
     (digest_timestamp utc 1830268800000000000) \<and>
   \<not> create_conditional_matcher utc 1830355200000000000 last_friday_condition
     (digest_timestamp utc 1830268800000000000)"
proof
  define digest where "digest = digest_timestamp utc 1830268800000000000"
  have d: "digest = \<lparr>td_minute = 0, td_hour = 16, td_date = 31, td_month = 12, td_dow = 5\<rparr>"
    unfolding digest_def by code_simp
  have y: "fst (civil utc 1830268800000000000) = 2027" "fst (civil utc 1830355200000000000) = 2028"
    by code_simp+
  have v: "valid_date 2027 12 31" "valid_date 2028 12 31"
    "(31 :: int) = month_days 2027 12 - ((day_number 2027 12 (month_days 2027 12) + 4) mod 7 - 5 + 7) mod 7"
    "(31 :: int) \<noteq> month_days 2028 12 - ((day_number 2028 12 (month_days 2028 12) + 4) mod 7 - 5 + 7) mod 7"
    by code_simp+
  have "last_friday_condition (utc_date 2027 12 31 16 0) digest"
    using last_friday_condition_date [OF v(1)] v(3) by (simp add: d)
  then show "create_conditional_matcher utc 1830268800000000000 last_friday_condition digest"
    by (simp only: create_conditional_matcher_def y d Let_def timestamp_digest.select_convs)
  have "\<not> last_friday_condition (utc_date 2028 12 31 16 0) digest"
    using last_friday_condition_date [OF v(2)] v(4) by (simp add: d)
  then show "\<not> create_conditional_matcher utc 1830355200000000000 last_friday_condition digest"
    by (simp only: create_conditional_matcher_def y d Let_def timestamp_digest.select_convs simp_thms)
qed

end
