(* ===== verification/Cron_Examples.thy ===== *)
theory Cron_Examples
  imports Cron_Calendar
begin

text \<open>
  The demonstrations of the cron package (pkg/cron/example/main.go and
  examples/cron_enhanced_matching/main.go): their patterns, items and times, and what parser and matchers
  answer for them.
\<close>

section \<open>The demonstration of the package\<close>

definition demo_patterns :: "string list" where
  "demo_patterns = [''0 4 * * *'', ''*/15 * * * *'', ''0 0 1 * *'', ''invalid pattern'']"

definition demo_cron_items :: "cron_item list" where
  "demo_cron_items =
     [\<lparr>ci_task = ''daily-report'', ci_match = MatchNil, ci_pattern = ''0 4 * * *'', ci_identifier = [],
       ci_options = no_options\<lparr>cio_queue_name := ''reports'', cio_priority := Some 10, backfill := True\<rparr>,
       ci_payload = Some ''{\"type\":\"daily\"}''\<rparr>,
      \<lparr>ci_task = ''cleanup'', ci_match = MatchNil, ci_pattern = ''0 2 * * 0'', ci_identifier = [],
       ci_options = no_options\<lparr>cio_max_attempts := Some 3\<rparr>, ci_payload = None\<rparr>]"

definition demo_hourly_item :: "cron_job \<Rightarrow> parsed_cron_item" where
  "demo_hourly_item zero_job =
     \<lparr>pci_match = None, pci_minutes = [0], pci_hours = [0..23], pci_dates = [1..31], pci_months = [1..12],
      pci_dows = [0..6], pci_task = ''hourly-task'', pci_identifier = [], pci_options = no_options,
      pci_payload = None, pci_job = zero_job\<rparr>"

definition demo_times :: "int list" where
  "demo_times = [utc_date 2024 1 1 14 0, utc_date 2024 1 1 14 30, utc_date 2024 1 1 15 0]"

text \<open>The patterns are valid but for the last.\<close>

lemma demo_validation:
  "map validate_pattern demo_patterns =
     [Some (Inr ()), Some (Inr ()), Some (Inr ()), Some (Inl (InvalidPatternFormat ''invalid pattern''))]"
  by code_simp

lemma demo_matching: "map (matches utc (demo_hourly_item job)) demo_times = [True, False, True]"
proof -
  have "map (digest_timestamp utc) demo_times =
      [\<lparr>td_minute = 0, td_hour = 14, td_date = 1, td_month = 1, td_dow = 1\<rparr>,
       \<lparr>td_minute = 30, td_hour = 14, td_date = 1, td_month = 1, td_dow = 1\<rparr>,
       \<lparr>td_minute = 0, td_hour = 15, td_date = 1, td_month = 1, td_dow = 1\<rparr>]" by code_simp
  then show ?thesis
    by (simp add: demo_times_def matches_def matches_legacy_def demo_hourly_item_def is_parsed_def contains_def upto.simps)
qed

section \<open>The demonstration of the matchers\<close>

text \<open>A digest with the fields given and the others zero.\<close>

definition demo_digest :: "int \<Rightarrow> int \<Rightarrow> int \<Rightarrow> timestamp_digest" where
  "demo_digest minute hour dow = \<lparr>td_minute = minute, td_hour = hour, td_date = 0, td_month = 0, td_dow = dow\<rparr>"

definition business_times :: "int list" where
  "business_times = [utc_date 2025 9 5 10 0, utc_date 2025 9 5 18 0, utc_date 2025 9 6 10 0]"

definition business_demo :: "bool list" where
  "business_demo = map (\<lambda>t. create_business_hours_matcher 0 (digest_timestamp utc t)) business_times"

definition last_friday_demo :: "location \<Rightarrow> int \<Rightarrow> bool list" where
  "last_friday_demo loc now =
     map (\<lambda>t. create_conditional_matcher loc now last_friday_condition (digest_timestamp utc t))
       [utc_date 2025 9 26 16 0, utc_date 2025 9 19 16 0]"

definition convenience_demo :: "bool list" where
  "convenience_demo =
     [create_hourly_matcher 30 (demo_digest 30 10 0), create_hourly_matcher 30 (demo_digest 45 10 0),
      create_daily_matcher 6 0 (demo_digest 0 6 0), create_daily_matcher 6 0 (demo_digest 1 6 0),
      create_weekly_matcher 1 9 0 (demo_digest 0 9 1), create_weekly_matcher 1 9 0 (demo_digest 0 9 2)]"

lemma matcher_demos:
  "business_demo = [True, False, False]" "convenience_demo = [True, False, True, False, True, False]"
  by code_simp+

text \<open>
  The last demonstration answers what its comments expect in the year 2025 only: in 2026 the
  Fridays of its times are other dates.
\<close>

lemma last_friday_demos:
  "last_friday_demo utc 1758900000000000000 = [True, False]"
  "last_friday_demo utc 1790000000000000000 = [False, False]"
proof -
  let ?d = "\<lparr>td_minute = 0, td_hour = 16, td_date = 26, td_month = 9, td_dow = 5\<rparr>"
  let ?e = "\<lparr>td_minute = 0, td_hour = 16, td_date = 19, td_month = 9, td_dow = 5\<rparr>"
  have d: "digest_timestamp utc (utc_date 2025 9 26 16 0) = ?d" "digest_timestamp utc (utc_date 2025 9 19 16 0) = ?e"
    by code_simp+
  have y: "fst (civil utc 1758900000000000000) = 2025" "fst (civil utc 1790000000000000000) = 2026" by code_simp+
  have v: "valid_date 2025 9 26" "valid_date 2025 9 19" "valid_date 2026 9 26" "valid_date 2026 9 19"
    "(26 :: int) = month_days 2025 9 - ((day_number 2025 9 (month_days 2025 9) + 4) mod 7 - 5 + 7) mod 7"
    "(25 :: int) = month_days 2026 9 - ((day_number 2026 9 (month_days 2026 9) + 4) mod 7 - 5 + 7) mod 7"
    by code_simp+
  have c: "last_friday_condition (utc_date 2025 9 26 16 0) ?d" "\<not> last_friday_condition (utc_date 2025 9 19 16 0) ?e"
    "\<not> last_friday_condition (utc_date 2026 9 26 16 0) ?d" "\<not> last_friday_condition (utc_date 2026 9 19 16 0) ?e"
    using last_friday_condition_date [OF v(1), of 16 0 ?d] last_friday_condition_date [OF v(2), of 16 0 ?e]
      last_friday_condition_date [OF v(3), of 16 0 ?d] last_friday_condition_date [OF v(4), of 16 0 ?e]
    unfolding v(5,6) [symmetric] by simp_all
  note simps = last_friday_demo_def list.map d create_conditional_matcher_def y Let_def timestamp_digest.select_convs c simp_thms
  show "last_friday_demo utc 1758900000000000000 = [True, False]" by (simp only: simps)
  show "last_friday_demo utc 1790000000000000000 = [False, False]" by (simp only: simps)
qed

end
