(* ===== verification/Event_Monitor.thy ===== *)
theory Event_Monitor
  imports Event_Bus
begin

text \<open>
  The event monitor of the tests (internal/testutil/event_monitor.go): counters and waiters that
  subscribe to a bus of their own.

  A handler the bus starts is a goroutine: \<open>mo_pending\<close> holds those that have not run yet, and
  they run in any order, each as a whole since it holds the monitor's or the counter's mutex.  A
  handler's number is its place in \<open>mo_handlers\<close>, a waiter's channel its place in \<open>mo_chans\<close>: a
  buffer of one event.
\<close>

section \<open>State and operations\<close>

datatype monitor_handler = CountHandler string | WaitHandler string

record event_counter =
  ec_count :: nat
  ec_last :: bus_event

record monitor =
  mo_bus :: bus
  mo_handlers :: "monitor_handler list"
  mo_counters :: "string \<rightharpoonup> event_counter"
  mo_waiters :: "string \<rightharpoonup> nat list"
  mo_chans :: "bus_event option list"
  mo_pending :: "(nat \<times> bus_event) list"

definition new_event_monitor :: monitor where
  "new_event_monitor = \<lparr>mo_bus = new_event_bus 1000, mo_handlers = [], mo_counters = Map.empty,
     mo_waiters = Map.empty, mo_chans = [], mo_pending = []\<rparr>"

definition monitor_subscribe :: "string \<Rightarrow> monitor_handler \<Rightarrow> monitor \<Rightarrow> monitor" where
  "monitor_subscribe ty h m =
     m\<lparr>mo_bus := subscribe ty (length (mo_handlers m)) (mo_bus m), mo_handlers := mo_handlers m @ [h]\<rparr>"

definition monitor_count :: "string \<Rightarrow> monitor \<Rightarrow> monitor" where
  "monitor_count ty m =
     (case mo_counters m ty of
        Some c \<Rightarrow> m
      | None \<Rightarrow> monitor_subscribe ty (CountHandler ty)
                 (m\<lparr>mo_counters := (mo_counters m)(ty \<mapsto> \<lparr>ec_count = 0, ec_last = zero_event\<rparr>)\<rparr>))"

text \<open>\<open>AwaitNext\<close> returns the new channel.\<close>

definition await_next :: "string \<Rightarrow> monitor \<Rightarrow> monitor \<times> nat" where
  "await_next ty m =
     (let k = length (mo_chans m);
          m1 = m\<lparr>mo_chans := mo_chans m @ [None]\<rparr>;
          m2 = (if mo_waiters m1 ty = None
                then monitor_subscribe ty (WaitHandler ty) (m1\<lparr>mo_waiters := (mo_waiters m1)(ty \<mapsto> [])\<rparr>)
                else m1)
      in (m2\<lparr>mo_waiters := (mo_waiters m2)(ty \<mapsto> the (mo_waiters m2 ty) @ [k])\<rparr>, k))"

definition monitor_release :: "monitor \<Rightarrow> monitor" where
  "monitor_release m = m\<lparr>mo_bus := cancel_bus (mo_bus m)\<rparr>"

definition get_counter :: "string \<Rightarrow> monitor \<Rightarrow> nat \<times> bus_event" where
  "get_counter ty m =
     (case mo_counters m ty of Some c \<Rightarrow> (ec_count c, ec_last c) | None \<Rightarrow> (0, zero_event))"

text \<open>The assertions first ask for a counter.\<close>

definition assert_event_emitted :: "string \<Rightarrow> monitor \<Rightarrow> monitor \<times> bool" where
  "assert_event_emitted ty m = (let m' = monitor_count ty m in (m', fst (get_counter ty m') > 0))"

definition assert_event_count :: "string \<Rightarrow> nat \<Rightarrow> monitor \<Rightarrow> monitor \<times> bool" where
  "assert_event_count ty n m = (let m' = monitor_count ty m in (m', fst (get_counter ty m') = n))"

definition get_last_event :: "string \<Rightarrow> monitor \<Rightarrow> bus_event option" where
  "get_last_event ty m = map_option ec_last (mo_counters m ty)"

section \<open>Handlers\<close>

definition count_event :: "string \<Rightarrow> bus_event \<Rightarrow> monitor \<Rightarrow> monitor" where
  "count_event ty ev m =
     m\<lparr>mo_counters := (mo_counters m)(ty := map_option
         (\<lambda>c. c\<lparr>ec_count := ec_count c + 1, ec_last := ev\<rparr>) (mo_counters m ty))\<rparr>"

text \<open>A send that does not wait: a full channel is skipped.\<close>

definition offer :: "bus_event \<Rightarrow> nat \<Rightarrow> bus_event option list \<Rightarrow> bus_event option list" where
  "offer ev k cs = (if cs ! k = None then cs[k := Some ev] else cs)"

definition wake_waiters :: "string \<Rightarrow> bus_event \<Rightarrow> monitor \<Rightarrow> monitor" where
  "wake_waiters ty ev m =
     m\<lparr>mo_chans := fold (offer ev) (case mo_waiters m ty of None \<Rightarrow> [] | Some ks \<Rightarrow> ks) (mo_chans m),
       mo_waiters := (mo_waiters m)(ty := None)\<rparr>"

definition run_handler :: "monitor_handler \<Rightarrow> bus_event \<Rightarrow> monitor \<Rightarrow> monitor" where
  "run_handler h ev = (case h of CountHandler ty \<Rightarrow> count_event ty ev | WaitHandler ty \<Rightarrow> wake_waiters ty ev)"

text \<open>What happens on a monitor: \<open>RunOp i\<close> lets the \<open>i\<close>-th waiting goroutine run.\<close>

datatype monitor_op =
    BusOp bus_op
  | CountOp string
  | AwaitOp string
  | RunOp nat

definition new_calls :: "bus \<Rightarrow> bus \<Rightarrow> (nat \<times> bus_event) list" where
  "new_calls b b' =
     concat (map (\<lambda>(ev, hs). map (\<lambda>h. (h, ev)) hs) (drop (length (bus_calls b)) (bus_calls b')))"

fun from_outside :: "bus_op \<Rightarrow> bool" where
  "from_outside (SubscribeOp _ _) = False"
| "from_outside _ = True"

fun monitor_step :: "monitor_op \<Rightarrow> monitor \<Rightarrow> monitor" where
  "monitor_step (BusOp op) m =
     (if from_outside op
      then let b = bus_step op (mo_bus m)
           in m\<lparr>mo_bus := b, mo_pending := mo_pending m @ new_calls (mo_bus m) b\<rparr>
      else m)"
| "monitor_step (CountOp ty) m = monitor_count ty m"
| "monitor_step (AwaitOp ty) m = fst (await_next ty m)"
| "monitor_step (RunOp i) m =
     (if i < length (mo_pending m)
      then let (h, ev) = mo_pending m ! i
           in run_handler (mo_handlers m ! h) ev
                (m\<lparr>mo_pending := take i (mo_pending m) @ drop (i + 1) (mo_pending m)\<rparr>)
      else m)"


section \<open>The invariant\<close>

text \<open>A step of the bus handles no event or one, and starts the handlers subscribed to it.\<close>

lemma outside_step:
  assumes "from_outside op"
  obtains (quiet) "new_calls b (bus_step op b) = []" "handled (bus_step op b) = handled b"
      "bus_handlers (bus_step op b) = bus_handlers b"
  | (event) ev where "new_calls b (bus_step op b) = map (\<lambda>h. (h, ev)) (handlers_of (be_type ev) b)"
      "handled (bus_step op b) = handled b @ [ev]" "bus_handlers (bus_step op b) = bus_handlers b"
proof -
  have "new_calls b (bus_step op b) = [] \<and> handled (bus_step op b) = handled b \<or>
    (\<exists>ev. new_calls b (bus_step op b) = map (\<lambda>h. (h, ev)) (handlers_of (be_type ev) b) \<and>
       handled (bus_step op b) = handled b @ [ev])"
    using assms
    by (cases op) (auto simp: new_calls_def handled_def unsubscribe_nothing cancel_bus_def bus_emit_def
        process_events_round_def receive_def handle_event_def handlers_of_def Let_def
        split: loop_state.split list.split)
  moreover have "bus_handlers (bus_step op b) = bus_handlers b"
    using assms
    by (cases op) (auto simp: unsubscribe_nothing cancel_bus_def bus_emit_def
        process_events_round_def receive_def handle_event_def Let_def split: loop_state.split list.split)
  ultimately show thesis using quiet event by blast
qed

fun handler_type :: "monitor_handler \<Rightarrow> string" where
  "handler_type (CountHandler ty) = ty"
| "handler_type (WaitHandler ty) = ty"

definition counting :: "string \<Rightarrow> monitor \<Rightarrow> nat \<Rightarrow> bool" where
  "counting ty m h \<longleftrightarrow> mo_handlers m ! h = CountHandler ty"

definition monitor_ok :: "monitor \<Rightarrow> bool" where
  "monitor_ok m \<longleftrightarrow>
     (\<forall>ty. \<forall>h \<in> set (handlers_of ty (mo_bus m)). h < length (mo_handlers m) \<and> handler_type (mo_handlers m ! h) = ty) \<and>
     (\<forall>(h, ev) \<in> set (mo_pending m). h < length (mo_handlers m) \<and> handler_type (mo_handlers m ! h) = be_type ev) \<and>
     (\<forall>ty. length (filter (counting ty m) (handlers_of ty (mo_bus m))) = (if mo_counters m ty = None then 0 else 1)) \<and>
     (\<forall>ty. mo_counters m ty = None \<longrightarrow> CountHandler ty \<notin> set (mo_handlers m)) \<and>
     (\<forall>ty. mo_waiters m ty \<noteq> None \<longrightarrow> (\<exists>h \<in> set (handlers_of ty (mo_bus m)). mo_handlers m ! h = WaitHandler ty))"

lemma monitor_okD:
  assumes "monitor_ok m"
  shows "h \<in> set (handlers_of ty (mo_bus m)) \<Longrightarrow> h < length (mo_handlers m)"
    and "h \<in> set (handlers_of ty (mo_bus m)) \<Longrightarrow> handler_type (mo_handlers m ! h) = ty"
    and "(h, ev) \<in> set (mo_pending m) \<Longrightarrow> h < length (mo_handlers m)"
    and "(h, ev) \<in> set (mo_pending m) \<Longrightarrow> handler_type (mo_handlers m ! h) = be_type ev"
    and "length (filter (counting ty m) (handlers_of ty (mo_bus m))) = (if mo_counters m ty = None then 0 else 1)"
    and "mo_counters m ty = None \<Longrightarrow> CountHandler ty \<notin> set (mo_handlers m)"
    and "mo_waiters m ty \<noteq> None \<Longrightarrow> \<exists>h \<in> set (handlers_of ty (mo_bus m)). mo_handlers m ! h = WaitHandler ty"
  using assms unfolding monitor_ok_def by blast+

lemma monitor_okI:
  assumes "\<And>ty h. h \<in> set (handlers_of ty (mo_bus m)) \<Longrightarrow>
      h < length (mo_handlers m) \<and> handler_type (mo_handlers m ! h) = ty"
    and "\<And>h ev. (h, ev) \<in> set (mo_pending m) \<Longrightarrow>
      h < length (mo_handlers m) \<and> handler_type (mo_handlers m ! h) = be_type ev"
    and "\<And>ty. length (filter (counting ty m) (handlers_of ty (mo_bus m))) = (if mo_counters m ty = None then 0 else 1)"
    and "\<And>ty. mo_counters m ty = None \<Longrightarrow> CountHandler ty \<notin> set (mo_handlers m)"
    and "\<And>ty. mo_waiters m ty \<noteq> None \<Longrightarrow> \<exists>h \<in> set (handlers_of ty (mo_bus m)). mo_handlers m ! h = WaitHandler ty"
  shows "monitor_ok m"
  using assms unfolding monitor_ok_def by blast

lemma new_monitor_ok: "monitor_ok new_event_monitor"
  by (simp add: monitor_ok_def new_event_monitor_def new_event_bus_def handlers_of_def)

text \<open>A new subscription with a handler of its type keeps what does not count that type.\<close>

lemma subscribe_keeps:
  assumes "monitor_ok m" "handler_type x = ty"
  shows "h \<in> set (handlers_of ty' (mo_bus (monitor_subscribe ty x m))) \<Longrightarrow>
      h < length (mo_handlers (monitor_subscribe ty x m)) \<and>
      handler_type (mo_handlers (monitor_subscribe ty x m) ! h) = ty'"
    and "filter (counting ty' (monitor_subscribe ty x m)) (handlers_of ty' (mo_bus (monitor_subscribe ty x m))) =
      filter (counting ty' m) (handlers_of ty' (mo_bus m)) @
        (if ty' = ty \<and> x = CountHandler ty then [length (mo_handlers m)] else [])"
    and "(h, ev) \<in> set (mo_pending m) \<Longrightarrow> mo_handlers (monitor_subscribe ty x m) ! h = mo_handlers m ! h"
    and "h \<in> set (handlers_of ty' (mo_bus m)) \<Longrightarrow> mo_handlers (monitor_subscribe ty x m) ! h = mo_handlers m ! h"
  using monitor_okD(1,2) [OF assms(1), of _ ty'] monitor_okD(3) [OF assms(1)] assms(2)
  by (auto simp: monitor_subscribe_def counting_def nth_append intro!: filter_cong)

lemma subscribe_fields [simp]:
  "mo_counters (monitor_subscribe ty x m) = mo_counters m" "mo_waiters (monitor_subscribe ty x m) = mo_waiters m"
  "mo_chans (monitor_subscribe ty x m) = mo_chans m" "mo_pending (monitor_subscribe ty x m) = mo_pending m"
  "mo_handlers (monitor_subscribe ty x m) = mo_handlers m @ [x]"
  "mo_bus (monitor_subscribe ty x m) = subscribe ty (length (mo_handlers m)) (mo_bus m)"
  by (simp_all add: monitor_subscribe_def)

lemma monitor_count_new:
  "mo_counters m ty = None \<Longrightarrow> monitor_count ty m = (monitor_subscribe ty (CountHandler ty) m)
     \<lparr>mo_counters := (mo_counters m)(ty \<mapsto> \<lparr>ec_count = 0, ec_last = zero_event\<rparr>)\<rparr>"
  by (simp add: monitor_count_def monitor_subscribe_def)

lemma monitor_count_old: "mo_counters m ty \<noteq> None \<Longrightarrow> monitor_count ty m = m"
  by (auto simp: monitor_count_def)

lemma counting_fields [simp]:
  "counting ty (m\<lparr>mo_counters := c\<rparr>) = counting ty m" "counting ty (m\<lparr>mo_waiters := w\<rparr>) = counting ty m"
  "counting ty (m\<lparr>mo_chans := cs\<rparr>) = counting ty m" "counting ty (m\<lparr>mo_pending := ps\<rparr>) = counting ty m"
  "counting ty (m\<lparr>mo_bus := b\<rparr>) = counting ty m"
  by (simp_all add: counting_def fun_eq_iff)

lemma subscribed_handler:
  assumes "monitor_ok m" "h \<in> set (handlers_of ty (mo_bus m))"
  shows "(mo_handlers m @ [x]) ! h = mo_handlers m ! h"
  using monitor_okD(1) [OF assms] by (simp add: nth_append)

lemma subscribed_pending:
  assumes "monitor_ok m" "(h, ev) \<in> set (mo_pending m)"
  shows "h < Suc (length (mo_handlers m))" "handler_type ((mo_handlers m @ [x]) ! h) = be_type ev"
  using monitor_okD(3,4) [OF assms] by (auto simp: nth_append)

lemma subscribed_waits:
  assumes "monitor_ok m" "mo_waiters m ty' \<noteq> None"
  shows "\<exists>h \<in> set (handlers_of ty' (subscribe ty (length (mo_handlers m)) (mo_bus m))).
    (mo_handlers m @ [x]) ! h = WaitHandler ty'"
proof -
  obtain h where "h \<in> set (handlers_of ty' (mo_bus m))" "mo_handlers m ! h = WaitHandler ty'"
    using monitor_okD(7) [OF assms] by blast
  then show ?thesis using subscribed_handler [OF assms(1)] by (intro bexI [of _ h]) auto
qed

lemma monitor_count_ok:
  assumes "monitor_ok m"
  shows "monitor_ok (monitor_count ty m)"
proof (cases "mo_counters m ty")
  case None
  note keeps = subscribe_keeps [OF assms, of "CountHandler ty" ty, simplified]
  show ?thesis unfolding monitor_count_new [OF None]
  proof (rule monitor_okI, goal_cases)
    case (3 ty')
    then show ?case using keeps(2) [of ty'] monitor_okD(5) [OF assms, of ty'] None by auto
  next
    case (5 ty')
    then show ?case using subscribed_waits [OF assms, of ty' ty] by simp
  qed (use keeps(1) subscribed_pending [OF assms] monitor_okD(6) [OF assms] in \<open>auto split: if_splits\<close>)
qed (simp add: monitor_count_old assms)

lemma subscribe_waiter_ok:
  assumes "monitor_ok m"
  shows "monitor_ok (monitor_subscribe ty (WaitHandler ty) m)"
proof -
  note keeps = subscribe_keeps [OF assms, of "WaitHandler ty" ty, simplified]
  show ?thesis
  proof (rule monitor_okI, goal_cases)
    case (3 ty')
    then show ?case using keeps(2) [of ty'] monitor_okD(5) [OF assms, of ty'] by auto
  next
    case (5 ty')
    then show ?case using subscribed_waits [OF assms, of ty' ty] by simp
  qed (use keeps(1) subscribed_pending [OF assms] monitor_okD(6) [OF assms] in \<open>auto split: if_splits\<close>)
qed

definition subscribed_waiter :: "string \<Rightarrow> monitor \<Rightarrow> monitor" where
  "subscribed_waiter ty m = (if mo_waiters m ty = None then monitor_subscribe ty (WaitHandler ty) m else m)"

lemma await_next_alt:
  "await_next ty m =
     ((subscribed_waiter ty m)\<lparr>mo_chans := mo_chans m @ [None],
        mo_waiters := (mo_waiters m)(ty \<mapsto> coalesce (mo_waiters m ty) [] @ [length (mo_chans m)])\<rparr>,
      length (mo_chans m))"
  by (auto simp: await_next_def subscribed_waiter_def monitor_subscribe_def Let_def coalesce_def)

lemma subscribed_waiter_ok:
  assumes "monitor_ok m"
  shows "monitor_ok (subscribed_waiter ty m)"
    and "\<exists>h \<in> set (handlers_of ty (mo_bus (subscribed_waiter ty m))).
           mo_handlers (subscribed_waiter ty m) ! h = WaitHandler ty"
  using monitor_okD(7) [OF assms, of ty] subscribe_waiter_ok [OF assms] assms
  by (auto simp: subscribed_waiter_def nth_append)

lemma await_next_ok:
  assumes "monitor_ok m"
  shows "monitor_ok (fst (await_next ty m))"
proof -
  let ?s = "subscribed_waiter ty m"
  note ok = subscribed_waiter_ok [OF assms, of ty]
  have w: "mo_waiters ?s = mo_waiters m" by (simp add: subscribed_waiter_def)
  show ?thesis
  proof (rule monitor_okI, goal_cases)
    case (5 ty')
    then show ?case using ok(2) monitor_okD(7) [OF ok(1), of ty'] w
      by (cases "ty' = ty") (simp_all add: await_next_alt)
  qed (use monitor_okD(1-6) [OF ok(1)] in \<open>simp_all add: await_next_alt\<close>)
qed

lemma run_handler_frame [simp]:
  "mo_bus (run_handler h ev m) = mo_bus m" "mo_handlers (run_handler h ev m) = mo_handlers m"
  "mo_pending (run_handler h ev m) = mo_pending m"
  "mo_counters (run_handler h ev m) ty = None \<longleftrightarrow> mo_counters m ty = None"
  "mo_waiters m ty = None \<Longrightarrow> mo_waiters (run_handler h ev m) ty = None"
  by (auto simp: run_handler_def count_event_def wake_waiters_def split: monitor_handler.splits if_splits)

lemma run_handler_counting [simp]: "counting ty (run_handler h ev m) = counting ty m"
  by (simp add: counting_def fun_eq_iff)

lemma handlers_of_cong: "bus_handlers b' = bus_handlers b \<Longrightarrow> handlers_of ty b' = handlers_of ty b"
  by (simp add: handlers_of_def)

lemma monitor_step_ok:
  assumes "monitor_ok m"
  shows "monitor_ok (monitor_step op m)"
proof (cases op)
  case (BusOp bo)
  show ?thesis
  proof (cases "from_outside bo")
    case True
    let ?b = "bus_step bo (mo_bus m)"
    have h: "handlers_of ty ?b = handlers_of ty (mo_bus m)" for ty
      by (cases rule: outside_step [OF True, of "mo_bus m"]) (auto intro: handlers_of_cong)
    have new: "h < length (mo_handlers m) \<and> handler_type (mo_handlers m ! h) = be_type ev"
      if "(h, ev) \<in> set (new_calls (mo_bus m) ?b)" for h ev
      using that monitor_okD(1,2) [OF assms] by (cases rule: outside_step [OF True, of "mo_bus m"]) auto
    show ?thesis
      by (rule monitor_okI) (use monitor_okD [OF assms] new in \<open>auto simp: BusOp Let_def True h\<close>)
  qed (simp add: BusOp assms)
next
  case (RunOp i)
  show ?thesis
  proof (cases "i < length (mo_pending m)")
    case True
    obtain h ev where p: "mo_pending m ! i = (h, ev)" by force
    have sub: "(h', ev') \<in> set (mo_pending m)"
      if "(h', ev') \<in> set (take i (mo_pending m)) \<or> (h', ev') \<in> set (drop (Suc i) (mo_pending m))" for h' ev'
      using that by (auto dest: in_set_takeD in_set_dropD)
    show ?thesis
    proof (rule monitor_okI, goal_cases)
      case (2 h' ev')
      then show ?case using sub monitor_okD(3,4) [OF assms] by (auto simp: RunOp True p Let_def)
    next
      case (5 ty)
      then have "mo_waiters m ty \<noteq> None" by (cases "mo_waiters m ty") (simp_all add: RunOp True p)
      then show ?case using monitor_okD(7) [OF assms] by (simp add: RunOp True p)
    qed (use monitor_okD(1,2,5,6) [OF assms] in \<open>auto simp: RunOp True p split: if_splits\<close>)
  qed (simp add: RunOp assms)
qed (simp_all add: monitor_count_ok await_next_ok assms)

section \<open>Counters\<close>

definition handled_of :: "string \<Rightarrow> monitor \<Rightarrow> nat" where
  "handled_of ty m = length (filter (\<lambda>e. be_type e = ty) (handled (mo_bus m)))"

definition uncounted :: "string \<Rightarrow> monitor \<Rightarrow> nat" where
  "uncounted ty m = length (filter (\<lambda>(h, ev). counting ty m h) (mo_pending m))"

definition counted :: "string \<Rightarrow> monitor \<Rightarrow> nat" where
  "counted ty m = fst (get_counter ty m)"

lemma uncounted_subscribe:
  assumes "monitor_ok m" "handler_type x = ty'"
  shows "uncounted ty (monitor_subscribe ty' x m) = uncounted ty m"
proof -
  have "filter (\<lambda>(h, ev). counting ty (monitor_subscribe ty' x m) h) (mo_pending m) =
      filter (\<lambda>(h, ev). counting ty m h) (mo_pending m)"
    by (rule filter_cong [OF refl])
       (use subscribe_keeps(3) [OF assms] in \<open>auto simp: counting_def simp del: subscribe_fields(5)\<close>)
  then show ?thesis by (simp add: uncounted_def)
qed

text \<open>Every event handled is counted or waits to be.\<close>

lemma tally_step:
  assumes "monitor_ok m" "mo_counters m ty \<noteq> None"
  shows "mo_counters (monitor_step op m) ty \<noteq> None \<and>
    counted ty (monitor_step op m) + uncounted ty (monitor_step op m) + handled_of ty m =
    counted ty m + uncounted ty m + handled_of ty (monitor_step op m)"
proof (cases op)
  case (BusOp bo)
  show ?thesis
  proof (cases "from_outside bo")
    case True
    show ?thesis
    proof (cases rule: outside_step [OF True, of "mo_bus m", case_names quiet event])
      case quiet
      then show ?thesis using assms(2)
        by (simp add: BusOp True counted_def uncounted_def handled_of_def get_counter_def Let_def)
    next
      case (event ev)
      have c: "length (filter (counting ty m) (handlers_of (be_type ev) (mo_bus m))) = (if be_type ev = ty then 1 else 0)"
      proof (cases "be_type ev = ty")
        case True
        then show ?thesis using monitor_okD(5) [OF assms(1), of ty] assms(2) by simp
      next
        case False
        then have "\<not> counting ty m h" if "h \<in> set (handlers_of (be_type ev) (mo_bus m))" for h
          using monitor_okD(2) [OF assms(1) that] by (auto simp: counting_def)
        then show ?thesis using False by (simp add: filter_False)
      qed
      have "length (filter (\<lambda>(h, ev). counting ty m h) (map (\<lambda>h. (h, ev)) (handlers_of (be_type ev) (mo_bus m))))
          = (if be_type ev = ty then 1 else 0)"
        using c by (simp add: filter_map comp_def)
      then show ?thesis using assms(2) event(1,2)
        by (simp add: BusOp True counted_def uncounted_def handled_of_def get_counter_def Let_def)
    qed
  qed (simp add: BusOp assms)
next
  case (RunOp i)
  show ?thesis
  proof (cases "i < length (mo_pending m)")
    case True
    obtain h ev where p: "mo_pending m ! i = (h, ev)" by force
    let ?q = "take i (mo_pending m) @ drop (Suc i) (mo_pending m)"
    have "mo_pending m = take i (mo_pending m) @ (h, ev) # drop (Suc i) (mo_pending m)"
      using True p id_take_nth_drop by metis
    from arg_cong [OF this, of "\<lambda>xs. length (filter (\<lambda>(h, ev). counting ty m h) xs)"]
    have u: "uncounted ty m = length (filter (\<lambda>(h, ev). counting ty m h) ?q) + (if counting ty m h then 1 else 0)"
      by (simp only: uncounted_def filter_append length_append filter.simps prod.case) simp
    have c: "counted ty (run_handler (mo_handlers m ! h) ev (m\<lparr>mo_pending := ?q\<rparr>)) =
        counted ty m + (if counting ty m h then 1 else 0)"
      using assms(2)
      by (cases "mo_handlers m ! h")
         (auto simp: run_handler_def count_event_def wake_waiters_def counted_def get_counter_def counting_def
            split: option.split)
    show ?thesis using u c assms(2)
      by (simp add: RunOp True p uncounted_def handled_of_def)
  qed (simp add: RunOp assms)
next
  case (CountOp ty')
  then show ?thesis using assms(2) uncounted_subscribe [OF assms(1), of "CountHandler ty'" ty']
    by (cases "mo_counters m ty'")
       (auto simp: monitor_count_old monitor_count_new counted_def get_counter_def handled_of_def uncounted_def)
next
  case (AwaitOp ty')
  then show ?thesis using assms(2) uncounted_subscribe [OF assms(1), of "WaitHandler ty'" ty']
    by (auto simp: await_next_alt subscribed_waiter_def counted_def get_counter_def handled_of_def uncounted_def)
qed

lemma monitor_steps_ok: "monitor_ok m \<Longrightarrow> monitor_ok (fold monitor_step ops m)"
  by (induction ops arbitrary: m) (simp_all add: monitor_step_ok)

lemma tally_steps:
  "monitor_ok m \<Longrightarrow> mo_counters m ty \<noteq> None \<Longrightarrow>
     counted ty (fold monitor_step ops m) + uncounted ty (fold monitor_step ops m) + handled_of ty m =
     counted ty m + uncounted ty m + handled_of ty (fold monitor_step ops m)"
proof (induction ops arbitrary: m)
  case (Cons op ops)
  show ?case
    using Cons.IH [OF monitor_step_ok [OF Cons.prems(1)], of op] tally_step [OF Cons.prems, of op] by simp
qed simp

text \<open>What a monitor does to its bus is a sequence of steps of the bus.\<close>

fun bus_ops :: "monitor_op list \<Rightarrow> bus_op list" where
  "bus_ops [] = []"
| "bus_ops (BusOp op # ops) = (if from_outside op then op # bus_ops ops else bus_ops ops)"
| "bus_ops (_ # ops) = bus_ops ops"

lemma monitor_bus_steps:
  "\<exists>tr. mo_bus (fold monitor_step ops m) = fold bus_step tr (mo_bus m) \<and> emitted tr = emitted (bus_ops ops)"
proof (induction ops arbitrary: m)
  case (Cons op ops)
  obtain tr where tr: "mo_bus (fold monitor_step ops (monitor_step op m)) = fold bus_step tr (mo_bus (monitor_step op m))"
    "emitted tr = emitted (bus_ops ops)" using Cons.IH by blast
  have e: "emitted (xs @ ys) = emitted xs @ emitted ys" for xs ys by (induction xs rule: emitted.induct) auto
  have "\<exists>t. mo_bus (monitor_step op m) = fold bus_step t (mo_bus m) \<and> emitted (t @ tr) = emitted (bus_ops (op # ops))"
  proof (cases op)
    case (BusOp bo)
    then show ?thesis
      using tr(2) by (intro exI [of _ "if from_outside bo then [bo] else []"]) (cases bo; simp add: Let_def)
  next
    case (CountOp ty)
    then show ?thesis using tr(2)
      by (intro exI [of _ "if mo_counters m ty = None then [SubscribeOp ty (length (mo_handlers m))] else []"])
         (auto simp: monitor_count_new monitor_count_old)
  next
    case (AwaitOp ty)
    then show ?thesis using tr(2)
      by (intro exI [of _ "if mo_waiters m ty = None then [SubscribeOp ty (length (mo_handlers m))] else []"])
         (auto simp: await_next_alt subscribed_waiter_def)
  next
    case (RunOp i)
    then show ?thesis using tr(2) by (intro exI [of _ "[]"]) (auto simp: case_prod_beta Let_def)
  qed
  then obtain t where "mo_bus (monitor_step op m) = fold bus_step t (mo_bus m)"
    "emitted (t @ tr) = emitted (bus_ops (op # ops))" by blast
  then show ?case using tr(1) by (intro exI [of _ "t @ tr"]) simp
qed (intro exI [of _ "[]"], simp)

lemma new_monitor_open: "bus_open (mo_bus (fold monitor_step ops new_event_monitor))"
proof -
  obtain tr where "mo_bus (fold monitor_step ops new_event_monitor) = fold bus_step tr (mo_bus new_event_monitor)"
    using monitor_bus_steps by blast
  then show ?thesis using steps_open [of "mo_bus new_event_monitor" tr]
    by (simp add: new_event_monitor_def new_event_bus_def bus_open_def)
qed

lemma new_counter:
  assumes "monitor_ok m" "mo_counters m ty = None"
  shows "counted ty (monitor_count ty m) = 0" "uncounted ty (monitor_count ty m) = 0"
    "mo_counters (monitor_count ty m) ty \<noteq> None"
proof -
  show "counted ty (monitor_count ty m) = 0" "mo_counters (monitor_count ty m) ty \<noteq> None"
    by (simp_all add: monitor_count_new assms(2) counted_def get_counter_def)
  have "\<not> counting ty (monitor_count ty m) h" if "(h, ev) \<in> set (mo_pending m)" for h ev
    using monitor_okD(3) [OF assms(1) that] monitor_okD(6) [OF assms]
    by (auto simp: monitor_count_new assms(2) counting_def nth_append in_set_conv_nth)
  then show "uncounted ty (monitor_count ty m) = 0"
    by (auto simp: uncounted_def monitor_count_new assms(2) filter_empty_conv)
qed

text \<open>
  C38: a counter is exact, whatever the order of the goroutines.  Once the bus has handled
  everything and every handler has run, it has counted each event of its type that was emitted
  since it was made and each that waited in the bus at that time, if the bus lost none.  In
  between, it and the handlers that have not run add up to the events handled.
\<close>

theorem counter_is_exact:
  assumes "m0 = fold monitor_step ops0 new_event_monitor" "mo_counters m0 ty = None"
    and "m = fold monitor_step ops (monitor_count ty m0)"
    and "bus_dropped (mo_bus m) = []" "\<not> bus_cancelled (mo_bus m)"
  shows "(bus_chan (mo_bus m) = [] \<and> mo_pending m = [] \<longrightarrow>
      counted ty m = length (filter (\<lambda>e. be_type e = ty) (bus_chan (mo_bus m0) @ emitted (bus_ops ops)))) \<and>
    counted ty m + uncounted ty m + handled_of ty m0 = handled_of ty m"
proof -
  let ?c = "monitor_count ty m0"
  have ok: "monitor_ok m0" unfolding assms(1) by (rule monitor_steps_ok [OF new_monitor_ok])
  have bus: "bus_chan (mo_bus ?c) = bus_chan (mo_bus m0)" "handled (mo_bus ?c) = handled (mo_bus m0)"
    by (simp_all add: monitor_count_new assms(2))
  have o: "bus_open (mo_bus ?c)"
    using new_monitor_open [of "ops0 @ [CountOp ty]"] by (simp add: assms(1))
  have t: "counted ty m + uncounted ty m + handled_of ty m0 = handled_of ty m"
    using tally_steps [OF monitor_count_ok [OF ok] new_counter(3) [OF ok assms(2)], of ops]
    by (simp add: new_counter [OF ok assms(2)] assms(3) handled_of_def bus)
  obtain tr where tr: "mo_bus m = fold bus_step tr (mo_bus ?c)" "emitted tr = emitted (bus_ops ops)"
    using monitor_bus_steps assms(3) by blast
  have h: "handled (mo_bus m) @ bus_chan (mo_bus m) = handled (mo_bus m0) @ bus_chan (mo_bus m0) @ emitted (bus_ops ops)"
    using nothing_lost [OF o, of tr] assms(4,5) bus by (simp add: tr)
  have "counted ty m = length (filter (\<lambda>e. be_type e = ty) (bus_chan (mo_bus m0) @ emitted (bus_ops ops)))"
    if "bus_chan (mo_bus m) = []" "mo_pending m = []"
    using t arg_cong [OF h, of "\<lambda>es. length (filter (\<lambda>e. be_type e = ty) es)"] that
    by (simp add: uncounted_def handled_of_def)
  with t show ?thesis by blast
qed

lemma counter_is_exact_witness:
  "let ev = \<lambda>ty t. \<lparr>be_type = ty, be_time = t, be_data = [], be_error = None\<rparr>;
       m = fold monitor_step
         [BusOp (EmitOp True (ev ''job:start'' 1)), BusOp (EmitOp True (ev ''stop'' 2)), BusOp (ProcessOp True),
          BusOp (ProcessOp True), RunOp 0]
         (monitor_count ''job:start'' (fold monitor_step [] new_event_monitor))
   in counted ''job:start'' m = 1"
proof -
  let ?ev = "\<lambda>ty t. \<lparr>be_type = ty, be_time = t, be_data = [], be_error = None\<rparr>"
  let ?ops = "[BusOp (EmitOp True (?ev ''job:start'' 1)), BusOp (EmitOp True (?ev ''stop'' 2)), BusOp (ProcessOp True),
          BusOp (ProcessOp True), RunOp 0]"
  let ?m = "fold monitor_step ?ops (monitor_count ''job:start'' (fold monitor_step [] new_event_monitor))"
  have e: "bus_dropped (mo_bus ?m) = [] \<and> \<not> bus_cancelled (mo_bus ?m) \<and> bus_chan (mo_bus ?m) = [] \<and> mo_pending ?m = []"
    by code_simp
  have "mo_counters (fold monitor_step [] new_event_monitor) ''job:start'' = None"
    by (simp add: new_event_monitor_def)
  from counter_is_exact [OF refl this refl, of ?ops] e
  have "counted ''job:start'' ?m = length (filter (\<lambda>e. be_type e = ''job:start'')
      (bus_chan (mo_bus (fold monitor_step [] new_event_monitor)) @ emitted (bus_ops ?ops)))" by blast
  moreover have "length (filter (\<lambda>e. be_type e = ''job:start'')
      (bus_chan (mo_bus (fold monitor_step [] new_event_monitor)) @ emitted (bus_ops ?ops))) = 1"
    by (simp add: new_event_monitor_def new_event_bus_def)
  ultimately show ?thesis unfolding Let_def by (rule trans)
qed

section \<open>Waiters\<close>

definition waits :: "string \<Rightarrow> nat \<Rightarrow> monitor \<Rightarrow> bool" where
  "waits ty k m \<longleftrightarrow> (case mo_waiters m ty of None \<Rightarrow> False | Some ks \<Rightarrow> k \<in> set ks)"

definition waiters_ok :: "monitor \<Rightarrow> bool" where
  "waiters_ok m \<longleftrightarrow>
     (\<forall>ty k. waits ty k m \<longrightarrow> k < length (mo_chans m) \<and> mo_chans m ! k = None) \<and>
     (\<forall>ty ty' k. waits ty k m \<longrightarrow> waits ty' k m \<longrightarrow> ty = ty') \<and>
     (\<forall>(h, ev) \<in> set (mo_pending m). ev \<in> set (handled (mo_bus m)))"

lemma length_offer [simp]: "length (fold (offer ev) ks cs) = length cs"
  by (induction ks arbitrary: cs) (simp_all add: offer_def)

lemma nth_offer_one: "k < length cs \<Longrightarrow> offer ev a cs ! k = (if k = a \<and> cs ! k = None then Some ev else cs ! k)"
  by (cases "k = a") (simp_all add: offer_def)

lemma length_offer_one [simp]: "length (offer ev a cs) = length cs"
  by (simp add: offer_def)

lemma nth_offer:
  "k < length cs \<Longrightarrow> fold (offer ev) ks cs ! k = (if k \<in> set ks \<and> cs ! k = None then Some ev else cs ! k)"
  by (induction ks arbitrary: cs) (simp_all add: nth_offer_one)

lemma waiters_okD:
  "waiters_ok m \<Longrightarrow> waits ty k m \<Longrightarrow> k < length (mo_chans m)"
  "waiters_ok m \<Longrightarrow> waits ty k m \<Longrightarrow> mo_chans m ! k = None"
  "waiters_ok m \<Longrightarrow> waits ty k m \<Longrightarrow> waits ty' k m \<Longrightarrow> ty = ty'"
  "waiters_ok m \<Longrightarrow> (h, ev) \<in> set (mo_pending m) \<Longrightarrow> ev \<in> set (handled (mo_bus m))"
  unfolding waiters_ok_def by blast+

lemma waiters_okI:
  assumes "\<And>ty k. waits ty k m \<Longrightarrow> k < length (mo_chans m) \<and> mo_chans m ! k = None"
    and "\<And>ty ty' k. waits ty k m \<Longrightarrow> waits ty' k m \<Longrightarrow> ty = ty'"
    and "\<And>h ev. (h, ev) \<in> set (mo_pending m) \<Longrightarrow> ev \<in> set (handled (mo_bus m))"
  shows "waiters_ok m"
  using assms unfolding waiters_ok_def by blast

text \<open>The channel \<open>k\<close> waits for the next event, a goroutine that serves it is on its way, or it is served.\<close>

definition served :: "string \<Rightarrow> nat \<Rightarrow> monitor \<Rightarrow> bool" where
  "served ty k m \<longleftrightarrow> k < length (mo_chans m) \<and>
     (\<exists>e \<in> set (handled (mo_bus m)). mo_chans m ! k = Some e \<and> be_type e = ty)"

definition will_be_served :: "string \<Rightarrow> nat \<Rightarrow> nat \<Rightarrow> monitor \<Rightarrow> bool" where
  "will_be_served ty k n m \<longleftrightarrow> served ty k m \<or>
     waits ty k m \<and> (handled_of ty m = n \<or>
       (\<exists>(h, ev) \<in> set (mo_pending m). mo_handlers m ! h = WaitHandler ty))"

lemma waits_run:
  "waits ty k (run_handler h ev m) \<longleftrightarrow> waits ty k m \<and> h \<noteq> WaitHandler ty"
  by (auto simp: waits_def run_handler_def count_event_def wake_waiters_def split: monitor_handler.split)

lemma chans_run:
  assumes "waiters_ok m" "k < length (mo_chans m)"
  shows "mo_chans (run_handler h ev m) ! k =
       (if h = WaitHandler (handler_type h) \<and> waits (handler_type h) k m then Some ev else mo_chans m ! k)"
proof (cases h)
  case (WaitHandler ty)
  show ?thesis
    using waiters_okD(2) [OF assms(1), of ty k] assms(2)
    by (cases "mo_waiters m ty") (auto simp: WaitHandler run_handler_def wake_waiters_def waits_def nth_offer)
qed (simp add: run_handler_def count_event_def)

lemma length_chans_run [simp]: "length (mo_chans (run_handler h ev m)) = length (mo_chans m)"
  by (simp add: run_handler_def count_event_def wake_waiters_def split: monitor_handler.split)

lemma waits_await:
  "waits ty k (fst (await_next ty' m)) \<longleftrightarrow> waits ty k m \<or> ty = ty' \<and> k = length (mo_chans m)"
  by (auto simp: await_next_alt waits_def coalesce_def split: option.split)

lemma waits_frame:
  "waits ty k (m\<lparr>mo_bus := b\<rparr>) = waits ty k m" "waits ty k (m\<lparr>mo_pending := ps\<rparr>) = waits ty k m"
  "waits ty k (monitor_count ty' m) = waits ty k m"
  by (simp_all add: waits_def monitor_count_def split: option.split)

lemma waiters_step:
  assumes "waiters_ok m"
  shows "waiters_ok (monitor_step op m)"
proof (cases op)
  case (BusOp bo)
  show ?thesis
  proof (cases "from_outside bo")
    case True
    have "ev \<in> set (handled (bus_step bo (mo_bus m)))"
      if "(h, ev) \<in> set (mo_pending m @ new_calls (mo_bus m) (bus_step bo (mo_bus m)))" for h ev
      using that waiters_okD(4) [OF assms] by (cases rule: outside_step [OF True, of "mo_bus m"]) auto
    then show ?thesis using waiters_okD [OF assms]
      by (intro waiters_okI) (auto simp: BusOp True Let_def waits_frame)
  qed (simp add: BusOp assms)
next
  case (CountOp ty)
  have "mo_chans (monitor_count ty m) = mo_chans m" "mo_pending (monitor_count ty m) = mo_pending m"
    "handled (mo_bus (monitor_count ty m)) = handled (mo_bus m)"
    by (simp_all add: monitor_count_def split: option.split)
  then show ?thesis using waiters_okD [OF assms] by (intro waiters_okI) (auto simp: CountOp waits_frame)
next
  case (AwaitOp ty)
  have f: "mo_chans (fst (await_next ty m)) = mo_chans m @ [None]" "mo_pending (fst (await_next ty m)) = mo_pending m"
    "handled (mo_bus (fst (await_next ty m))) = handled (mo_bus m)"
    by (simp_all add: await_next_alt subscribed_waiter_def)
  show ?thesis
  proof (rule waiters_okI, goal_cases)
    case (1 ty' k)
    then show ?case using waiters_okD(1,2) [OF assms, of ty' k] by (auto simp: AwaitOp f waits_await nth_append)
  next
    case (2 t t' k)
    then show ?case using waiters_okD(3) [OF assms, of t k t'] waiters_okD(1) [OF assms, of _ k]
      by (auto simp: AwaitOp waits_await)
  next
    case (3 h ev)
    then show ?case using waiters_okD(4) [OF assms, of h ev] by (simp add: AwaitOp f)
  qed
next
  case (RunOp i)
  show ?thesis
  proof (cases "i < length (mo_pending m)")
    case True
    obtain h ev where p: "mo_pending m ! i = (h, ev)" by force
    let ?m = "m\<lparr>mo_pending := take i (mo_pending m) @ drop (i + 1) (mo_pending m)\<rparr>"
    have ok: "waiters_ok ?m"
      using waiters_okD [OF assms] by (intro waiters_okI) (auto simp: waits_frame dest: in_set_takeD in_set_dropD)
    let ?h = "mo_handlers m ! h"
    show ?thesis
    proof (rule waiters_okI, goal_cases)
      case (1 ty k)
      then have w: "waits ty k ?m" "?h \<noteq> WaitHandler ty" by (simp_all add: RunOp True p waits_run)
      have "k < length (mo_chans ?m)" "mo_chans ?m ! k = None" using waiters_okD(1,2) [OF ok w(1)] by auto
      moreover have "\<not> (?h = WaitHandler (handler_type ?h) \<and> waits (handler_type ?h) k ?m)"
        using waiters_okD(3) [OF ok w(1)] w(2) by metis
      ultimately show ?case using chans_run [OF ok, of k ?h ev] by (simp add: RunOp True p)
    next
      case (2 ty ty' k)
      then show ?case using waiters_okD(3) [OF ok, of ty k ty'] by (simp add: RunOp True p waits_run)
    next
      case (3 h' ev')
      then show ?case using waiters_okD(4) [OF ok, of h' ev'] by (simp add: RunOp True p)
    qed
  qed (simp add: RunOp assms)
qed

lemma waiters_steps_ok: "waiters_ok m \<Longrightarrow> waiters_ok (fold monitor_step ops m)"
  by (induction ops arbitrary: m) (simp_all add: waiters_step)

lemma new_waiters_ok: "waiters_ok new_event_monitor"
  by (simp add: waiters_ok_def waits_def new_event_monitor_def)

lemma served_step:
  assumes "waiters_ok m" "served ty k m"
  shows "served ty k (monitor_step op m)"
proof -
  have k: "k < length (mo_chans m)" "mo_chans m ! k \<noteq> None" using assms(2) by (auto simp: served_def)
  have "mo_chans (monitor_step op m) ! k = mo_chans m ! k \<and> length (mo_chans m) \<le> length (mo_chans (monitor_step op m))"
  proof (cases op)
    case (RunOp i)
    show ?thesis
    proof (cases "i < length (mo_pending m)")
      case True
      obtain h ev where p: "mo_pending m ! i = (h, ev)" by force
      let ?m = "m\<lparr>mo_pending := take i (mo_pending m) @ drop (i + 1) (mo_pending m)\<rparr>"
      have "waiters_ok ?m"
        using waiters_okD [OF assms(1)]
        by (intro waiters_okI) (auto simp: waits_frame dest: in_set_takeD in_set_dropD)
      moreover have "\<not> waits (handler_type (mo_handlers m ! h)) k ?m"
        using waiters_okD(2) [OF assms(1), of _ k] k(2) by (auto simp: waits_frame)
      ultimately show ?thesis using chans_run [of ?m k "mo_handlers m ! h" ev] k(1) by (simp add: RunOp True p)
    qed (simp add: RunOp)
  next
    case (CountOp ty)
    then show ?thesis by (simp add: monitor_count_def split: option.split)
  qed (use k(1) in \<open>simp_all add: Let_def await_next_alt subscribed_waiter_def nth_append\<close>)
  moreover have "set (handled (mo_bus m)) \<subseteq> set (handled (mo_bus (monitor_step op m)))"
  proof (cases op)
    case (BusOp bo)
    show ?thesis
    proof (cases "from_outside bo")
      case True
      show ?thesis by (cases rule: outside_step [OF True, of "mo_bus m"]) (auto simp: BusOp True Let_def)
    qed (simp add: BusOp)
  next
    case (CountOp ty)
    then show ?thesis by (simp add: monitor_count_def split: option.split)
  qed (simp_all add: await_next_alt subscribed_waiter_def case_prod_beta Let_def)
  ultimately show ?thesis using assms(2) by (auto simp: served_def)
qed

text \<open>
  The goroutine of a waiting handler serves all channels that wait for its type; until it runs it
  stays among those that will.
\<close>

lemma will_be_served_step:
  assumes ok: "monitor_ok m" "waiters_ok m" and "will_be_served ty k n m"
  shows "will_be_served ty k n (monitor_step op m)"
proof (cases "served ty k m")
  case True
  then show ?thesis using served_step [OF ok(2)] by (simp add: will_be_served_def)
next
  case False
  then have w: "waits ty k m" "handled_of ty m = n \<or> (\<exists>(h, ev) \<in> set (mo_pending m). mo_handlers m ! h = WaitHandler ty)"
    using assms(3) by (auto simp: will_be_served_def)
  show ?thesis
  proof (cases op)
    case (BusOp bo)
    show ?thesis
    proof (cases "from_outside bo")
      case True
      show ?thesis
      proof (cases rule: outside_step [OF True, of "mo_bus m", case_names quiet event])
        case quiet
        then show ?thesis using w
          by (auto simp: will_be_served_def BusOp True Let_def waits_frame handled_of_def)
      next
        case (event ev)
        have "\<exists>h \<in> set (handlers_of ty (mo_bus m)). mo_handlers m ! h = WaitHandler ty"
          using monitor_okD(7) [OF ok(1), of ty] w(1) by (auto simp: waits_def split: option.splits)
        then show ?thesis using w event(1,2)
          by (cases "be_type ev = ty") (force simp: will_be_served_def BusOp True Let_def waits_frame handled_of_def)+
      qed
    qed (use assms(3) in \<open>simp add: BusOp\<close>)
  next
    case (CountOp ty')
    have h: "mo_handlers (monitor_count ty' m) ! h = mo_handlers m ! h" if "(h, ev) \<in> set (mo_pending m)" for h ev
      using monitor_okD(3) [OF ok(1) that] by (simp add: monitor_count_def nth_append split: option.split)
    have "mo_pending (monitor_count ty' m) = mo_pending m" "handled_of ty (monitor_count ty' m) = handled_of ty m"
      by (simp_all add: monitor_count_def handled_of_def split: option.split)
    then show ?thesis using w h by (fastforce simp: will_be_served_def CountOp waits_frame)
  next
    case (AwaitOp ty')
    have h: "mo_handlers (fst (await_next ty' m)) ! h = mo_handlers m ! h" if "(h, ev) \<in> set (mo_pending m)" for h ev
      using monitor_okD(3) [OF ok(1) that] by (simp add: await_next_alt subscribed_waiter_def nth_append)
    have "mo_pending (fst (await_next ty' m)) = mo_pending m" "handled_of ty (fst (await_next ty' m)) = handled_of ty m"
      by (simp_all add: await_next_alt subscribed_waiter_def handled_of_def)
    then show ?thesis using w h by (fastforce simp: will_be_served_def AwaitOp waits_await)
  next
    case (RunOp i)
    show ?thesis
    proof (cases "i < length (mo_pending m)")
      case True
      obtain h ev where p: "mo_pending m ! i = (h, ev)" by force
      let ?q = "take i (mo_pending m) @ drop (i + 1) (mo_pending m)"
      let ?m = "m\<lparr>mo_pending := ?q\<rparr>"
      have mem: "(h, ev) \<in> set (mo_pending m)" using nth_mem [OF True] p by simp
      show ?thesis
      proof (cases "mo_handlers m ! h = WaitHandler ty")
        case True
        have "be_type ev = ty" using monitor_okD(4) [OF ok(1) mem] True by simp
        moreover have "waiters_ok ?m"
          using waiters_okD [OF ok(2)]
          by (intro waiters_okI) (auto simp: waits_frame dest: in_set_takeD in_set_dropD)
        from chans_run [OF this, of k "mo_handlers m ! h" ev]
        have "mo_chans (run_handler (WaitHandler ty) ev ?m) ! k = Some ev"
          using waiters_okD(1) [OF ok(2) w(1)] w(1) by (simp add: True waits_frame)
        ultimately have "served ty k (monitor_step op m)"
          using waiters_okD(1) [OF ok(2) w(1)] waiters_okD(4) [OF ok(2) mem] \<open>i < length (mo_pending m)\<close>
          by (simp add: RunOp p True served_def)
        then show ?thesis by (simp add: will_be_served_def)
      next
        case False
        have "x \<in> set ?q" if "x \<in> set (mo_pending m)" "x \<noteq> (h, ev)" for x
          using that id_take_nth_drop [OF True] p by (metis Suc_eq_plus1 Un_iff set_ConsD set_append)
        then have "\<exists>(h, ev) \<in> set ?q. mo_handlers m ! h = WaitHandler ty"
          if "\<exists>(h, ev) \<in> set (mo_pending m). mo_handlers m ! h = WaitHandler ty"
          using that False by fastforce
        then show ?thesis using w False True
          by (auto simp: RunOp p will_be_served_def waits_run waits_frame handled_of_def)
      qed
    qed (use assms(3) in \<open>simp add: RunOp\<close>)
  qed
qed

lemma will_be_served_steps:
  "monitor_ok m \<Longrightarrow> waiters_ok m \<Longrightarrow> will_be_served ty k n m \<Longrightarrow>
     will_be_served ty k n (fold monitor_step ops m)"
  by (induction ops arbitrary: m) (simp_all add: monitor_step_ok waiters_step will_be_served_step)

text \<open>
  C37: who waits for the next event of a type gets one.  Once the bus has handled an event of that
  type after the call of \<open>AwaitNext\<close>, and its handlers have run, the channel holds an event of that
  type which the bus handled, however the steps were interleaved and whoever else waits or counts.
\<close>

theorem waiter_is_served:
  assumes "m0 = fold monitor_step ops0 new_event_monitor" "await_next ty m0 = (m1, k)"
    and "m = fold monitor_step ops m1"
    and "handled_of ty m0 < handled_of ty m" "mo_pending m = []"
  shows "k < length (mo_chans m) \<and>
    (\<exists>e \<in> set (handled (mo_bus m)). mo_chans m ! k = Some e \<and> be_type e = ty)"
proof -
  have ok: "monitor_ok m0" "waiters_ok m0"
    unfolding assms(1) by (rule monitor_steps_ok [OF new_monitor_ok], rule waiters_steps_ok [OF new_waiters_ok])
  have m1: "m1 = monitor_step (AwaitOp ty) m0" using assms(2) by simp
  have k: "k = length (mo_chans m0)" using assms(2) by (simp add: await_next_alt)
  have "waits ty k m1" using waits_await [of ty k ty m0] k assms(2) by simp
  moreover have "handled_of ty m1 = handled_of ty m0"
    by (simp add: m1 await_next_alt subscribed_waiter_def handled_of_def)
  ultimately have "will_be_served ty k (handled_of ty m0) m1" by (simp add: will_be_served_def)
  then have "will_be_served ty k (handled_of ty m0) m"
    unfolding assms(3) m1 by (intro will_be_served_steps monitor_step_ok waiters_step ok)
  then show ?thesis using assms(4,5) by (auto simp: will_be_served_def served_def)
qed

lemma waiter_is_served_witness:
  "let ev = \<lparr>be_type = ''stop'', be_time = 1, be_data = [], be_error = None\<rparr>;
       m = fold monitor_step [BusOp (EmitOp True ev), BusOp (ProcessOp True), RunOp 0]
             (fst (await_next ''stop'' (fold monitor_step [] new_event_monitor)))
   in \<exists>e \<in> set (handled (mo_bus m)). mo_chans m ! 0 = Some e \<and> be_type e = ''stop''"
proof -
  let ?ev = "\<lparr>be_type = ''stop'', be_time = 1, be_data = [], be_error = None\<rparr>"
  let ?ops = "[BusOp (EmitOp True ?ev), BusOp (ProcessOp True), RunOp 0]"
  let ?m0 = "fold monitor_step [] new_event_monitor"
  obtain m1 where m1: "await_next ''stop'' ?m0 = (m1, 0)"
    by (simp add: await_next_alt new_event_monitor_def)
  then have "m1 = fst (await_next ''stop'' ?m0)" by simp
  then have e: "handled_of ''stop'' ?m0 < handled_of ''stop'' (fold monitor_step ?ops m1) \<and>
      mo_pending (fold monitor_step ?ops m1) = []"
    by (simp add: await_next_alt subscribed_waiter_def new_event_monitor_def monitor_subscribe_def
        new_event_bus_def subscribe_def handlers_of_def new_calls_def bus_emit_def process_events_round_def
        receive_def handle_event_def run_handler_def wake_waiters_def handled_of_def handled_def)
  show ?thesis
    using waiter_is_served [OF refl m1 refl, of ?ops] e m1 by (simp only: Let_def fst_conv)
qed

text \<open>
  The event need not come after the call: a goroutine that was started by an earlier event may
  still run.
\<close>

lemma waiter_may_get_earlier_event:
  "let ev = \<lparr>be_type = ''stop'', be_time = 1, be_data = [], be_error = None\<rparr>;
       m0 = fold monitor_step [AwaitOp ''stop'', BusOp (EmitOp True ev), BusOp (ProcessOp True)] new_event_monitor;
       (m1, k) = await_next ''stop'' m0
   in mo_chans (monitor_step (RunOp 0) m1) ! k = Some ev"
  by (simp add: await_next_alt subscribed_waiter_def new_event_monitor_def monitor_subscribe_def
      new_event_bus_def subscribe_def handlers_of_def new_calls_def bus_emit_def process_events_round_def
      receive_def handle_event_def run_handler_def wake_waiters_def coalesce_def offer_def)

text \<open>
  The last event of a counter is the one whose goroutine ran last, and an assertion on a type no
  one counted yet counts from then on.
\<close>

lemma last_event_is_any:
  "let e1 = \<lparr>be_type = ''stop'', be_time = 1, be_data = [], be_error = None\<rparr>;
       e2 = e1\<lparr>be_time := 2\<rparr>;
       m = fold monitor_step [CountOp ''stop'', BusOp (EmitOp True e1), BusOp (EmitOp True e2),
             BusOp (ProcessOp True), BusOp (ProcessOp True), RunOp 1, RunOp 0] new_event_monitor
   in get_last_event ''stop'' m = Some e1"
  by (simp add: monitor_count_def new_event_monitor_def monitor_subscribe_def
      new_event_bus_def subscribe_def handlers_of_def new_calls_def bus_emit_def process_events_round_def
      receive_def handle_event_def run_handler_def count_event_def get_last_event_def Let_def)

lemma assertion_needs_a_counter:
  "mo_counters m ty = None \<Longrightarrow> \<not> snd (assert_event_emitted ty m)"
  by (simp add: assert_event_emitted_def monitor_count_def get_counter_def Let_def monitor_subscribe_def)

end
