(* ===== verification/Event_Examples.thy ===== *)
theory Event_Examples
  imports Event_Bus "HOL-Library.Multiset"
begin

text \<open>
  The examples of the event bus (pkg/events/examples.go, examples/events/main.go): handlers that
  print or count, and the events the programs emit.

  The goroutines that run the handlers may do so in any order: \<open>started\<close> lists the calls the bus has
  started, and a schedule is any arrangement of them.
\<close>

section \<open>Handlers that print\<close>

datatype printed =
    CompletedBy int string
  | JobDuration int
  | JobErrorRecorded
  | WorkerCreated
  | WorkerFatal "string option"
  | ShutdownError "string option"
  | Hooray string string

text \<open>The handler \<open>Example\<close> subscribes to job:success.\<close>

definition job_success_handler :: "bus_event \<Rightarrow> printed option" where
  "job_success_handler ev =
     (case (data_int ''jobId'' (be_data ev), data_str ''workerId'' (be_data ev)) of
        (Some i, Some w) \<Rightarrow> Some (CompletedBy i w) | _ \<Rightarrow> None)"

definition data_go_int :: "string \<Rightarrow> ev_data \<Rightarrow> int option" where
  "data_go_int k d = (case map_of d k of Some (EvGoInt i) \<Rightarrow> Some i | _ \<Rightarrow> None)"

definition performance_handler :: "bus_event \<Rightarrow> printed option" where
  "performance_handler ev =
     (if be_type ev = event_name JobSuccess then map_option JobDuration (data_go_int ''duration_ms'' (be_data ev))
      else if be_type ev = event_name JobError then Some JobErrorRecorded
      else if be_type ev = event_name WorkerCreate then Some WorkerCreated
      else None)"

definition health_handler :: "bus_event \<Rightarrow> printed option" where
  "health_handler ev =
     (if be_type ev = event_name WorkerFatalError then Some (WorkerFatal (be_error ev))
      else if be_type ev = event_name PoolShutdownError then Some (ShutdownError (be_error ev))
      else None)"

definition setup_monitoring :: "nat \<Rightarrow> nat \<Rightarrow> bus \<Rightarrow> bus" where
  "setup_monitoring performance health b =
     subscribe (event_name PoolShutdownError) health
       (subscribe (event_name WorkerFatalError) health
         (subscribe (event_name WorkerCreate) performance
           (subscribe (event_name JobError) performance
             (subscribe (event_name JobSuccess) performance b))))"

text \<open>
  The handler of examples/events: \<open>%v\<close> prints whatever the job id is; \<open>show_value\<close> is that text.
\<close>

definition hooray_handler :: "(ev_value \<Rightarrow> string) \<Rightarrow> bus_event \<Rightarrow> printed" where
  "hooray_handler show_value ev =
     Hooray (coalesce (data_str ''workerId'' (be_data ev)) ''unknown'')
       (case map_of (be_data ev) ''jobId'' of Some v \<Rightarrow> show_value v | None \<Rightarrow> ''unknown'')"

section \<open>The events the examples emit\<close>

definition plain_event :: "int \<Rightarrow> event_type \<Rightarrow> ev_data \<Rightarrow> bus_event" where
  "plain_event now ty data = \<lparr>be_type = event_name ty, be_time = now, be_data = data, be_error = None\<rparr>"

definition example_events :: "int \<Rightarrow> bus_event list" where
  "example_events now =
     [plain_event now WorkerCreate (worker_event_data ''worker-123'' [(''concurrency'', EvGoInt 4)]),
      plain_event now JobStart (job_event_data ''worker-123'' 1001 ''send_email'' [(''priority'', EvGoInt 5)]),
      plain_event now JobSuccess (job_event_data ''worker-123'' 1001 ''send_email'' [(''duration_ms'', EvGoInt 50)]),
      (plain_event now JobError (job_event_data ''worker-123'' 1002 ''process_payment'' [(''attempt'', EvGoInt 1)]))
        \<lparr>be_error := Some ''network timeout''\<rparr>]"

definition worker_lifecycle_events :: "int \<Rightarrow> bus_event list" where
  "worker_lifecycle_events now =
     (let w = ''worker-demo-001''; i = 12345 in
      [plain_event now WorkerCreate (worker_event_data w [(''version'', EvStr ''1.0.0'')]),
       plain_event now JobStart (job_event_data w i ''demo_task'' [(''payload_size'', EvGoInt 1024)]),
       plain_event now JobSuccess (job_event_data w i ''demo_task'' [(''duration_ms'', EvGoInt 45), (''result_size'', EvGoInt 512)]),
       plain_event now WorkerRelease (worker_event_data w [(''jobs_processed'', EvGoInt 1)]),
       plain_event now WorkerStop (worker_event_data w [(''graceful'', EvBool True)])])"

text \<open>\<open>demonstrateEventEmission\<close>\<close>

definition demonstration_events :: "int \<Rightarrow> bus_event list" where
  "demonstration_events now =
     [plain_event now WorkerCreate [(''workerId'', EvStr ''demo-worker-001''), (''concurrency'', EvGoInt 5)],
      plain_event now JobStart [(''workerId'', EvStr ''demo-worker-001''), (''jobId'', EvStr ''demo-job-12345''),
        (''taskIdentifier'', EvStr ''hello'')],
      plain_event now JobSuccess [(''workerId'', EvStr ''demo-worker-001''), (''jobId'', EvStr ''demo-job-12345''),
        (''taskIdentifier'', EvStr ''hello''), (''duration_ms'', EvGoInt 150)],
      plain_event now JobFailed [(''workerId'', EvStr ''demo-worker-001''), (''jobId'', EvStr ''demo-job-67890''),
        (''taskIdentifier'', EvStr ''problematic_task''), (''error'', EvStr ''Simulated error for demonstration'')]]"

definition demonstration_bus :: "nat \<Rightarrow> nat \<Rightarrow> nat \<Rightarrow> nat \<Rightarrow> bus" where
  "demonstration_bus created start_handler success failed =
     subscribe (event_name JobFailed) failed
       (subscribe (event_name JobSuccess) success
         (subscribe (event_name JobStart) start_handler
           (subscribe (event_name WorkerCreate) created (new_event_bus 1000))))"

text \<open>
  The task \<open>hello\<close> of examples/events: it prints the name in the payload and emits an event with these
  data.  \<open>unix\<close> is the time in seconds.
\<close>

definition hello_task :: "(string \<Rightarrow> (string, ev_data) result) \<Rightarrow> int \<Rightarrow> string \<Rightarrow> (string, string \<times> ev_data) result" where
  "hello_task unmarshal unix payload =
     (case unmarshal payload of
        Inl e \<Rightarrow> Inl (''invalid payload format: '' @ e)
      | Inr payload_map \<Rightarrow>
          (let name = coalesce (data_str ''name'' payload_map) ''World''
           in Inr (name, [(''workerId'', EvStr ''demo-worker''), (''jobId'', EvStr (''job-'' @ itoa unix)),
                (''taskIdentifier'', EvStr ''hello''), (''name'', EvStr name)])))"

definition demo_worker_events :: "(string \<Rightarrow> (string, ev_data) result) \<Rightarrow> int \<Rightarrow> int \<Rightarrow> bus_event list" where
  "demo_worker_events unmarshal now unix =
     [plain_event now WorkerCreate [(''workerId'', EvStr ''demo-worker'')],
      plain_event now JobStart [(''workerId'', EvStr ''demo-worker''), (''jobId'', EvStr ''demo-job-001''),
        (''taskIdentifier'', EvStr ''hello'')]] @
     (case hello_task unmarshal unix ''{\"name\":\"Bobby Tables\"}'' of
        Inl e \<Rightarrow> [] | Inr (name, data) \<Rightarrow> [plain_event now JobSuccess data])"

text \<open>The listener names the worker and the job of the event the task emits.\<close>

lemma hello_is_announced:
  "hello_task unmarshal unix payload = Inr (name, data) \<Longrightarrow> show_value (EvStr (''job-'' @ itoa unix)) = s \<Longrightarrow>
   hooray_handler show_value (plain_event now JobSuccess data) = Hooray ''demo-worker'' s"
  by (auto simp: hello_task_def hooray_handler_def plain_event_def data_str_def coalesce_def Let_def
      split: sum.splits)

section \<open>The metrics collector\<close>

record metrics =
  mc_completed :: "string \<rightharpoonup> int"
  mc_errors :: "string \<rightharpoonup> int"

definition incr :: "string \<Rightarrow> (string \<rightharpoonup> int) \<Rightarrow> (string \<rightharpoonup> int)" where
  "incr k m = m(k \<mapsto> coalesce (m k) 0 + 1)"

definition handle_job_success :: "bus_event \<Rightarrow> metrics \<Rightarrow> metrics" where
  "handle_job_success ev m =
     (case data_str ''taskIdentifier'' (be_data ev) of
        Some t \<Rightarrow> m\<lparr>mc_completed := incr t (mc_completed m)\<rparr> | None \<Rightarrow> m)"

definition handle_job_error :: "bus_event \<Rightarrow> metrics \<Rightarrow> metrics" where
  "handle_job_error ev m =
     (case data_str ''taskIdentifier'' (be_data ev) of
        Some t \<Rightarrow> m\<lparr>mc_errors := incr t (mc_errors m)\<rparr> | None \<Rightarrow> m)"

definition handle_job_failed :: "bus_event \<Rightarrow> metrics \<Rightarrow> metrics" where
  "handle_job_failed ev m =
     (case data_str ''taskIdentifier'' (be_data ev) of
        Some t \<Rightarrow> m\<lparr>mc_errors := incr t (mc_errors m)\<rparr> | None \<Rightarrow> m)"

definition no_metrics :: metrics where "no_metrics = \<lparr>mc_completed = Map.empty, mc_errors = Map.empty\<rparr>"

text \<open>The handlers of \<open>CustomMetricsExample\<close> are 0, 1 and 2; others on the bus count nothing.\<close>

definition custom_metrics_bus :: bus where
  "custom_metrics_bus =
     subscribe (event_name JobFailed) 2
       (subscribe (event_name JobError) 1 (subscribe (event_name JobSuccess) 0 (new_event_bus 100)))"

definition metrics_handler :: "nat \<times> bus_event \<Rightarrow> metrics \<Rightarrow> metrics" where
  "metrics_handler call =
     (case call of (h, ev) \<Rightarrow>
        if h = 0 then handle_job_success ev
        else if h = 1 then handle_job_error ev
        else if h = 2 then handle_job_failed ev else (\<lambda>m. m))"

definition custom_metrics_events :: "int \<Rightarrow> bus_event list" where
  "custom_metrics_events now =
     map (\<lambda>i. let task = ''task_'' @ itoa (i mod 3); data = job_event_data ''worker-1'' i task [] in
          if i mod 4 = 0 then (plain_event now JobError data)\<lparr>be_error := Some ''simulated error''\<rparr>
          else plain_event now JobSuccess data) [0..9]"

definition started :: "bus \<Rightarrow> (nat \<times> bus_event) list" where
  "started b = concat (map (\<lambda>(ev, hs). map (\<lambda>h. (h, ev)) hs) (bus_calls b))"

definition metrics_of :: "(string \<rightharpoonup> int) \<Rightarrow> string \<Rightarrow> int" where
  "metrics_of m t = coalesce (m t) 0"

section \<open>What the collector counts\<close>

definition task_of :: "bus_event \<Rightarrow> string option" where
  "task_of ev = data_str ''taskIdentifier'' (be_data ev)"

definition metrics_type :: "nat \<Rightarrow> string" where
  "metrics_type h = event_name (if h = 0 then JobSuccess else if h = 1 then JobError else JobFailed)"

lemma metrics_call:
  "metrics_of (mc_completed (metrics_handler (h, ev) m)) t =
     metrics_of (mc_completed m) t + (if h = 0 \<and> task_of ev = Some t then 1 else 0)"
  "metrics_of (mc_errors (metrics_handler (h, ev) m)) t =
     metrics_of (mc_errors m) t + (if h \<in> {1, 2} \<and> task_of ev = Some t then 1 else 0)"
  by (cases "task_of ev"; simp add: metrics_handler_def handle_job_success_def handle_job_error_def
      handle_job_failed_def metrics_of_def incr_def coalesce_def task_of_def)+

lemma metrics_fold:
  "metrics_of (mc_completed (fold metrics_handler cs m)) t =
     metrics_of (mc_completed m) t + int (length (filter (\<lambda>(h, ev). h = 0 \<and> task_of ev = Some t) cs)) \<and>
   metrics_of (mc_errors (fold metrics_handler cs m)) t =
     metrics_of (mc_errors m) t + int (length (filter (\<lambda>(h, ev). h \<in> {1, 2} \<and> task_of ev = Some t) cs))"
proof (induction cs arbitrary: m)
  case (Cons c cs)
  obtain h ev where c: "c = (h, ev)" by force
  show ?case using Cons.IH [of "metrics_handler c m"] by (simp add: c metrics_call)
qed simp

text \<open>Each of the three handlers is subscribed once, to its type.\<close>

definition collecting :: "bus \<Rightarrow> bool" where
  "collecting b \<longleftrightarrow>
     (\<forall>ty. \<forall>h \<le> 2. filter (\<lambda>x. x = h) (handlers_of ty b) = (if ty = metrics_type h then [h] else [])) \<and>
     (\<forall>(ev, hs) \<in> set (bus_calls b). \<forall>h \<le> 2.
        filter (\<lambda>x. x = h) hs = (if be_type ev = metrics_type h then [h] else []))"

lemma collecting_start: "collecting custom_metrics_bus"
proof -
  have "h = 0 \<or> h = 1 \<or> h = 2" if "h \<le> 2" for h :: nat using that by auto
  moreover have "handlers_of ty (new_event_bus 100) = []" "bus_calls (new_event_bus 100) = []" for ty
    by (simp_all add: handlers_of_def new_event_bus_def)
  ultimately show ?thesis
    by (auto simp: collecting_def custom_metrics_bus_def metrics_type_def event_name_def)
qed

lemma collecting_step:
  assumes "collecting b" "\<And>ty h. op = SubscribeOp ty h \<Longrightarrow> 2 < h"
  shows "collecting (bus_step op b)"
proof (cases op)
  case (SubscribeOp ty h)
  then show ?thesis using assms by (auto simp: collecting_def)
next
  case (ProcessOp p)
  have h: "bus_handlers (process_events_round p b) = bus_handlers b"
    by (auto simp: process_events_round_def receive_def handle_event_def Let_def split: loop_state.split list.split)
  have c: "set (bus_calls (process_events_round p b)) \<subseteq> set (bus_calls b) \<union> {(ev, handlers_of (be_type ev) b) | ev. True}"
    by (auto simp: process_events_round_def receive_def handle_event_def handlers_of_def Let_def
        split: loop_state.splits list.splits if_splits)
  have "handlers_of ty (process_events_round p b) = handlers_of ty b" for ty using h by (simp add: handlers_of_def)
  note same = this
  have "filter (\<lambda>x. x = h) hs = (if be_type ev = metrics_type h then [h] else [])"
    if "(ev, hs) \<in> set (bus_calls (process_events_round p b))" "h \<le> 2" for ev hs h
  proof (cases "(ev, hs) \<in> set (bus_calls b)")
    case True
    then show ?thesis using assms(1) that(2) unfolding collecting_def by blast
  next
    case False
    then have "hs = handlers_of (be_type ev) b" using c that(1) by blast
    then show ?thesis using assms(1) that(2) by (simp add: collecting_def)
  qed
  then show ?thesis using assms(1) unfolding collecting_def ProcessOp bus_step.simps same by blast
next
  case (EmitOp p ev)
  have "bus_handlers (bus_step op b) = bus_handlers b" "bus_calls (bus_step op b) = bus_calls b"
    by (auto simp: EmitOp bus_emit_def Let_def)
  then show ?thesis using assms(1) by (simp add: collecting_def handlers_of_def)
qed (use assms(1) in \<open>simp_all add: collecting_def unsubscribe_nothing cancel_bus_def handlers_of_def\<close>)

lemma collecting_steps:
  "collecting b \<Longrightarrow> (\<And>ty h. SubscribeOp ty h \<in> set ops \<Longrightarrow> 2 < h) \<Longrightarrow> collecting (fold bus_step ops b)"
proof (induction ops arbitrary: b)
  case (Cons op ops)
  have "collecting (bus_step op b)" by (rule collecting_step) (use Cons.prems in auto)
  moreover have "\<And>ty h. SubscribeOp ty h \<in> set ops \<Longrightarrow> 2 < h"
    using Cons.prems(2) by (meson list.set_intros(2))
  ultimately show ?case unfolding fold.simps comp_apply by (rule Cons.IH)
qed simp

lemma calls_counted:
  assumes "\<forall>(ev, hs) \<in> set calls. filter (\<lambda>x. x = h) hs = (if be_type ev = ty then [h] else [])"
  shows "length (filter (\<lambda>(x, ev). x = h \<and> P ev) (concat (map (\<lambda>(ev, hs). map (\<lambda>h. (h, ev)) hs) calls))) =
    length (filter (\<lambda>ev. be_type ev = ty \<and> P ev) (map fst calls))"
  using assms
proof (induction calls)
  case (Cons c calls)
  obtain ev hs where c: "c = (ev, hs)" by force
  have "length (filter (\<lambda>(x, e). x = h \<and> P e) (map (\<lambda>h. (h, ev)) hs)) =
      (if P ev then length (filter (\<lambda>x. x = h) hs) else 0)"
    by (simp add: filter_map comp_def)
  then show ?case using Cons by (simp add: c)
qed simp

lemma started_counted:
  assumes "collecting b" "h \<le> 2"
  shows "length (filter (\<lambda>(x, ev). x = h \<and> P ev) (started b)) =
    length (filter (\<lambda>ev. be_type ev = metrics_type h \<and> P ev) (handled b))"
  unfolding started_def handled_def
  by (rule calls_counted) (use assms in \<open>auto simp: collecting_def\<close>)

text \<open>
  Whatever the order in which the goroutines run, the collector counts for each task the
  job:success events the bus handled, and the job:error and job:failed events together: a job that
  fails for the last time counts twice.
\<close>

theorem metrics_are_counts:
  assumes "b = fold bus_step ops custom_metrics_bus" "\<forall>ty h. SubscribeOp ty h \<in> set ops \<longrightarrow> 2 < h"
    and "mset cs = mset (started b)" "m = fold metrics_handler cs no_metrics"
  shows "metrics_of (mc_completed m) t =
      int (length (filter (\<lambda>ev. be_type ev = event_name JobSuccess \<and> task_of ev = Some t) (handled b))) \<and>
    metrics_of (mc_errors m) t =
      int (length (filter (\<lambda>ev. be_type ev = event_name JobError \<and> task_of ev = Some t) (handled b)) +
           length (filter (\<lambda>ev. be_type ev = event_name JobFailed \<and> task_of ev = Some t) (handled b)))"
proof -
  have c: "collecting b" unfolding assms(1) by (rule collecting_steps [OF collecting_start]) (use assms(2) in blast)
  have len: "length (filter P cs) = length (filter P (started b))" for P
    using assms(3) by (metis mset_filter size_mset)
  have split: "length (filter (\<lambda>(h, ev). h \<in> {1, 2} \<and> Q ev) xs) =
      length (filter (\<lambda>(h, ev). h = 1 \<and> Q ev) xs) + length (filter (\<lambda>(h, ev). h = 2 \<and> Q ev) xs)"
    for Q and xs :: "(nat \<times> bus_event) list"
    by (induction xs) auto
  have z: "metrics_of (mc_completed no_metrics) t = 0" "metrics_of (mc_errors no_metrics) t = 0"
    by (simp_all add: metrics_of_def no_metrics_def coalesce_def)
  note s = started_counted [OF c, of _ "\<lambda>ev. task_of ev = Some t"]
  have ty: "metrics_type 0 = event_name JobSuccess" "metrics_type 1 = event_name JobError"
    "metrics_type 2 = event_name JobFailed" by (simp_all add: metrics_type_def)
  show ?thesis
    using metrics_fold [of cs no_metrics t] s [of 0] s [of 1] s [of 2]
    by (simp only: assms(4) len split z ty) simp
qed

lemma metrics_are_counts_witness:
  "let ev = plain_event 1 JobSuccess [(''taskIdentifier'', EvStr ''a'')];
       b = fold bus_step [EmitOp True ev, ProcessOp True] custom_metrics_bus
   in metrics_of (mc_completed (fold metrics_handler (rev (started b)) no_metrics)) ''a'' = 1"
proof -
  let ?ev = "plain_event 1 JobSuccess [(''taskIdentifier'', EvStr ''a'')]"
  let ?ops = "[EmitOp True ?ev, ProcessOp True]"
  let ?b = "fold bus_step ?ops custom_metrics_bus"
  have h: "handled ?b = [?ev]"
    by (simp add: custom_metrics_bus_def subscribe_def new_event_bus_def bus_emit_def process_events_round_def
        receive_def handle_event_def handled_def)
  have "be_type ?ev = event_name JobSuccess \<and> task_of ?ev = Some ''a''"
    by (simp add: plain_event_def task_of_def data_str_def)
  then show ?thesis
    using metrics_are_counts [OF refl, of ?ops "rev (started ?b)" _ "''a''"] h by (simp add: Let_def)
qed

text \<open>The events of a worker nest the task, so the collector counts none of them.\<close>

lemma metrics_miss_worker_events: "metrics_handler (h, \<lparr>be_type = ty, be_time = t, be_data = nested_job_data w i rest, be_error = e\<rparr>) m = m"
  by (simp add: metrics_handler_def handle_job_success_def handle_job_error_def handle_job_failed_def
      nested_job_data_def data_str_def)

end
