(* ===== verification/Test_Clock.thy ===== *)
theory Test_Clock
  imports Cron_Scheduler_Facts
begin

text \<open>
  Clocks: the time providers (pkg/worker/time_provider.go, pkg/cron/time_provider.go), the fake
  timer of the tests (internal/testutil/fake_timers.go), the wait for a condition
  (\<open>SleepUntil\<close> of internal/testutil/helpers.go), and what a scheduler does when a fake clock moves.

  Times are nanoseconds.  A callback of a timer is a function of the new time on the world of the
  test; the mutex is not held while it runs.
\<close>

section \<open>The fake timer\<close>

record 'w fake_timer =
  ft_now :: int
  ft_callbacks :: "(int \<Rightarrow> 'w \<Rightarrow> 'w) list"

definition reference_time :: int where "reference_time = 1609459200000000000"

definition new_fake_timer :: "int \<Rightarrow> 'w fake_timer" where
  "new_fake_timer start = \<lparr>ft_now = start, ft_callbacks = []\<rparr>"

definition set_time :: "int \<Rightarrow> 'w fake_timer \<times> 'w \<Rightarrow> 'w fake_timer \<times> 'w" where
  "set_time t tw = ((fst tw)\<lparr>ft_now := t\<rparr>, fold (\<lambda>cb. cb t) (ft_callbacks (fst tw)) (snd tw))"

text \<open>
  \<open>time.Unix(ms/1000, (ms%1000)*1000000)\<close>, with Go's division, which rounds towards zero.
\<close>

definition quot :: "int \<Rightarrow> int \<Rightarrow> int" where "quot a b = sgn a * (\<bar>a\<bar> div b)"
definition rem :: "int \<Rightarrow> int \<Rightarrow> int" where "rem a b = a - b * quot a b"

definition time_unix :: "int \<Rightarrow> int \<Rightarrow> int" where "time_unix s ns = s * 1000000000 + ns"

definition set_time_from_timestamp :: "int \<Rightarrow> 'w fake_timer \<times> 'w \<Rightarrow> 'w fake_timer \<times> 'w" where
  "set_time_from_timestamp ms = set_time (time_unix (quot ms 1000) (rem ms 1000 * 1000000))"

definition reset_timer :: "'w fake_timer \<Rightarrow> 'w fake_timer" where
  "reset_timer ft = ft\<lparr>ft_now := reference_time, ft_callbacks := []\<rparr>"

definition on_time_change :: "(int \<Rightarrow> 'w \<Rightarrow> 'w) \<Rightarrow> 'w fake_timer \<Rightarrow> 'w fake_timer" where
  "on_time_change cb ft = ft\<lparr>ft_callbacks := ft_callbacks ft @ [cb]\<rparr>"

lemma timestamp_is_milliseconds: "set_time_from_timestamp ms = set_time (ms * 1000000)"
  by (simp add: set_time_from_timestamp_def time_unix_def rem_def algebra_simps)

section \<open>The global timer\<close>

text \<open>The timers of a process, the global one among them; a test provider keeps the timer it got.\<close>

record 'w timers =
  tm_heap :: "'w fake_timer list"
  tm_global :: "nat option"

definition alloc_timer :: "int \<Rightarrow> 'w timers \<Rightarrow> 'w timers \<times> nat" where
  "alloc_timer start tm =
     (tm\<lparr>tm_heap := tm_heap tm @ [new_fake_timer start], tm_global := Some (length (tm_heap tm))\<rparr>,
      length (tm_heap tm))"

text \<open>\<open>SetupFakeTimers\<close> returns \<open>SetTimeFromTimestamp\<close> of the new timer.\<close>

definition setup_fake_timers :: "'w timers \<Rightarrow> 'w timers \<times> nat" where
  "setup_fake_timers tm = alloc_timer reference_time tm"

definition get_global_fake_timer :: "'w timers \<Rightarrow> 'w timers \<times> nat" where
  "get_global_fake_timer tm =
     (case tm_global tm of None \<Rightarrow> alloc_timer reference_time tm | Some i \<Rightarrow> (tm, i))"

datatype provider = RealTime | FakeTime nat

text \<open>\<open>NewRealTimeProvider\<close> of pkg/worker, and the provider the integration tests make of a timer they have.\<close>

definition new_real_time_provider :: provider where "new_real_time_provider = RealTime"

definition integration_time_provider :: "nat \<Rightarrow> provider" where "integration_time_provider i = FakeTime i"

text \<open>The real clock is read from the system, and registering a callback with it does nothing.\<close>

definition real_now :: "int \<Rightarrow> int" where "real_now system = system"

definition real_on_time_change :: "(int \<Rightarrow> 'w \<Rightarrow> 'w) \<Rightarrow> 'w timers \<Rightarrow> 'w timers" where
  "real_on_time_change cb tm = tm"

definition new_test_time_provider :: "'w timers \<Rightarrow> 'w timers \<times> provider" where
  "new_test_time_provider tm = (let (tm', i) = get_global_fake_timer tm in (tm', FakeTime i))"

text \<open>\<open>system\<close> is the clock of the machine.\<close>

definition provider_now :: "int \<Rightarrow> 'w timers \<Rightarrow> provider \<Rightarrow> int" where
  "provider_now system tm p = (case p of RealTime \<Rightarrow> real_now system | FakeTime i \<Rightarrow> ft_now (tm_heap tm ! i))"

definition provider_on_time_change :: "(int \<Rightarrow> 'w \<Rightarrow> 'w) \<Rightarrow> provider \<Rightarrow> 'w timers \<Rightarrow> 'w timers" where
  "provider_on_time_change cb p tm =
     (case p of RealTime \<Rightarrow> real_on_time_change cb tm
      | FakeTime i \<Rightarrow> tm\<lparr>tm_heap := (tm_heap tm)[i := on_time_change cb (tm_heap tm ! i)]\<rparr>)"

definition mockable_time_now :: "'w timers \<Rightarrow> 'w timers \<times> int" where
  "mockable_time_now tm = (let (tm', i) = get_global_fake_timer tm in (tm', ft_now (tm_heap tm' ! i)))"

definition heap_set_time :: "nat \<Rightarrow> int \<Rightarrow> 'w timers \<times> 'w \<Rightarrow> 'w timers \<times> 'w" where
  "heap_set_time i ms tw =
     (let (ft, w) = set_time_from_timestamp ms (tm_heap (fst tw) ! i, snd tw)
      in ((fst tw)\<lparr>tm_heap := (tm_heap (fst tw))[i := ft]\<rparr>, w))"

text \<open>
  A provider made after \<open>SetupFakeTimers\<close> shows the time that is set; one made before it shows the
  time of a timer no one sets any more.
\<close>

lemma provider_follows_setup:
  assumes "setup_fake_timers tm = (tm1, i)" "new_test_time_provider tm1 = (tm2, p)"
  shows "provider_now system (fst (heap_set_time i ms (tm2, w))) p = ms * 1000000"
  using assms
  by (auto simp: setup_fake_timers_def new_test_time_provider_def get_global_fake_timer_def alloc_timer_def
      provider_now_def heap_set_time_def timestamp_is_milliseconds set_time_def)

lemma older_provider_is_stale:
  assumes "new_test_time_provider tm = (tm1, p)" "setup_fake_timers tm1 = (tm2, i)"
    and "\<forall>g. tm_global tm = Some g \<longrightarrow> g < length (tm_heap tm)"
  shows "provider_now system (fst (heap_set_time i ms (tm2, w))) p = provider_now system tm1 p"
  using assms
  by (auto simp: setup_fake_timers_def new_test_time_provider_def get_global_fake_timer_def alloc_timer_def
      provider_now_def heap_set_time_def timestamp_is_milliseconds set_time_def nth_append nth_list_update
      split: option.splits prod.splits)

section \<open>Waiting for a condition\<close>

text \<open>
  \<open>SleepUntil\<close>: \<open>cond\<close> may change the state, \<open>rest\<close> is a sleep of two milliseconds, \<open>clock\<close> the
  system's.  The result is the duration of the timeout, if it was one.
\<close>

partial_function (option) sleep_loop ::
  "('s \<Rightarrow> 's \<times> bool) \<Rightarrow> ('s \<Rightarrow> 's) \<Rightarrow> ('s \<Rightarrow> int) \<Rightarrow> int \<Rightarrow> int \<Rightarrow> 's \<Rightarrow> 's option" where
  "sleep_loop cond rest clock start max_duration s =
     (let (s1, met) = cond s in
      if \<not> met \<and> clock s1 - start < max_duration
      then sleep_loop cond rest clock start max_duration (rest s1)
      else Some s1)"

declare sleep_loop.simps [code]

definition sleep_until ::
  "('s \<Rightarrow> 's \<times> bool) \<Rightarrow> ('s \<Rightarrow> 's) \<Rightarrow> ('s \<Rightarrow> int) \<Rightarrow> int \<Rightarrow> 's \<Rightarrow> ('s \<times> int option) option" where
  "sleep_until cond rest clock max_duration s =
     map_option (\<lambda>s1. let (s2, met) = cond s1 in (s2, if met then None else Some (clock s2 - clock s)))
       (sleep_loop cond rest clock (clock s) max_duration s)"

lemma sleep_loop_returns:
  assumes "\<And>s. clock s \<le> clock (fst (cond s))" "\<And>s. clock s + 2000000 \<le> clock (rest s)"
  shows "\<exists>s' s1 met. sleep_loop cond rest clock start max_duration s = Some s' \<and> cond s1 = (s', met) \<and>
    clock s \<le> clock s' \<and> (met \<or> max_duration \<le> clock s' - start)"
proof (induction "nat (start + max_duration - clock s)" arbitrary: s rule: less_induct)
  case less
  obtain s1 met where c: "cond s = (s1, met)" by force
  have up: "clock s \<le> clock s1" using assms(1) [of s] c by simp
  show ?case
  proof (cases "met \<or> \<not> clock s1 - start < max_duration")
    case True
    then have "sleep_loop cond rest clock start max_duration s = Some s1"
      using c by (subst sleep_loop.simps) (auto simp: Let_def)
    then show ?thesis using c up True by (intro exI [of _ s1] exI [of _ s] exI [of _ met]) auto
  next
    case False
    have "nat (start + max_duration - clock (rest s1)) < nat (start + max_duration - clock s)"
      using False up assms(2) [of s1] by linarith
    from less [OF this] obtain s' s2 m where
      "sleep_loop cond rest clock start max_duration (rest s1) = Some s'" "cond s2 = (s', m)"
      "clock (rest s1) \<le> clock s'" "m \<or> max_duration \<le> clock s' - start" by blast
    moreover have "clock s \<le> clock (rest s1)" using up assms(2) [of s1] by linarith
    moreover have "sleep_loop cond rest clock start max_duration s
        = sleep_loop cond rest clock start max_duration (rest s1)"
      using c False by (subst sleep_loop.simps) (simp add: Let_def)
    ultimately show ?thesis by (metis order_trans)
  qed
qed

text \<open>
  SleepUntil returns for every condition, since each sleep moves the clock.  It returns
  without an error just when the condition held as it was asked last; and for a condition that
  stays true once it is, a timeout is reported only after the whole duration.
\<close>

theorem sleep_until_returns:
  assumes "\<And>s. clock s \<le> clock (fst (cond s))" "\<And>s. clock s + 2000000 \<le> clock (rest s)"
  shows "\<exists>s' timeout s1. sleep_until cond rest clock max_duration s = Some (s', timeout) \<and>
    cond s1 = (s', timeout = None) \<and>
    (\<forall>d. timeout = Some d \<longrightarrow> d = clock s' - clock s \<and>
       ((\<forall>x. snd (cond x) \<longrightarrow> snd (cond (fst (cond x)))) \<longrightarrow> max_duration \<le> d))"
proof -
  from sleep_loop_returns [of clock cond rest, OF assms, of "clock s" max_duration s]
  obtain s1 s0 met where l: "sleep_loop cond rest clock (clock s) max_duration s = Some s1" "cond s0 = (s1, met)"
    "met \<or> max_duration \<le> clock s1 - clock s" by blast
  obtain s' last where c: "cond s1 = (s', last)" by force
  have u: "sleep_until cond rest clock max_duration s = Some (s', if last then None else Some (clock s' - clock s))"
    by (simp add: sleep_until_def l(1) c)
  have "max_duration \<le> clock s' - clock s"
    if "\<forall>x. snd (cond x) \<longrightarrow> snd (cond (fst (cond x)))" "\<not> last"
  proof -
    have "\<not> met" using that l(2) c by (metis fst_conv snd_conv)
    then show ?thesis using l(3) assms(1) [of s1] c by simp
  qed
  then show ?thesis using u c by (intro exI [of _ s'] exI [of _ "if last then None else Some (clock s' - clock s)"] exI [of _ s1]) auto
qed

lemma sleep_until_returns_witness:
  "\<exists>s' timeout. sleep_until (\<lambda>s. (s, s \<ge> (4000000 :: int))) (\<lambda>s. s + 2000000) (\<lambda>s. s) 10000000 0 = Some (s', timeout)"
  using sleep_until_returns [of "\<lambda>s. s" "\<lambda>s. (s, s \<ge> (4000000 :: int))" "\<lambda>s. s + 2000000" 10000000 0] by auto

section \<open>A scheduler on a fake clock\<close>

text \<open>The callback the scheduling loop registers.\<close>

definition clock_callback :: "scheduler \<Rightarrow> int \<Rightarrow> sstate \<Rightarrow> sstate" where
  "clock_callback c t s = process_scheduled_tasks c t (s\<lparr>ss_now := t\<rparr>)"

text \<open>A test sets the fake clock to \<open>t\<close> when the clock of the database shows \<open>pg\<close>.\<close>

definition move_clock :: "int \<times> int \<Rightarrow> sstate fake_timer \<times> sstate \<Rightarrow> sstate fake_timer \<times> sstate" where
  "move_clock step fs = set_time (snd step) (fst fs, (snd fs)\<lparr>ss_pg_now := fst step\<rparr>)"

lemma callback_quiet:
  assumes "quiet_db s"
  shows "ss_store (clock_callback c t s) = tick_store c (ss_pg_now s) t (ss_items s) (ss_store s) \<and>
     quiet_db (clock_callback c t s) \<and> ss_items (clock_callback c t s) = ss_items s"
  using process_items_quiet [of "s\<lparr>ss_now := t\<rparr>" t c "ss_items s"] assms
  by (simp add: clock_callback_def process_scheduled_tasks_def quiet_db_def)

lemma moved_clock:
  assumes "quiet_db s"
  shows "ss_store (snd (fold move_clock steps (\<lparr>ft_now = n, ft_callbacks = [clock_callback c]\<rparr>, s))) =
    fold (\<lambda>(pg, t). tick_store c pg t (ss_items s)) steps (ss_store s)"
  using assms
proof (induction steps arbitrary: n s)
  case (Cons st steps)
  let ?s = "s\<lparr>ss_pg_now := fst st\<rparr>"
  have q: "quiet_db ?s" using Cons.prems by (simp add: quiet_db_def)
  note c = callback_quiet [OF q, of c "snd st"]
  have "move_clock st (\<lparr>ft_now = n, ft_callbacks = [clock_callback c]\<rparr>, s) =
      (\<lparr>ft_now = snd st, ft_callbacks = [clock_callback c]\<rparr>, clock_callback c (snd st) ?s)"
    by (simp add: move_clock_def set_time_def)
  then show ?case using Cons.IH [of "clock_callback c (snd st) ?s" "snd st"] c by (simp add: case_prod_beta)
qed simp

text \<open>
  A scheduler whose clock is a fake timer acts on every time the timer is set to, at once and
  in order, without waiting for its ticker: the store is the one that ticks at those times leave.
\<close>

theorem fake_clock_drives_scheduler:
  assumes "quiet_db s"
  shows "let ft = on_time_change (clock_callback c) (new_fake_timer start);
             (ft', s') = fold move_clock steps (ft, s)
    in ss_store s' = fold (\<lambda>(pg, t). tick_store c pg t (ss_items s)) steps (ss_store s)"
  using moved_clock [OF assms, of steps start c]
  by (simp add: on_time_change_def new_fake_timer_def case_prod_beta)

lemma fake_clock_drives_scheduler_witness:
  "ss_store (snd (fold move_clock [(180000000, 180000000000), (180000001, 240000000000)]
     (on_time_change (clock_callback utc_scheduler) (new_fake_timer 0), minutely_state))) =
   tick_store utc_scheduler 180000001 240000000000 [minutely_item]
     (tick_store utc_scheduler 180000000 180000000000 [minutely_item] (ss_store minutely_state))"
  using fake_clock_drives_scheduler [OF minutely_facts(1), of utc_scheduler 0
      "[(180000000, 180000000000), (180000001, 240000000000)]"]
  by (simp add: case_prod_beta minutely_facts)

end
