(* ===== verification/Test_Support.thy ===== *)
theory Test_Support
  imports Test_Clock Job_Helpers Migrator Event_Monitor Command_Line
begin

text \<open>
  The helpers of the tests (internal/testutil/helpers.go): environment variables for the time of a
  function, a transaction, the rows of the tables, and the selection of jobs in various states.

  A failed requirement ends the test: the result of a helper is then \<open>None\<close>, with the state it
  leaves.  Reading and writing the database goes by the clock \<open>pg\<close>.
\<close>

section \<open>Environment variables\<close>

text \<open>
  The operating system's environment: \<open>os.Setenv\<close> refuses names that are empty or hold \<open>=\<close> or a
  zero byte, and values with a zero byte; the errors are ignored.
\<close>

type_synonym os_env = "string \<rightharpoonup> string"

definition name_ok :: "string \<Rightarrow> bool" where
  "name_ok k \<longleftrightarrow> k \<noteq> [] \<and> CHR ''='' \<notin> set k \<and> CHR 0x00 \<notin> set k"

definition value_ok :: "string \<Rightarrow> bool" where "value_ok v \<longleftrightarrow> CHR 0x00 \<notin> set v"

definition setenv :: "string \<Rightarrow> string \<Rightarrow> os_env \<Rightarrow> os_env" where
  "setenv k v e = (if name_ok k \<and> value_ok v then e(k \<mapsto> v) else e)"

definition unsetenv :: "string \<Rightarrow> os_env \<Rightarrow> os_env" where
  "unsetenv k e = e(k := None)"

text \<open>\<open>overrides\<close> is the map in the order its iteration takes; the function may fail the test.\<close>

definition with_env :: "(string \<times> string) list \<Rightarrow> (os_env \<Rightarrow> 'r \<times> os_env) \<Rightarrow> os_env \<Rightarrow> 'r \<times> os_env" where
  "with_env overrides f e =
     (let original = (\<lambda>k. if k \<in> fst ` set overrides then e k else None);
          e1 = fold (\<lambda>(k, v). if v = [] then unsetenv k else setenv k v) overrides e;
          (r, e2) = f e1
      in (r, fold (\<lambda>(k, v). case original k of Some o' \<Rightarrow> setenv k o' | None \<Rightarrow> unsetenv k) overrides e2))"

definition env_ok :: "os_env \<Rightarrow> bool" where
  "env_ok e \<longleftrightarrow> (\<forall>k v. e k = Some v \<longrightarrow> name_ok k \<and> value_ok v)"

lemma fold_setting:
  assumes "distinct (map fst ov)"
  shows "fold (\<lambda>(k, v). if v = [] then unsetenv k else setenv k v) ov e k =
    (case map_of ov k of None \<Rightarrow> e k
     | Some v \<Rightarrow> if v = [] then None else if name_ok k \<and> value_ok v then Some v else e k)"
  using assms
proof (induction ov arbitrary: e)
  case (Cons p ov)
  obtain k' v where p: "p = (k', v)" by force
  have n: "map_of ov k' = None" using Cons.prems by (simp add: p map_of_eq_None_iff)
  show ?case using Cons.IH Cons.prems n
    by (auto simp: p unsetenv_def setenv_def split: option.splits)
qed simp

lemma fold_restoring:
  assumes "\<And>k v. original k = Some v \<Longrightarrow> name_ok k \<and> value_ok v"
  shows "fold (\<lambda>(k, v). case original k of Some o' \<Rightarrow> setenv k o' | None \<Rightarrow> unsetenv k) ov e k =
    (if k \<in> fst ` set ov then original k else e k)"
  using assms
  by (induction ov arbitrary: e) (auto simp: unsetenv_def setenv_def split: option.split)

text \<open>
  WithEnv shows the function the overrides, an empty one as a variable that is not set, and
  afterwards gives every overridden variable back, set or not, whatever the function did to it;
  what the function did to other variables stays.
\<close>

theorem with_env_restores:
  assumes "env_ok e" "distinct (map fst ov)" "f e1 = (r, e2)"
    and "e1 = (\<lambda>k. case map_of ov k of None \<Rightarrow> e k
       | Some v \<Rightarrow> if v = [] then None else if name_ok k \<and> value_ok v then Some v else e k)"
  shows "with_env ov f e = (r, \<lambda>k. if k \<in> fst ` set ov then e k else e2 k)"
proof -
  have "fold (\<lambda>(k, v). if v = [] then unsetenv k else setenv k v) ov e = e1"
    unfolding assms(4) by (rule ext) (rule fold_setting [OF assms(2)])
  moreover have "fold (\<lambda>(k, v). case if k \<in> fst ` set ov then e k else None of
        Some o' \<Rightarrow> setenv k o' | None \<Rightarrow> unsetenv k) ov e2 =
      (\<lambda>k. if k \<in> fst ` set ov then e k else e2 k)"
    by (rule ext, subst fold_restoring) (use assms(1) in \<open>auto simp: env_ok_def split: if_splits\<close>)
  ultimately show ?thesis by (simp add: with_env_def Let_def assms(3))
qed

lemma with_env_restores_witness:
  "with_env [(''A'', ''1''), (''B'', [])] (\<lambda>e. (e ''A'', e(''A'' \<mapsto> ''3'', ''C'' \<mapsto> ''4''))) [''B'' \<mapsto> ''2''] =
     (Some ''1'', [''B'' \<mapsto> ''2'', ''C'' \<mapsto> ''4''])"
proof -
  have ok: "env_ok [''B'' \<mapsto> ''2'']" "name_ok ''A''" "value_ok ''1''"
    by (auto simp: env_ok_def name_ok_def value_ok_def)
  show ?thesis
    using with_env_restores [OF ok(1), of "[(''A'', ''1''), (''B'', [])]" "\<lambda>e. (e ''A'', e(''A'' \<mapsto> ''3'', ''C'' \<mapsto> ''4''))", OF _ refl refl]
      ok(2,3)
    by (auto simp: fun_eq_iff)
qed

section \<open>Transactions\<close>

text \<open>
  \<open>WithTransaction\<close>: the deferred call runs also when the function fails the test, and commits then,
  too, if it was asked to.
\<close>

definition with_transaction :: "tx_env \<Rightarrow> bool \<Rightarrow> (store \<Rightarrow> store \<times> 'r option) \<Rightarrow> store \<Rightarrow> store \<times> 'r option" where
  "with_transaction e commit f st =
     (if tx_acquire e \<noteq> None \<or> tx_begin e \<noteq> None then (st, None)
      else case f st of
        (st', r) \<Rightarrow>
          if \<not> commit then (rolled_back st st', r)
          else if tx_commit e \<noteq> None then (rolled_back st st', None)
          else (st', r))"

lemma failed_test_commits:
  "f st = (st', None) \<Longrightarrow> with_transaction tx_works True f st = (st', None)"
  by (simp add: with_transaction_def tx_works_def)

lemma without_commit_nothing_stays:
  "st_jobs (fst (with_transaction e False f st)) = st_jobs st"
  by (auto simp: with_transaction_def rolled_back_def split: prod.split)

section \<open>The tables\<close>

definition job_count :: "store \<Rightarrow> nat" where "job_count st = length (st_jobs st)"

text \<open>The tests have a struct \<open>Job\<close> of their own with the fields of the worker's.\<close>

type_synonym test_job = go_job

definition get_jobs :: "store \<Rightarrow> test_job list" where "get_jobs st = map job_of_row (st_jobs st)"

text \<open>\<open>ids\<close> is the order in which the table gives its rows.\<close>

definition get_known :: "string list \<Rightarrow> store \<Rightarrow> (string \<times> crontab_row) list" where
  "get_known ids st = List.map_filter (\<lambda>i. map_option (Pair i) (st_crontabs st i)) ids"

text \<open>A test waits on a world that holds the store; \<open>others\<close> is what the rest of it does meanwhile.\<close>

definition wait_for_job_count ::
  "('w \<Rightarrow> store) \<Rightarrow> ('w \<Rightarrow> 'w) \<Rightarrow> ('w \<Rightarrow> int) \<Rightarrow> nat \<Rightarrow> int \<Rightarrow> 'w \<Rightarrow> ('w \<times> int option) option" where
  "wait_for_job_count store_of others clock expected =
     sleep_until (\<lambda>w. (w, job_count (store_of w) = expected)) others clock"

section \<open>A fresh schema\<close>

text \<open>
  \<open>Reset\<close> drops the schema and migrates; dropping it takes the table of migrations along, and leaves
  \<open>empty_data\<close>.  The result tells whether the test goes on.
\<close>

record reset_faults =
  rf_acquire :: "string option"
  rf_drop :: "string option"
  rf_migrate_acquire :: "string option"
  rf_install :: "string option"
  rf_run :: "int \<Rightarrow> tx_fault"

definition reset_schema ::
  "(string \<Rightarrow> 'd \<Rightarrow> (string, 'd) result) \<Rightarrow> string \<Rightarrow> dir_entry list \<Rightarrow> 'd \<Rightarrow> reset_faults \<Rightarrow> 'd migration_db
     \<Rightarrow> 'd migration_db \<times> bool" where
  "reset_schema run_sql schema entries empty_data rf db =
     (if rf_acquire rf \<noteq> None \<or> rf_drop rf \<noteq> None then (db, False)
      else
        (let (db', err) = migrate run_sql schema entries (rf_migrate_acquire rf) (rf_install rf) (rf_run rf)
               (db\<lparr>md_applied := None, md_data := empty_data\<rparr>)
         in (db', err = None)))"

text \<open>
  \<open>WithPgPool\<close> and \<open>WithPgConn\<close>: the pool is closed and the connection released whatever becomes of the
  test.  \<open>close\<close> closes a pool in the world of the test.
\<close>

definition with_pg_pool ::
  "(string, nat) result \<Rightarrow> (nat \<Rightarrow> 'w \<Rightarrow> 'w) \<Rightarrow> (nat \<Rightarrow> 'w \<Rightarrow> 'w \<times> 'r option) \<Rightarrow> 'w \<Rightarrow> 'w \<times> 'r option" where
  "with_pg_pool made close f w =
     (case made of
        Inl e \<Rightarrow> (w, None)
      | Inr p \<Rightarrow> (let (w', r) = f p w in (close p w', r)))"

definition with_pg_conn :: "string option \<Rightarrow> ('w \<Rightarrow> 'w \<times> 'r option) \<Rightarrow> 'w \<Rightarrow> 'w \<times> 'r option" where
  "with_pg_conn acquire_fault f w = (if acquire_fault \<noteq> None then (w, None) else f w)"

text \<open>\<open>WithOptions\<close>: a pool, a fresh schema and one task that logs its payload.\<close>

definition basic_task_handlers :: "(string \<times> handler) list" where
  "basic_task_handlers = [(''do_something_else'', \<lambda>payload job st. (st, Returned None))]"

definition with_options ::
  "(string, nat) result \<Rightarrow> (string \<Rightarrow> 'd \<Rightarrow> (string, 'd) result) \<Rightarrow> string \<Rightarrow> dir_entry list \<Rightarrow> 'd \<Rightarrow> reset_faults
     \<Rightarrow> (nat \<Rightarrow> (string \<times> handler) list \<Rightarrow> nat list \<times> 'd migration_db \<Rightarrow> (nat list \<times> 'd migration_db) \<times> 'r option)
     \<Rightarrow> nat list \<times> 'd migration_db \<Rightarrow> (nat list \<times> 'd migration_db) \<times> 'r option" where
  "with_options made run_sql schema entries empty_data rf f =
     with_pg_pool made (\<lambda>p (closed, db). (p # closed, db))
       (\<lambda>p (closed, db).
          let (db', ok) = reset_schema run_sql schema entries empty_data rf db
          in if ok then f p basic_task_handlers (closed, db') else ((closed, db'), None))"

lemma reset_schema_fresh:
  assumes "reset_schema run_sql schema entries empty_data rf db = (db', True)"
    and "distinct (map mg_number (load_migrations entries))"
  shows "md_applied db' = Some (numbers (pending 0 entries)) \<and>
    run_all run_sql schema (pending 0 entries) empty_data = Inr (md_data db')"
proof -
  let ?db = "db\<lparr>md_data := empty_data, md_applied := Some {}\<rparr>"
  have a: "apply_migrations run_sql schema (rf_run rf) 0 (load_migrations entries) ?db = (db', None)"
    using assms(1)
    by (auto simp: reset_schema_def migrate_def get_latest_migration_def install_schema_def Let_def
        split: if_splits option.splits prod.splits)
  obtain k where "k \<le> length (pending 0 entries)" "md_applied db' = Some ({} \<union> numbers (take k (pending 0 entries)))"
    "run_all run_sql schema (take k (pending 0 entries)) empty_data = Inr (md_data db')"
    "(None :: migrate_error option) = None \<longleftrightarrow> k = length (pending 0 entries)"
    using apply_migrations_prefix [OF _ _ a assms(2) refl, of "{}"] by (auto simp: pending_def)
  then show ?thesis by simp
qed

text \<open>
  A test under WithOptions that is run at all is given a schema with all the migrations applied to
  an empty database, the same whatever was there before, an open pool and its one task; and
  when it has ended, however it did, the pool is closed.
\<close>

theorem options_start_fresh:
  assumes "with_options made run_sql schema entries empty_data rf f (cl, db) = ((cl', db'), Some r)"
    and "distinct (map mg_number (load_migrations entries))"
  shows "\<exists>p d fresh cl1. made = Inr p \<and> run_all run_sql schema (pending 0 entries) empty_data = Inr d \<and>
    md_data fresh = d \<and> md_applied fresh = Some (numbers (pending 0 entries)) \<and>
    f p basic_task_handlers (cl, fresh) = ((cl1, db'), Some r) \<and> cl' = p # cl1"
proof -
  obtain p where p: "made = Inr p" using assms(1) by (cases made) (auto simp: with_options_def with_pg_pool_def)
  obtain fresh ok where r: "reset_schema run_sql schema entries empty_data rf db = (fresh, ok)" by (metis surj_pair)
  have ok: ok using assms(1) by (auto simp: with_options_def with_pg_pool_def p r split: if_splits)
  obtain w1 r1 where f: "f p basic_task_handlers (cl, fresh) = (w1, r1)" by (metis surj_pair)
  have "(cl', db') = (case w1 of (cs, d) \<Rightarrow> (p # cs, d))" "r1 = Some r"
    using assms(1) by (auto simp: with_options_def with_pg_pool_def p r ok f)
  moreover have "md_applied fresh = Some (numbers (pending 0 entries)) \<and>
      run_all run_sql schema (pending 0 entries) empty_data = Inr (md_data fresh)"
    by (rule reset_schema_fresh [OF _ assms(2)]) (use r ok in simp)
  ultimately show ?thesis using p f by (cases w1) (auto intro!: exI [of _ fresh])
qed

lemma options_start_fresh_witness:
  "\<exists>fresh. run_all (\<lambda>s d. Inr (d @ [s])) ''kt'' (pending 0 [(''000001.sql'', False, ''x'')]) [] = Inr (md_data fresh) \<and>
     with_options (Inr 7) (\<lambda>s d. Inr (d @ [s])) ''kt'' [(''000001.sql'', False, ''x'')] []
       \<lparr>rf_acquire = None, rf_drop = None, rf_migrate_acquire = None, rf_install = None, rf_run = \<lambda>_. NoFault\<rparr>
       (\<lambda>p tasks w. (w, Some (length tasks))) ([], \<lparr>md_applied = Some {}, md_data = [''old'']\<rparr>)
     = (([7], fresh), Some 1)"
proof -
  let ?rf = "\<lparr>rf_acquire = None, rf_drop = None, rf_migrate_acquire = None, rf_install = None, rf_run = \<lambda>_. NoFault\<rparr>"
  have "with_options (Inr 7) (\<lambda>s d. Inr (d @ [s])) ''kt'' [(''000001.sql'', False, ''x'')] [] ?rf
       (\<lambda>p tasks w. (w, Some (length tasks))) ([], \<lparr>md_applied = Some {}, md_data = [''old'']\<rparr>)
     = (([7], \<lparr>md_applied = Some {1}, md_data = [''x'']\<rparr>), Some 1)" by code_simp
  moreover have "distinct (map mg_number (load_migrations [(''000001.sql'', False, ''x'')]))" by code_simp
  ultimately show ?thesis using options_start_fresh by (metis (no_types, lifting) fst_conv prod.inject)
qed

section \<open>Waiting for events\<close>

text \<open>
  \<open>WaitForEventCount\<close>: the world holds the monitor; \<open>change\<close> changes it there.  \<open>AwaitNextTimeout\<close>:
  \<open>meanwhile\<close> is what happens until the \<open>select\<close> is made, which may take the timer though an event is there.
\<close>

definition wait_for_event_count ::
  "('w \<Rightarrow> monitor) \<Rightarrow> ((monitor \<Rightarrow> monitor) \<Rightarrow> 'w \<Rightarrow> 'w) \<Rightarrow> ('w \<Rightarrow> 'w) \<Rightarrow> ('w \<Rightarrow> int) \<Rightarrow> string \<Rightarrow> nat \<Rightarrow> int \<Rightarrow> 'w
     \<Rightarrow> ('w \<times> int option) option" where
  "wait_for_event_count monitor_of change others clock ty expected timeout w =
     sleep_until (\<lambda>w. (w, expected \<le> fst (get_counter ty (monitor_of w)))) others clock timeout
       (change (monitor_count ty) w)"

definition await_next_timeout :: "string \<Rightarrow> (monitor \<Rightarrow> monitor) \<Rightarrow> bool \<Rightarrow> monitor \<Rightarrow> monitor \<times> bus_event option" where
  "await_next_timeout ty meanwhile timer_first m =
     (let (m1, k) = await_next ty m; m2 = meanwhile m1
      in case mo_chans m2 ! k of
           Some ev \<Rightarrow> if timer_first then (m2, None) else (m2\<lparr>mo_chans := (mo_chans m2)[k := None]\<rparr>, Some ev)
         | None \<Rightarrow> (m2, None))"

text \<open>A count that is reached already ends the wait at once.\<close>

lemma counted_already:
  assumes "expected \<le> fst (get_counter ty (monitor_of (change (monitor_count ty) w)))"
  shows "wait_for_event_count monitor_of change others clock ty expected timeout w = Some (change (monitor_count ty) w, None)"
  using assms by (simp add: wait_for_event_count_def sleep_until_def sleep_loop.simps)

section \<open>Mock jobs\<close>

text \<open>The random numbers are milliseconds before now; \<open>num\<close> is a random 32-bit number.\<close>

definition make_mock_job :: "string \<Rightarrow> int \<Rightarrow> int \<Rightarrow> nat \<Rightarrow> int \<Rightarrow> test_job" where
  "make_mock_job task now age num delay =
     \<lparr>jb_id = itoa (int num), jb_queue = None, jb_task = task, jb_payload = ''{}'', jb_priority = 0,
      jb_run_at = now - delay * 1000, jb_attempts = 0, jb_max_attempts = 25, jb_last_error = None,
      jb_created_at = now - age * 1000, jb_updated_at = now - age * 1000, jb_key = None,
      jb_revision = 0, jb_flags = None, jb_locked_at = None, jb_locked_by = None\<rparr>"

record job_selection =
  sl_failed :: string
  sl_regular1 :: string
  sl_locked :: string
  sl_regular2 :: string
  sl_untouched :: string

text \<open>An update by an id that is text: the database reads it as a number.\<close>

definition update_by_id :: "int \<Rightarrow> string \<Rightarrow> (job_row \<Rightarrow> job_row) \<Rightarrow> store \<Rightarrow> store option" where
  "update_by_id pg i f st =
     (case atoi i of None \<Rightarrow> None | Some n \<Rightarrow> Some (update_jobs pg (\<lambda>j. j_id j = n) f st))"

definition add_for_selection :: "worker_utils \<Rightarrow> int \<Rightarrow> int \<Rightarrow> string \<Rightarrow> store \<Rightarrow> (store \<times> string) option" where
  "add_for_selection wu pg future payload st =
     (case quick_add_job [] wu pg DbWorks ''job1'' (Json payload) [empty_task_spec\<lparr>s_run_at := Some future\<rparr>] st of
        (st', Inr i) \<Rightarrow> Some (st', i) | (st', Inl e) \<Rightarrow> None)"

definition make_selection_of_jobs :: "worker_utils \<Rightarrow> int \<Rightarrow> int \<Rightarrow> store \<Rightarrow> (store \<times> job_selection) option" where
  "make_selection_of_jobs wu pg now st =
     (let future = now + 3600000000; add = add_for_selection wu pg future in
      Option.bind (add ''{\"a\":1}'' st) (\<lambda>(s1, failed).
      Option.bind (add ''{\"a\":2}'' s1) (\<lambda>(s2, regular1).
      Option.bind (add ''{\"a\":3}'' s2) (\<lambda>(s3, locked).
      Option.bind (add ''{\"a\":4}'' s3) (\<lambda>(s4, regular2).
      Option.bind (add ''{\"a\":5}'' s4) (\<lambda>(s5, untouched).
      Option.bind (update_by_id pg locked (\<lambda>j. j\<lparr>j_locked_by := Some ''test'', j_locked_at := Some pg\<rparr>) s5) (\<lambda>s6.
      Option.bind (update_by_id pg failed (\<lambda>j. j\<lparr>j_attempts := j_max_attempts j, j_last_error := Some ''Failed forever''\<rparr>) s6) (\<lambda>s7.
      Some (s7, \<lparr>sl_failed = failed, sl_regular1 = regular1, sl_locked = locked,
                 sl_regular2 = regular2, sl_untouched = untouched\<rparr>)))))))))"

section \<open>What the selection holds\<close>

lemma add_for_selection_result:
  assumes "wu_pool wu = Some p"
  shows "add_for_selection wu pg future payload st =
    Some (fst (insert_job (row_of_spec pg ((empty_task_spec\<lparr>s_run_at := Some future\<rparr>)
            \<lparr>s_identifier := ''job1'', s_payload := Some payload\<rparr>)) (notify st)), itoa (st_next_id st))"
  by (simp add: add_for_selection_def quick_add_job_def acquire_def assms spec_call_def add_job_def check_spec_def
      empty_task_spec_def plain_spec_def insert_job_def notify_def Let_def)

lemma find_append: "find P (xs @ ys) = (case find P xs of None \<Rightarrow> find P ys | Some x \<Rightarrow> Some x)"
  by (induction xs) auto

definition selection_row :: "int \<Rightarrow> int \<Rightarrow> string \<Rightarrow> int \<Rightarrow> job_row" where
  "selection_row pg future payload i =
     (row_of_spec pg ((empty_task_spec\<lparr>s_run_at := Some future\<rparr>)
        \<lparr>s_identifier := ''job1'', s_payload := Some payload\<rparr>))\<lparr>j_id := i\<rparr>"

lemma selection_row_fields [simp]:
  "j_id (selection_row pg future payload i) = i" "j_run_at (selection_row pg future payload i) = future"
  "j_attempts (selection_row pg future payload i) = 0" "j_max_attempts (selection_row pg future payload i) = 25"
  "j_locked_at (selection_row pg future payload i) = None" "j_queue (selection_row pg future payload i) = None"
  by (simp_all add: selection_row_def row_of_spec_def coalesce_def empty_task_spec_def plain_spec_def)

lemma selection_insert:
  assumes "wu_pool wu = Some p"
  shows "add_for_selection wu pg future payload st =
    Some ((notify st)\<lparr>st_jobs := st_jobs st @ [selection_row pg future payload (st_next_id st)],
             st_next_id := st_next_id st + 1\<rparr>, itoa (st_next_id st))"
  by (simp add: add_for_selection_result [OF assms] selection_row_def insert_job_def Let_def notify_def
      increase_count_def row_of_spec_def empty_task_spec_def plain_spec_def)

text \<open>
  MakeSelectionOfJobs adds five jobs to a working store and changes no other.  None of them
  can be taken within the hour; after it exactly the two regular and the untouched one can, since
  the failed one has no attempts left and the locked one is held.
\<close>

theorem selection_states:
  assumes "ids_ok st" "wu_pool wu = Some p" "1 \<le> st_next_id st" "st_next_id st + 4 \<le> max_int64"
  shows "\<exists>st' sel. make_selection_of_jobs wu pg now st = Some (st', sel) \<and>
    job_count st' = job_count st + 5 \<and>
    (\<forall>i < st_next_id st. find_job i st' = find_job i st) \<and>
    (\<forall>j \<in> set (st_jobs st'). j_id j < st_next_id st \<or>
       (\<forall>held t ts fl. t < now + 3600000000 \<longrightarrow> \<not> runnable held t ts fl st' j)) \<and>
    (\<forall>t \<ge> now + 3600000000.
       {itoa (j_id j) | j. j \<in> set (st_jobs st') \<and> \<not> j_id j < st_next_id st \<and> runnable none_held t None None st' j} =
       {sl_regular1 sel, sl_regular2 sel, sl_untouched sel})"
proof -
  let ?n = "st_next_id st" and ?f = "now + 3600000000"
  let ?r = "\<lambda>b k. selection_row pg ?f b (?n + k)"
  let ?lock = "\<lambda>j. j\<lparr>j_locked_by := Some ''test'', j_locked_at := Some pg\<rparr>"
  let ?exh = "\<lambda>j. j\<lparr>j_attempts := j_max_attempts j, j_last_error := Some ''Failed forever''\<rparr>"
  let ?fr = "?r ''{\"a\":1}'' 0" and ?lr = "?r ''{\"a\":3}'' 2"
  let ?jobs = "st_jobs st @ [touch pg ?fr (?exh ?fr), ?r ''{\"a\":2}'' 1, touch pg ?lr (?lock ?lr),
     ?r ''{\"a\":4}'' 3, ?r ''{\"a\":5}'' 4]"
  have old: "j_id j < ?n" if "j \<in> set (st_jobs st)" for j using assms(1) that by (simp add: ids_ok_def)
  have ids: "atoi (itoa ?n) = Some ?n" "atoi (itoa (?n + 2)) = Some (?n + 2)"
    using assms(3,4) by (auto intro!: atoi_itoa simp: min_int64_def)
  have unchanged: "map (\<lambda>j. if j_id j = ?n + k then g j else j) (st_jobs st) = st_jobs st" if "0 \<le> k" for k g
    by (rule map_idI) (use old that in force)
  obtain st' sel where m: "make_selection_of_jobs wu pg now st = Some (st', sel)" and jobs: "st_jobs st' = ?jobs"
    and q: "st_queues st' = st_queues st"
    and sel: "sl_regular1 sel = itoa (?n + 1)" "sl_regular2 sel = itoa (?n + 3)" "sl_untouched sel = itoa (?n + 4)"
    using unchanged [of 0] unchanged [of 2] ids
    by (simp add: make_selection_of_jobs_def selection_insert [OF assms(2)] Let_def notify_def update_by_id_def
        update_jobs_def add.commute)
  have "find_job i st' = find_job i st" if "i < ?n" for i
    using that by (auto simp: find_job_def jobs find_append split: option.split)
  moreover have "\<not> runnable held t ts fl st' j"
    if "j \<in> set (st_jobs st')" "\<not> j_id j < ?n" "t < ?f" for j held t ts fl
    using that old by (auto simp: jobs runnable_def)
  moreover have "{itoa (j_id j) | j. j \<in> set (st_jobs st') \<and> \<not> j_id j < ?n \<and> runnable none_held t None None st' j} =
      {sl_regular1 sel, sl_regular2 sel, sl_untouched sel}" if "?f \<le> t" for t
  proof -
    have "{j. j \<in> set (st_jobs st') \<and> \<not> j_id j < ?n \<and> runnable none_held t None None st' j} =
        {?r ''{\"a\":2}'' 1, ?r ''{\"a\":4}'' 3, ?r ''{\"a\":5}'' 4}"
      using that old by (auto simp: jobs runnable_def queue_free_def none_held_def)
    then have "(\<lambda>j. itoa (j_id j)) ` {j. j \<in> set (st_jobs st') \<and> \<not> j_id j < ?n \<and> runnable none_held t None None st' j} =
        {itoa (?n + 1), itoa (?n + 3), itoa (?n + 4)}" by simp
    then show ?thesis unfolding sel by (simp add: image_def setcompr_eq_image Collect_conj_eq)
  qed
  moreover have "job_count st' = job_count st + 5" by (simp add: job_count_def jobs)
  ultimately show ?thesis using m by blast
qed

lemma selection_states_witness:
  "\<exists>st' sel. make_selection_of_jobs (new_worker_utils (Some 0) []) 5 7 empty_store = Some (st', sel) \<and> job_count st' = 5"
  using selection_states [of empty_store "new_worker_utils (Some 0) []" 0 5 7]
  by (auto simp: empty_store_def ids_ok_def new_worker_utils_def max_int64_def job_count_def)

end
