(* ===== verification/Test_Postgres.thy ===== *)
theory Test_Postgres
  imports Test_Clock
begin

text \<open>
  The database of the tests (internal/testutil/postgres.go): a container is started, its connection
  string asked for until it is known, and a pool opened and pinged until it answers.

  The state holds the clock.  Each try may change it: \<open>connect\<close> opens a pool, and pings it when that worked;
  \<open>rest\<close> is a sleep.  A pool that does not answer is closed.
\<close>

partial_function (option) wait_pool_loop ::
  "('s \<Rightarrow> 's \<times> (string, nat \<times> string option) result) \<Rightarrow> ('s \<Rightarrow> 's) \<Rightarrow> ('s \<Rightarrow> int) \<Rightarrow> int \<Rightarrow> string option \<Rightarrow> nat list \<Rightarrow> 's
     \<Rightarrow> ('s \<times> nat list \<times> (string, nat) result) option" where
  "wait_pool_loop connect rest clock deadline last_err closed_pools s =
     (if clock s < deadline then
        (case connect s of
           (s1, Inr (p, None)) \<Rightarrow> Some (s1, closed_pools, Inr p)
         | (s1, Inr (p, Some e)) \<Rightarrow>
             wait_pool_loop connect rest clock deadline (Some e) (closed_pools @ [p]) (rest s1)
         | (s1, Inl e) \<Rightarrow> wait_pool_loop connect rest clock deadline (Some e) closed_pools (rest s1))
      else Some (s, closed_pools, Inl (case last_err of Some e \<Rightarrow> e | None \<Rightarrow> ''timeout waiting for database'')))"

definition wait_for_pgxpool ::
  "('s \<Rightarrow> 's \<times> (string, nat \<times> string option) result) \<Rightarrow> ('s \<Rightarrow> 's) \<Rightarrow> ('s \<Rightarrow> int) \<Rightarrow> int \<Rightarrow> 's
     \<Rightarrow> ('s \<times> nat list \<times> (string, nat) result) option" where
  "wait_for_pgxpool connect rest clock timeout s =
     wait_pool_loop connect rest clock (clock s + timeout) None [] s"

text \<open>\<open>StartPostgres\<close>: the cleanups it registers run in the reverse order; a failure ends the test.\<close>

datatype cleanup = TerminateContainer | CloseTestPool nat

partial_function (option) connection_string_loop ::
  "('s \<Rightarrow> 's \<times> (string, string) result) \<Rightarrow> ('s \<Rightarrow> 's) \<Rightarrow> ('s \<Rightarrow> int) \<Rightarrow> int \<Rightarrow> (string, string) result \<Rightarrow> 's
     \<Rightarrow> ('s \<times> (string, string) result) option" where
  "connection_string_loop ask rest clock deadline answer s =
     (if clock s < deadline then
        (case ask s of
           (s1, Inr url) \<Rightarrow> Some (s1, Inr url)
         | (s1, Inl e) \<Rightarrow> connection_string_loop ask rest clock deadline (Inl e) (rest s1))
      else Some (s, answer))"

definition start_postgres ::
  "('s \<Rightarrow> 's \<times> string option) \<Rightarrow> ('s \<Rightarrow> 's \<times> (string, string) result) \<Rightarrow> (string \<Rightarrow> 's \<Rightarrow> 's \<times> (string, nat \<times> string option) result)
     \<Rightarrow> ('s \<Rightarrow> 's) \<Rightarrow> ('s \<Rightarrow> 's) \<Rightarrow> ('s \<Rightarrow> int) \<Rightarrow> 's \<Rightarrow> ('s \<times> cleanup list \<times> (string, string \<times> nat) result) option" where
  "start_postgres run_container ask connect rest500 rest300 clock s =
     (case run_container s of
        (s1, Some e) \<Rightarrow> Some (s1, [], Inl (''start container: '' @ e))
      | (s1, None) \<Rightarrow>
          (case connection_string_loop ask rest500 clock (clock s1 + 30000000000) (Inr []) s1 of
             None \<Rightarrow> None
           | Some (s2, Inl e) \<Rightarrow> Some (s2, [TerminateContainer], Inl (''connection string: '' @ e))
           | Some (s2, Inr url) \<Rightarrow>
               (case wait_for_pgxpool (connect url) rest300 clock 30000000000 s2 of
                  None \<Rightarrow> None
                | Some (s3, _, Inl e) \<Rightarrow> Some (s3, [TerminateContainer], Inl (''wait for pool: '' @ e))
                | Some (s3, _, Inr p) \<Rightarrow> Some (s3, [TerminateContainer, CloseTestPool p], Inr (url, p)))))"

text \<open>
  Waiting for the pool ends: with a pool that has answered, or after the whole time with an error.
  Each try takes at least the 300 milliseconds of the sleep.
\<close>

lemma wait_pool_loop_ends:
  assumes "\<And>s. clock s \<le> clock (fst (connect s))" "\<And>s. clock s + 300000000 \<le> clock (rest s)"
  shows "\<exists>s' cs r. wait_pool_loop connect rest clock deadline last_err closed_pools s = Some (s', cs, r) \<and>
    (case r of Inr p \<Rightarrow> (\<exists>s1. connect s1 = (s', Inr (p, None))) | Inl e \<Rightarrow> deadline \<le> clock s')"
proof (induction "nat (deadline - clock s)" arbitrary: s last_err closed_pools rule: less_induct)
  case less
  show ?case
  proof (cases "clock s < deadline")
    case True
    obtain s1 r where c: "connect s = (s1, r)" by (metis surj_pair)
    have "clock s \<le> clock s1" using assms(1) [of s] c by simp
    then have "nat (deadline - clock (rest s1)) < nat (deadline - clock s)"
      using assms(2) [of s1] True by linarith
    note IH = less [OF this]
    show ?thesis
    proof (cases r)
      case (Inl e)
      then have "wait_pool_loop connect rest clock deadline last_err closed_pools s =
          wait_pool_loop connect rest clock deadline (Some e) closed_pools (rest s1)"
        using True c by (subst wait_pool_loop.simps) simp
      then show ?thesis using IH [of "Some e" closed_pools] by simp
    next
      case (Inr pe)
      obtain p e where pe: "pe = (p, e)" by (metis surj_pair)
      show ?thesis
      proof (cases e)
        case None
        then show ?thesis using True c Inr pe by (subst wait_pool_loop.simps) auto
      next
        case (Some m)
        then have "wait_pool_loop connect rest clock deadline last_err closed_pools s =
            wait_pool_loop connect rest clock deadline (Some m) (closed_pools @ [p]) (rest s1)"
          using True c Inr pe by (subst wait_pool_loop.simps) simp
        then show ?thesis using IH [of "Some m" "closed_pools @ [p]"] by simp
      qed
    qed
  next
    case False
    then show ?thesis by (subst wait_pool_loop.simps) simp
  qed
qed

lemma wait_for_pgxpool_ends:
  assumes "\<And>s. clock s \<le> clock (fst (connect s))" "\<And>s. clock s + 300000000 \<le> clock (rest s)"
  shows "\<exists>s' cs r. wait_for_pgxpool connect rest clock timeout s = Some (s', cs, r)"
  using wait_pool_loop_ends [of clock connect rest, OF assms] unfolding wait_for_pgxpool_def by blast

end
