(* ===== verification/Perf_Test.thy ===== *)
theory Perf_Test
  imports Worker_Drain Worker_Utils Migrator
begin

text \<open>
  The performance test's set-up (perftest/init_jobs.go), and what a worker then does with its jobs.
\<close>

section \<open>Adding the jobs\<close>

datatype init_error = DisallowedTask | UtilsFailed utils_error

text \<open>\<open>^[a-zA-Z0-9_]+$\<close>\<close>

definition valid_task_name :: "string \<Rightarrow> bool" where
  "valid_task_name task \<longleftrightarrow> task \<noteq> [] \<and> list_all word_char task"

text \<open>\<open>json.Marshal\<close> takes the blank out of the raw message.\<close>

definition perf_payload :: "nat \<Rightarrow> string" where
  "perf_payload i = ''{\"id\":'' @ itoa (int i) @ ''}''"

definition perf_spec :: "string \<Rightarrow> job_spec" where
  "perf_spec task = (if task = ''stuck'' then empty_task_spec\<lparr>s_queue := Some task\<rparr> else empty_task_spec)"

text \<open>
  \<open>made\<close> is what \<open>MakeWorkerUtils\<close> returns; \<open>pg i\<close> and \<open>r i\<close> are the database's clock and what it
  does with the \<open>i\<close>-th call.  A call that fails is logged and forgotten.
\<close>

definition init_jobs ::
  "nat list \<Rightarrow> (utils_error, worker_utils) result \<Rightarrow> (nat \<Rightarrow> int) \<Rightarrow> (nat \<Rightarrow> db_result) \<Rightarrow> nat \<Rightarrow> string \<Rightarrow> store
     \<Rightarrow> store \<times> init_error option" where
  "init_jobs closed made pg r job_count task st =
     (if \<not> valid_task_name task then (st, Some DisallowedTask)
      else case made of
        Inl e \<Rightarrow> (st, Some (UtilsFailed e))
      | Inr wu \<Rightarrow>
          (fold (\<lambda>i st. fst (quick_add_job closed wu (pg i) (r i) task (Json (perf_payload i)) [perf_spec task] st))
             [1..<job_count + 1] st, None))"

text \<open>No failure of a call is reported: a name too long for the queue adds nothing, silently.\<close>

lemma init_jobs_never_fails:
  "valid_task_name task \<Longrightarrow> snd (init_jobs closed (Inr wu) pg r n task st) = None"
  by (simp add: init_jobs_def)

lemma task_name_length: "valid_task_name task \<Longrightarrow> pg_length task = length task"
proof -
  have "\<not> continues_char c" if "word_char c" for c
    using that by (auto simp: word_char_def continues_char_def is_digit_def is_alpha_def is_upper_def
        is_lower_def cval_def)
  then show "valid_task_name task \<Longrightarrow> pg_length task = length task"
    by (auto simp: valid_task_name_def pg_length_def list_all_iff filter_id_conv)
qed

lemma long_name_adds_nothing:
  assumes "valid_task_name task" "length task > 128"
  shows "init_jobs closed (Inr wu) pg r n task st = (st, None)"
proof -
  have "fst (quick_add_job closed wu now d task (Json p) [perf_spec task] s) = s" for now d p s
    using assms task_name_length [OF assms(1)]
    by (auto simp: quick_add_job_def add_job_def check_spec_def spec_call_def Let_def split: option.split db_result.split)
  then have "fold (\<lambda>i st. fst (quick_add_job closed wu (pg i) (r i) task (Json (perf_payload i)) [perf_spec task] st)) xs s = s" for xs s
    by (induction xs) auto
  then show ?thesis using assms(1) by (simp add: init_jobs_def)
qed

section \<open>Running them\<close>

definition perf_row :: "(nat \<Rightarrow> int) \<Rightarrow> string \<Rightarrow> nat \<Rightarrow> int \<Rightarrow> job_row" where
  "perf_row pg task i n = (row_of_spec (pg i) (spec_call task (perf_payload i) [perf_spec task]))\<lparr>j_id := n\<rparr>"

lemma perf_row_fields [simp]:
  "j_id (perf_row pg task i n) = n" "j_task (perf_row pg task i n) = task" "j_run_at (perf_row pg task i n) = pg i"
  "j_locked_at (perf_row pg task i n) = None" "j_locked_by (perf_row pg task i n) = None"
  "j_attempts (perf_row pg task i n) = 0" "j_max_attempts (perf_row pg task i n) = 25"
  "j_key (perf_row pg task i n) = None" "j_flags (perf_row pg task i n) = None"
  by (simp_all add: perf_row_def row_of_spec_def spec_call_def perf_spec_def empty_task_spec_def plain_spec_def
      coalesce_def flags_object_def)

lemma perf_add:
  assumes "length task \<le> 128" "acquire closed (wu_pool wu) DbWorks = None"
  shows "fst (quick_add_job closed wu (pg i) DbWorks task (Json (perf_payload i)) [perf_spec task] st) =
    fst (insert_job (perf_row pg task i 0) (notify st))"
proof -
  have "check_spec (spec_call task (perf_payload i) [perf_spec task]) = None"
    "s_key (spec_call task (perf_payload i) [perf_spec task]) = None"
    using assms(1) by (auto simp: check_spec_def spec_call_def perf_spec_def empty_task_spec_def plain_spec_def)
  then show ?thesis
    using assms(2)
    by (simp add: quick_add_job_def add_job_def perf_row_def insert_job_def Let_def row_of_spec_def split: prod.split)
qed

lemma perf_adds:
  assumes "length task \<le> 128" "acquire closed (wu_pool wu) DbWorks = None" "store_ok st" "\<forall>q. queue_unlocked q st"
  shows "let st' = fold (\<lambda>i st. fst (quick_add_job closed wu (pg i) DbWorks task (Json (perf_payload i)) [perf_spec task] st))
             [1..<n + 1] st
    in st_jobs st' = st_jobs st @ map (\<lambda>i. perf_row pg task i (st_next_id st + int i - 1)) [1..<n + 1] \<and>
       st_next_id st' = st_next_id st + int n \<and> store_ok st' \<and> (\<forall>q. queue_unlocked q st')"
proof (induction n)
  case 0
  then show ?case using assms(3,4) by simp
next
  case (Suc n)
  define st' where "st' = fold (\<lambda>i st. fst (quick_add_job closed wu (pg i) DbWorks task (Json (perf_payload i)) [perf_spec task] st))
             [1..<n + 1] st"
  have IH: "st_jobs st' = st_jobs st @ map (\<lambda>i. perf_row pg task i (st_next_id st + int i - 1)) [1..<n + 1]"
    "st_next_id st' = st_next_id st + int n" "store_ok st'" "queue_unlocked q st'" for q
    using Suc.IH unfolding Let_def st'_def by auto
  let ?new = "fst (insert_job (perf_row pg task (n + 1) 0) (notify st'))"
  have ok: "store_ok ?new" by (rule insert_job_ok) (use notify_ok [OF IH(3)] in simp_all)
  have "queue_unlocked q ?new" for q
    using IH(4) [of q] by (auto simp: queue_unlocked_def insert_job_def increase_count_def Let_def split: option.splits if_splits)
  moreover have "(perf_row pg task (n + 1) 0)\<lparr>j_id := i\<rparr> = perf_row pg task (n + 1) i" for i
    by (simp add: perf_row_def)
  then have "st_jobs ?new = st_jobs st' @ [perf_row pg task (n + 1) (st_next_id st')]"
    "st_next_id ?new = st_next_id st' + 1"
    by (simp_all add: insert_job_def Let_def)
  moreover have up: "[1..<Suc n + 1] = [1..<n + 1] @ [n + 1]" by simp
  have "fold (\<lambda>i st. fst (quick_add_job closed wu (pg i) DbWorks task (Json (perf_payload i)) [perf_spec task] st))
      [1..<Suc n + 1] st = ?new"
    unfolding up fold_append comp_def st'_def [symmetric] fold.simps id_apply by (rule perf_add [OF assms(1,2)])
  ultimately show ?case using ok IH(1,2) unfolding Let_def up by simp
qed

text \<open>
  C18: InitJobs adds the number of jobs it was asked for, and a worker with the task that runs once
  over them runs and completes them all, the ones of the common queue \<open>stuck\<close> too.
\<close>

theorem perf_jobs_all_run:
  assumes "valid_task_name task" "length task \<le> 128" "acquire closed (wu_pool wu) DbWorks = None"
    and "store_ok st" "\<forall>q. queue_unlocked q st"
    and "init_jobs closed (Inr wu) pg (\<lambda>_. DbWorks) n task st = (st1, err)"
    and "obliging wk" "task \<in> set (map fst (wk_handlers wk))"
    and "ws_store ws = st1" "ws_script ws = []" "\<not> ws_cancelled ws" "\<not> ws_pool_closed ws"
    and "\<forall>i. pg i \<le> worker_now wk ws"
  shows "err = None \<and> length (st_jobs st1) = length (st_jobs st) + n \<and>
    (\<exists>ws'. run_once wk ws = Some (ws', Returned None) \<and>
       (\<forall>i \<in> {st_next_id st..<st_next_id st + int n}.
          find_job i st1 \<noteq> None \<and> succeeded ws' i \<and> find_job i (ws_store ws') = None))"
proof -
  have r: "st_jobs st1 = st_jobs st @ map (\<lambda>i. perf_row pg task i (st_next_id st + int i - 1)) [1..<n + 1]"
    "store_ok st1" "queue_unlocked q st1" "err = None" for q
    using perf_adds [OF assms(2-5), of pg n] assms(1,6) by (auto simp: init_jobs_def Let_def)
  have "undisturbed_db ws" using assms(9-12) r(2) by (simp add: undisturbed_db_def)
  from run_once_all [OF assms(7) this] obtain ws' where ws':
    "run_once wk ws = Some (ws', Returned None)"
    "\<And>j. wanted wk ws j \<Longrightarrow> succeeded ws' (j_id j) \<and> find_job (j_id j) (ws_store ws') = None" by blast
  have "find_job i st1 \<noteq> None \<and> succeeded ws' i \<and> find_job i (ws_store ws') = None"
    if i: "i \<in> {st_next_id st..<st_next_id st + int n}" for i
  proof -
    define k where "k = nat (i - st_next_id st) + 1"
    let ?row = "perf_row pg task k i"
    have k: "k \<in> set [1..<n + 1]" "i = st_next_id st + int k - 1" using i by (auto simp: k_def)
    then have m: "?row \<in> set (st_jobs st1)" unfolding r(1) by auto
    have "queue_free none_held st1 (j_queue ?row)" using queue_free_iff [OF r(2) m] r(3) by simp
    then have "wanted wk ws ?row"
      using m assms(8,9,13) by (simp add: runnable_def none_held_def)
    moreover have "find_job i st1 = Some ?row" using m find_job_iff store_okD [OF r(2)] by simp
    ultimately show ?thesis using ws'(2) [of ?row] by simp
  qed
  then show ?thesis using r ws'(1) by auto
qed

lemma perf_jobs_all_run_witness:
  "\<exists>ws'. run_once (test_worker [(''stuck'', always_ok)]\<lparr>wk_event_bus := True\<rparr>)
      (new_state (fst (init_jobs [] (Inr (new_worker_utils (Some 0) [])) (\<lambda>_. 5) (\<lambda>_. DbWorks) 3 ''stuck'' empty_store))
         5 5 (\<lambda>_. 1) []) = Some (ws', Returned None) \<and> (\<forall>i \<in> {1..<4}. succeeded ws' i)"
proof -
  let ?wk = "test_worker [(''stuck'', always_ok)]\<lparr>wk_event_bus := True\<rparr>"
  let ?wu = "new_worker_utils (Some 0) []"
  obtain st1 err where i: "init_jobs [] (Inr ?wu) (\<lambda>_. 5) (\<lambda>_. DbWorks) 3 ''stuck'' empty_store = (st1, err)" by force
  have n: "valid_task_name ''stuck''" by (simp add: valid_task_name_def word_char_def is_alpha_def is_lower_def is_upper_def cval_def)
  have q: "acquire [] (wu_pool ?wu) DbWorks = None" "\<forall>q. queue_unlocked q empty_store"
    by (simp_all add: acquire_def new_worker_utils_def queue_unlocked_def empty_store_def)
  have wk: "obliging ?wk" "''stuck'' \<in> set (map fst (wk_handlers ?wk))"
    by (simp_all add: obliging_def test_worker_def new_worker_def always_ok_def goes_on_def)
  let ?ws = "new_state st1 5 5 (\<lambda>_. 1) []"
  have ws: "ws_store ?ws = st1" "ws_script ?ws = []" "\<not> ws_cancelled ?ws" "\<not> ws_pool_closed ?ws"
    "\<forall>i :: nat. (5 :: int) \<le> worker_now ?wk ?ws"
    by (simp_all add: new_state_def worker_now_def)
  have "length ''stuck'' \<le> 128" by simp
  from perf_jobs_all_run [OF n this q(1) empty_store_ok q(2) i wk ws]
  show ?thesis using i by (auto simp: empty_store_def)
qed

end
