(* ===== verification/Error_Example.thy ===== *)
theory Error_Example
  imports Worker_Pool Worker_Drain
begin

text \<open>
  The error handling example (examples/error_handling/main.go): its tasks, and what becomes of their jobs
  in a pool.  \<open>unmarshal\<close> is \<open>json.Unmarshal\<close> into a map; a value that is no boolean is \<open>None\<close>.
\<close>

definition safe_task :: handler where "safe_task payload job st = (st, Returned None)"

definition risky_task :: "(string \<Rightarrow> (string, (string \<times> bool option) list) result) \<Rightarrow> handler" where
  "risky_task unmarshal payload job st =
     (case unmarshal payload of
        Inl e \<Rightarrow> (st, Returned (Some e))
      | Inr data \<Rightarrow>
          (if map_of data ''panic'' = Some (Some True) then (st, Panicked ''Simulated panic in risky_task'')
           else (st, Returned None)))"

definition critical_error_task :: handler where
  "critical_error_task payload job st = (st, Returned (Some ''connection refused''))"

definition error_example_tasks ::
  "(string \<Rightarrow> (string, (string \<times> bool option) list) result) \<Rightarrow> (string \<times> handler) list" where
  "error_example_tasks unmarshal =
     [(''safe_task'', safe_task), (''risky_task'', risky_task unmarshal), (''critical_error_task'', critical_error_task)]"

text \<open>
  The panic is told the pool, whose goroutine recovered it.  The error the example calls critical is
  the error of a task: the job is failed, to be tried again, and the pool is told nothing, so its
  \<open>Wait\<close> does not return with it.
\<close>

lemma panic_is_reported:
  assumes "wk_handlers wk = error_example_tasks unmarshal" "j_task job = ''risky_task''"
    and "unmarshal (j_payload job) = Inr data" "map_of data ''panic'' = Some (Some True)"
  shows "snd (process_job wk job st) = Panicked ''Simulated panic in risky_task''"
    "run_worker_report i (Panicked ''Simulated panic in risky_task'') = Some (WorkerPanic i ''Simulated panic in risky_task'')"
  using assms by (simp_all add: process_job_def error_example_tasks_def risky_task_def Let_def run_worker_report_def)

lemma critical_error_ends_no_poll:
  assumes "wk_handlers wk = error_example_tasks unmarshal" "j_task job = ''critical_error_task''"
    and "\<not> ws_cancelled st" "worker_get_job wk st = (st1, Inr (Some job))" "process_job wk job st1 = (st2, how)"
  shows "(\<exists>e. how = Returned (Some e)) \<and> process_available_jobs wk st = process_available_jobs wk st2"
proof -
  have "snd (finish_job wk job (Some e) s) \<noteq> None" for e s
    by (auto simp: finish_job_def Let_def split: option.split prod.split)
  then obtain e where e: "how = Returned (Some e)"
    using assms(1,2,5)
    by (auto simp: process_job_def error_example_tasks_def critical_error_task_def Let_def split: prod.splits)
      (metis snd_conv not_None_eq)
  then have "process_available_jobs wk st = process_available_jobs wk st2"
    using assms(3-5) by (subst process_available_jobs.simps) simp
  then show ?thesis using e by simp
qed


end
