(* ===== verification/Spec2Isabelle.thy ===== *)
theory Spec2Isabelle
  imports Cron_Scheduler_Facts Queue_Protocol Worker_Facts Job_Helpers
    Job_Lifecycle Event_Bus Migrator Command_Line Schema_Dump Task_Context Cron_To_Worker
    Job_Scan Cron_Examples Event_Monitor Event_Examples Test_Support Test_Postgres Perf_Test Error_Example
begin

text \<open>
  A verification development of kongtask, a job queue on PostgreSQL with cron scheduling (a Go
  port of graphile-worker).

  The program.  Clients add jobs by the SQL function \<open>add_job\<close>; workers poll a statement that
  locks the first runnable job and its queue, run the task the job names, and complete or fail the
  job; a scheduler adds jobs at the times of crontab items; a pool runs several workers and
  listens for notifications; a runner puts these together from options; a migrator installs the
  tables and functions.  Components meet in the tables, in the event bus and in shared state of
  the process (compiled options, registered pools, signal handlers).

  Conventions.  A function with an error is a sum (\<open>Inl\<close> the error), one that may not return an
  option (\<open>None\<close>), one that a panic may pass through an \<open>ended\<close>,
  effects are explicit states.  Go's integers are \<open>int\<close> with \<open>wrap64\<close> where they can overflow (\<open>wrap64_word\<close> relates it to 64-bit words), int32 a 32-bit word.  Database times
  are microseconds, Go's nanoseconds.  Where several things may happen, which one does is an
  argument: a list of steps, a script of what the database does with each call and what other
  goroutines do meanwhile (after its end calls work at once, unless the pool is closed or the
  context cancelled), the iteration order of a Go map,
  the choice of a \<open>select\<close>.  There is no fuel: loops are structural, have a measure, or are
  \<open>partial_function (option)\<close> with theorems saying when they return.

  Theories and sources.

  Shared: \<open>KT_Prelude\<close> (results, 64-bit integers, lists), \<open>Go_Strings\<close> (the functions of strings
  and strconv in use), \<open>Transition\<close> (the interfaces \<open>invariant_system\<close> and \<open>refinement\<close>).

  Cron, pkg/cron: \<open>Cron_Types\<close> (types.go), \<open>Cron_Range\<close> (\<open>parseCrontabRange\<close>), \<open>Cron_Lines\<close> (the
  regular expressions), \<open>Cron_Parser\<close> (parser.go), \<open>Cron_Matcher\<close> (matcher.go, matcher_builder.go
  and the calendar of package time), \<open>Cron_Scheduler\<close> (scheduler.go); \<open>Execution_Log\<close> is the
  interface between the scheduler and the table of known crontabs.  Shown: what a field and a line
  mean as sets of digests and when parsing returns, with the overflow that makes it loop and the one
  that leaves the bounds; lines, items and builder matchers agree; the times of a range; that a tick records and
  adds what is due, and once a minute when the scheduler's zone is the database session's; what
  backfill adds again, and that two schedulers race.

  The queue, internal/migrate/sql and pkg/worker/sql: \<open>Job_Store\<close> (tables, triggers, \<open>add_job\<close>,
  \<open>remove_job\<close>, the statements of worker.go and the sql package, the administrative functions),
  \<open>Job_Store_Inv\<close> (its integrity, one lemma per statement), \<open>Job_Store_Spec\<close> (what each statement
  promises), \<open>Queue_Protocol\<close> (any number of workers on one store), \<open>Job_Lifecycle\<close> (the store
  refines a life cycle of idle and held jobs), \<open>Job_Source\<close> (the interface between a worker and
  the store).

  Workers, pkg/worker: \<open>Worker\<close> (worker.go) and \<open>Worker_Facts\<close> (what becomes of a job, when the
  loops end, and what a panic or a cancelled context leaves behind), \<open>Worker_Drain\<close> (a worker with
  willing tasks completes all that waits for it), \<open>Worker_Utils\<close> (worker_utils.go), \<open>Job_Helpers\<close> (helpers.go, helpers_factory.go),
  \<open>Task_Context\<close> (what a task is given), \<open>Shared_Options\<close> (lib.go, and the defaults of config.go),
  \<open>Worker_Pool\<close> (worker_pool.go), \<open>Pool_Manager\<close> (global_pool_manager.go).  Shown of a pool: at most one
  goroutine listens, opens a connection to listen on or waits to reconnect; one does until the end
  of the pool, unless the deferred clean-up of a listener comes after the reconnection's timer and
  takes the next listener's connection; channels within bounds, one critical error; its
  workers poll as \<open>RunOnce\<close> does; the last release of a managed pool locks a mutex twice.

  Around them: \<open>Event_Bus\<close> (pkg/events), \<open>Migrator\<close> (internal/migrate/migrator.go), \<open>Env_Config\<close>
  (pkg/env, config_parser.go, config.go, connection.go, migrate.go), \<open>Log_Output\<close> (pkg/logger),
  \<open>Task_Discovery\<close> and \<open>Runner\<close> (pkg/runner, and runner.go and compat.go of pkg/worker),
  \<open>Command_Line\<close> (cmd/kongtask), \<open>Schema_Dump\<close> (cmd/schema-dump).  Shown: the bus delivers in
  order and loses nothing silently, but its \<open>Close\<close> may wait for ever; migrations are applied as a
  prefix; where each setting comes from; a runner with a pool of its own finds it closed; the
  command run-task-list panics.

  All together: \<open>Cron_To_Worker\<close> follows a line of a crontab through the parser, a tick of the
  scheduler, \<open>add_job\<close> and a worker's \<open>RunOnce\<close> to its completion; \<open>Job_Scan\<close> a claimed row through
  its nullable columns to the job a task is given; \<open>Cron_Calendar\<close> a time through its digest back to
  a date.

  Tests and examples: \<open>Test_Clock\<close> (the time providers, the fake timer and the wait for a condition),
  \<open>Event_Monitor\<close>, \<open>Test_Support\<close> and \<open>Test_Postgres\<close> (internal/testutil), \<open>Perf_Test\<close> (perftest),
  \<open>Event_Examples\<close>, \<open>Cron_Examples\<close>, \<open>Error_Example\<close> (pkg/events/examples.go, pkg/cron/example and
  examples).  Shown: whoever waits for an event gets one and a counter is exact, in whatever order
  the goroutines of the handlers run; a wait ends; a fake clock drives the scheduler; a test starts
  on a fresh schema; the jobs of the performance test are all run; metrics are counts.

  Interfaces.  \<open>job_source\<close> (interpreted by the job store as \<open>pg\<close>), \<open>execution_log\<close> (by the table of
  crontabs as \<open>crontabs\<close>), \<open>invariant_system\<close> (by the clients of the queue as \<open>workers\<close>, by the
  pool, by the closed bus), \<open>refinement\<close> (by the job store as \<open>lifecycle\<close>, by the bus as
  \<open>bus_fifo\<close>).

  Assumptions, each an argument or a named hypothesis: the backoff of a failed job (an
  exponential in PostgreSQL) is a function of the attempts; rows locked by transactions of others
  are given (\<open>held_rows\<close>); the JSON and YAML decoders, the offset of a time zone, the effect of a
  migration's text on the database, user tasks, plugins, directories, and what viper makes of
  flags are functions; \<open>RunOnce\<close> ends when tasks add no attempts; the queue protocol holds
  as long as the locks that are held are younger than four hours.  A commit that fails has
  rolled back: one that the server makes and whose answer is lost is left out.  The channel of an
  event bus has at least one place: the sends of an unbuffered one are taken as never ready.
  Strings are bytes, and case conversion is that of ASCII; PostgreSQL's \<open>length\<close> counts characters.

  Not modelled: the PostgreSQL planner and its row locks beyond \<open>held_rows\<close> (each statement is
  atomic), the text of log lines other than the console's format, the rounding of floating point
  numbers in the delay of a reconnection, timeouts of event handlers, the rows of a query made by a task, what cobra and viper make of
  flags and files, the delivery of signals and the two lists of them, the interface
  declarations, the example of the SQL modules, which only prints, and what the other examples
  print.
\<close>

end
